(* ===== verification/Kojin_Prelude.thy ===== *)
theory Kojin_Prelude
  imports Main "HOL-Library.Word" "HOL-Library.Multiset"
begin

unbundle bit_operations_syntax

text \<open>
  Shared vocabulary of the development: machine integers at their Rust widths, the
  operations of Rust's standard library on them that the sources use (\<open>checked_shl\<close>,
  \<open>saturating_mul\<close>, the casts), durations and points in time, and generic lemmas on maps
  and lists that several components rest on.

  Time is counted in nanoseconds. \<open>std::time::Duration\<close> is a natural number of
  nanoseconds, \<open>tokio\<close>'s and \<open>std\<close>'s \<open>Instant\<close> a natural number on a monotonic clock, and
  \<open>chrono::DateTime<Utc>\<close> an integer number of nanoseconds since the Unix epoch.
\<close>

subsection \<open>Machine integers\<close>

type_synonym u8 = "8 word"
type_synonym u16 = "16 word"
type_synonym u32 = "32 word"
type_synonym u64 = "64 word"
type_synonym usize = "64 word"
type_synonym i32 = "32 word"
type_synonym uuid = "128 word"

text \<open>Facts about the observable behaviour of operations, collected per component.\<close>

named_theorems broker_simps
named_theorems message_simps
named_theorems backend_simps
named_theorems worker_simps

text \<open>Rust's \<open>u64::checked_shl\<close> with a \<open>u32\<close> shift count.\<close>

definition checked_shl_u64 :: "u64 \<Rightarrow> u32 \<Rightarrow> u64 option" where
  "checked_shl_u64 x n = (if unat n < 64 then Some (push_bit (unat n) x) else None)"

text \<open>Rust's \<open>u64::saturating_mul\<close>.\<close>

definition saturating_mul_u64 :: "u64 \<Rightarrow> u64 \<Rightarrow> u64" where
  "saturating_mul_u64 a b = (if unat a * unat b < 2 ^ 64 then a * b else - 1)"

lemma unat_max_u64: "unat (- 1 :: u64) = 2 ^ 64 - 1"
  by (simp add: unsigned_minus_1_eq_mask mask_eq_exp_minus_1)

lemma unat_saturating_mul_u64:
  "unat (saturating_mul_u64 a b) = min (unat a * unat b) (2 ^ 64 - 1)"
proof (cases "unat a * unat b < 2 ^ 64")
  case True
  then have "unat (a * b) = unat a * unat b"
    by (simp add: unat_mult_lem [symmetric])
  with True show ?thesis by (simp add: saturating_mul_u64_def)
next
  case False
  then show ?thesis by (simp add: saturating_mul_u64_def unat_max_u64)
qed

lemma unat_push_bit_one_u64:
  assumes "n < 64"
  shows "unat (push_bit n (1 :: u64)) = 2 ^ n"
proof -
  have "push_bit n (1 :: u64) = of_nat (2 ^ n)" by simp
  moreover have "(2 :: nat) ^ n < 2 ^ 64"
    using assms by (intro power_strict_increasing) auto
  ultimately show ?thesis
    using assms by (simp only: unsigned_of_nat) (simp add: take_bit_nat_eq_self)
qed

lemma unat_u64_le: "unat (x :: u64) \<le> 2 ^ 64 - 1"
  using unsigned_less [of x, where ?'a = nat] by simp

lemma unat_min_word: "unat (min a b :: 'a::len word) = min (unat a) (unat b)"
  by (simp add: min_def word_le_nat_alt)

lemma const_fun_upd [simp]: "(\<lambda>_. c)(k := c) = (\<lambda>_. c)"
  by (rule ext) simp

lemma unat_Suc_less:
  fixes a b :: "'a::len word"
  assumes "a < b"
  shows "unat (a + 1) = Suc (unat a)"
proof -
  have "unat a < unat b" using assms by (simp add: word_less_nat_alt)
  moreover have "unat b < 2 ^ LENGTH('a)" by (rule unsigned_less)
  ultimately have "Suc (unat a) < 2 ^ LENGTH('a)" by linarith
  then show ?thesis by (simp add: unat_word_ariths)
qed

lemma of_nat_u32_inject: "m < 2 ^ 32 \<Longrightarrow> n < 2 ^ 32 \<Longrightarrow> (of_nat m :: u32) = of_nat n \<longleftrightarrow> m = n"
  by (auto simp: word_of_nat_eq_iff take_bit_nat_eq_self)

subsection \<open>Durations and clocks\<close>

type_synonym Duration = nat
type_synonym Instant = nat
type_synonym DateTime = int

definition nanos_per_sec :: nat where
  "nanos_per_sec = 10 ^ 9"

definition duration_from_secs :: "u64 \<Rightarrow> Duration" where
  "duration_from_secs s = unat s * nanos_per_sec"

definition duration_from_millis :: "u64 \<Rightarrow> Duration" where
  "duration_from_millis ms = unat ms * 10 ^ 6"

text \<open>\<open>Instant::saturating_duration_since\<close> is truncated subtraction.\<close>

definition saturating_duration_since :: "Instant \<Rightarrow> Instant \<Rightarrow> Duration" where
  "saturating_duration_since later earlier = later - earlier"

subsection \<open>Totals over maps\<close>

text \<open>
  \<open>map_total f m\<close> adds \<open>f v\<close> over the values of a map with a finite domain. The
  conservation laws of the brokers and of the group store are stated with it.
\<close>

definition map_total :: "('b \<Rightarrow> 'c::comm_monoid_add) \<Rightarrow> ('a \<rightharpoonup> 'b) \<Rightarrow> 'c" where
  "map_total f m = (\<Sum>k\<in>dom m. f (the (m k)))"

lemma map_total_empty [simp]: "map_total f Map.empty = 0"
  by (simp add: map_total_def)

lemma map_total_upd_new:
  assumes "finite (dom m)" and "m k = None"
  shows "map_total f (m(k \<mapsto> v)) = map_total f m + f v"
proof -
  have "k \<notin> dom m" using assms(2) by auto
  then have "(\<Sum>j\<in>dom m. f (the ((m(k \<mapsto> v)) j))) = (\<Sum>j\<in>dom m. f (the (m j)))"
    by (intro sum.cong) auto
  with assms \<open>k \<notin> dom m\<close> show ?thesis
    by (simp add: map_total_def add.commute)
qed

lemma map_total_remove:
  assumes "finite (dom m)" and "m k = Some v"
  shows "map_total f m = map_total f (m(k := None)) + f v"
proof -
  have "map_total f ((m(k := None))(k \<mapsto> v)) = map_total f (m(k := None)) + f v"
    using assms(1) by (intro map_total_upd_new) auto
  moreover have "(m(k := None))(k \<mapsto> v) = m" using assms(2) by auto
  ultimately show ?thesis by simp
qed

lemma map_total_upd_old:
  assumes "finite (dom m)" and "m k = Some v"
  shows "map_total f (m(k \<mapsto> w)) + f v = map_total f m + f w"
proof -
  have "map_total f ((m(k := None))(k \<mapsto> w)) = map_total f (m(k := None)) + f w"
    using assms(1) by (intro map_total_upd_new) auto
  then show ?thesis using map_total_remove [OF assms, of f] by (simp add: ac_simps)
qed

lemma map_total_drop_absent [simp]: "m k = None \<Longrightarrow> map_total f (m(k := None)) = map_total f m"
  by (simp add: fun_upd_idem)

subsection \<open>Lists\<close>

lemma count_list_concat_replicate:
  "count_list (concat (map (\<lambda>x. replicate (g x) (h x)) xs)) y
     = sum_list (map (\<lambda>x. if h x = y then g x else 0) xs)"
proof (induction xs)
  case Nil
  then show ?case by simp
next
  case (Cons x xs)
  have "count_list (replicate n (h x)) y = (if h x = y then n else 0)" for n
    by (induction n) auto
  with Cons show ?case by auto
qed

subsection \<open>Lists\<close>

definition remove_nth :: "nat \<Rightarrow> 'a list \<Rightarrow> 'a list" where
  "remove_nth k xs = take k xs @ drop (Suc k) xs"

lemma map_remove_nth: "map f (remove_nth k xs) = remove_nth k (map f xs)"
  by (simp add: remove_nth_def take_map drop_map)

lemma map_update_same: "f y = f (xs ! k) \<Longrightarrow> map f (xs[k := y]) = map f xs"
  by (metis list_update_id map_update)

lemma bex_remove_nth:
  assumes "k < length xs"
  shows "(\<exists>x\<in>set xs. P x) \<longleftrightarrow> P (xs ! k) \<or> (\<exists>x\<in>set (remove_nth k xs). P x)"
  using arg_cong [OF id_take_nth_drop [OF assms], of set] by (auto simp: remove_nth_def)

lemma length_remove_nth: "k < length xs \<Longrightarrow> Suc (length (remove_nth k xs)) = length xs"
  by (simp add: remove_nth_def)

lemma mset_remove_nth: "mset (remove_nth k xs) \<subseteq># mset xs"
proof -
  have "mset xs = mset (take k xs) + mset (drop k xs)" by (metis append_take_drop_id mset_append)
  moreover have "mset (drop (Suc k) xs) \<subseteq># mset (drop k xs)"
    by (metis append_take_drop_id drop_drop mset_append mset_subset_eq_add_right plus_1_eq_Suc)
  ultimately show ?thesis by (simp add: remove_nth_def)
qed

subsection \<open>Texts\<close>

text \<open>
  A \<open>String\<close> is the list of its UTF-8 bytes. \<open>to_string\<close> of an unsigned integer, \<open>join\<close>, \<open>trim\<close>
  and \<open>chars().take(n)\<close> are those of Rust's standard library.
\<close>

fun show_nat :: "nat \<Rightarrow> string" where
  "show_nat n = (if n < 10 then [''0123456789'' ! n] else show_nat (n div 10) @ [''0123456789'' ! (n mod 10)])"

declare show_nat.simps [simp del]

fun str_join :: "string \<Rightarrow> string list \<Rightarrow> string" where
  "str_join sep [] = []"
| "str_join sep [x] = x"
| "str_join sep (x # y # ys) = x @ sep @ str_join sep (y # ys)"

text \<open>The characters with the Unicode property \<open>White_Space\<close>, encoded.\<close>

definition white_space :: "string list" where
  "white_space =
     [[CHR 0x09], [CHR 0x0A], [CHR 0x0B], [CHR 0x0C], [CHR 0x0D], [CHR 0x20],
      [CHR 0xC2, CHR 0x85], [CHR 0xC2, CHR 0xA0], [CHR 0xE1, CHR 0x9A, CHR 0x80]]
     @ map (\<lambda>c. [CHR 0xE2, CHR 0x80, c])
         [CHR 0x80, CHR 0x81, CHR 0x82, CHR 0x83, CHR 0x84, CHR 0x85, CHR 0x86, CHR 0x87, CHR 0x88,
          CHR 0x89, CHR 0x8A, CHR 0xA8, CHR 0xA9, CHR 0xAF]
     @ [[CHR 0xE2, CHR 0x81, CHR 0x9F], [CHR 0xE3, CHR 0x80, CHR 0x80]]"

definition leading :: "string list \<Rightarrow> string \<Rightarrow> string option" where
  "leading ws s = find (\<lambda>w. w \<noteq> [] \<and> take (length w) s = w) ws"

function strip_start :: "string list \<Rightarrow> string \<Rightarrow> string" where
  "strip_start ws s =
     (case leading ws s of None \<Rightarrow> s | Some w \<Rightarrow> strip_start ws (drop (length w) s))"
  by pat_completeness auto

termination strip_start
proof (relation "measure (length \<circ> snd)", simp)
  fix ws and s w :: string
  assume "leading ws s = Some w"
  then have "w \<noteq> [] \<and> take (length w) s = w" by (auto simp: leading_def find_Some_iff)
  then show "((ws, drop (length w) s), ws, s) \<in> measure (length \<circ> snd)"
    by (cases s) auto
qed

declare strip_start.simps [simp del]

definition trim :: "string \<Rightarrow> string" where
  "trim s = rev (strip_start (map rev white_space) (rev (strip_start white_space s)))"

definition continuation_byte :: "char \<Rightarrow> bool" where
  "continuation_byte c \<longleftrightarrow> 0x80 \<le> (of_char c :: nat) \<and> (of_char c :: nat) < 0xC0"

fun take_chars :: "nat \<Rightarrow> string \<Rightarrow> string" where
  "take_chars n [] = []"
| "take_chars n (c # cs) =
     (if continuation_byte c then c # take_chars n cs
      else case n of 0 \<Rightarrow> [] | Suc k \<Rightarrow> c # take_chars k cs)"

lemma take_chars_prefix: "\<exists>rest. s = take_chars n s @ rest"
  by (induction n s rule: take_chars.induct) (auto split: nat.split)

lemma take_chars_count: "length (filter (\<lambda>c. \<not> continuation_byte c) (take_chars n s)) \<le> n"
  by (induction n s rule: take_chars.induct) (auto split: nat.split)

end
