(* ===== verification/Kojin_Types.thy ===== *)
theory Kojin_Types
  imports Kojin_Prelude
begin

text \<open>
  The leaf types of \<open>kojin-core\<close>: the error type (\<open>error.rs\<close>), the task life cycle
  (\<open>state.rs\<close>), task identifiers (\<open>task_id.rs\<close>), retry backoff (\<open>backoff.rs\<close>), weighted
  queues (\<open>queue_weight.rs\<close>) and the typed context (\<open>context.rs\<close>).
\<close>

subsection \<open>Errors (error.rs)\<close>

text \<open>
  An error of \<open>serde_json\<close> is represented by the text it displays.
\<close>

datatype KojinError =
    Serialization string
  | Broker string
  | TaskNotFound string
  | TaskFailed string
  | Timeout Duration
  | Revoked string
  | ResultBackend string
  | QueueNotFound string
  | Codec string
  | ShutdownInProgress
  | Duplicate string
  | Other string

type_synonym 'a TaskResult = "KojinError + 'a"

fun error_display :: "(Duration \<Rightarrow> string) \<Rightarrow> KojinError \<Rightarrow> string" where
  "error_display debug (Serialization s) = ''serialization error: '' @ s"
| "error_display debug (Broker s) = ''broker error: '' @ s"
| "error_display debug (TaskNotFound s) = ''task not found: '' @ s"
| "error_display debug (TaskFailed s) = ''task failed: '' @ s"
| "error_display debug (Timeout d) = ''task timeout after '' @ debug d"
| "error_display debug (Revoked s) = ''task revoked: '' @ s"
| "error_display debug (ResultBackend s) = ''result backend error: '' @ s"
| "error_display debug (QueueNotFound s) = ''queue not found: '' @ s"
| "error_display debug (Codec s) = ''codec error: '' @ s"
| "error_display debug ShutdownInProgress = ''shutdown in progress''"
| "error_display debug (Duplicate s) = ''duplicate task: '' @ s"
| "error_display debug (Other s) = s"

text \<open>The smart constructors take anything displayable, here its text.\<close>

definition error_broker :: "string \<Rightarrow> KojinError" where
  "error_broker msg = Broker msg"

definition error_task_failed :: "string \<Rightarrow> KojinError" where
  "error_task_failed msg = TaskFailed msg"

definition error_result_backend :: "string \<Rightarrow> KojinError" where
  "error_result_backend msg = ResultBackend msg"

text \<open>
  The operator \<open>?\<close> on a call that acts on a state: an error returns at once, with what the
  call did to the state. \<open>map_err\<close> converts the error of an outside call, \<open>pure_call\<close> is a
  conversion that touches no state.
\<close>

definition try_then :: "('s \<Rightarrow> ('e + 'a) \<times> 's) \<Rightarrow> ('a \<Rightarrow> 's \<Rightarrow> ('e + 'b) \<times> 's) \<Rightarrow> 's \<Rightarrow> ('e + 'b) \<times> 's"
where
  "try_then f k s = (case f s of (Inl e, s') \<Rightarrow> (Inl e, s') | (Inr a, s') \<Rightarrow> k a s')"

definition map_err :: "('e \<Rightarrow> 'f) \<Rightarrow> ('s \<Rightarrow> ('e + 'a) \<times> 's) \<Rightarrow> 's \<Rightarrow> ('f + 'a) \<times> 's" where
  "map_err h f s = (case f s of (Inl e, s') \<Rightarrow> (Inl (h e), s') | (Inr a, s') \<Rightarrow> (Inr a, s'))"

definition pure_call :: "('e \<Rightarrow> 'f) \<Rightarrow> 'e + 'a \<Rightarrow> 's \<Rightarrow> ('f + 'a) \<times> 's" where
  "pure_call h r s = ((case r of Inl e \<Rightarrow> Inl (h e) | Inr a \<Rightarrow> Inr a), s)"

lemma try_then_Inr: "fst (f s) = Inr a \<Longrightarrow> try_then f k s = k a (snd (f s))"
  by (cases "f s") (simp add: try_then_def)

lemma try_then_Inl: "fst (f s) = Inl e \<Longrightarrow> try_then f k s = (Inl e, snd (f s))"
  by (cases "f s") (simp add: try_then_def)

lemma map_err_Inr: "fst (f s) = Inr a \<Longrightarrow> map_err h f s = (Inr a, snd (f s))"
  by (cases "f s") (simp add: map_err_def)

lemma map_err_Inl: "fst (f s) = Inl e \<Longrightarrow> map_err h f s = (Inl (h e), snd (f s))"
  by (cases "f s") (simp add: map_err_def)

lemma snd_map_err: "snd (map_err h f s) = snd (f s)"
  by (simp add: map_err_def split: prod.split sum.split)

lemma pure_call_simps [simp]:
  "pure_call h (Inr a) s = (Inr a, s)" "pure_call h (Inl e) s = (Inl (h e), s)"
  by (simp_all add: pure_call_def)

lemmas call_simps = try_then_Inr try_then_Inl map_err_Inr map_err_Inl

subsection \<open>Task life cycle (state.rs)\<close>

datatype TaskState =
    Pending | Received | Started | Success | Failure | Retry | StateRevoked | DeadLettered

fun is_terminal :: "TaskState \<Rightarrow> bool" where
  "is_terminal Success = True"
| "is_terminal Failure = True"
| "is_terminal StateRevoked = True"
| "is_terminal DeadLettered = True"
| "is_terminal _ = False"

fun is_active :: "TaskState \<Rightarrow> bool" where
  "is_active Pending = True"
| "is_active Received = True"
| "is_active Started = True"
| "is_active Retry = True"
| "is_active _ = False"

fun state_display :: "TaskState \<Rightarrow> string" where
  "state_display Pending = ''pending''"
| "state_display Received = ''received''"
| "state_display Started = ''started''"
| "state_display Success = ''success''"
| "state_display Failure = ''failure''"
| "state_display Retry = ''retry''"
| "state_display StateRevoked = ''revoked''"
| "state_display DeadLettered = ''dead_lettered''"

lemma terminal_iff_not_active: "is_terminal s \<longleftrightarrow> \<not> is_active s"
  by (cases s) simp_all

lemma state_display_inject: "state_display s = state_display t \<longleftrightarrow> s = t"
  by (cases s; cases t) simp_all

subsection \<open>Task identifiers (task_id.rs)\<close>

text \<open>
  A task identifier wraps a 128-bit UUID and inherits its order. \<open>Uuid::now_v7\<close> is a
  parameter of every operation that draws an identifier; the UUID it returned is passed in.
\<close>

datatype TaskId = TaskId (as_uuid: uuid)

definition taskid_from_uuid :: "uuid \<Rightarrow> TaskId" where
  "taskid_from_uuid u = TaskId u"

definition taskid_new :: "uuid \<Rightarrow> TaskId" where
  "taskid_new now_v7 = TaskId now_v7"

definition taskid_display :: "(uuid \<Rightarrow> string) \<Rightarrow> TaskId \<Rightarrow> string" where
  "taskid_display uuid_fmt i = uuid_fmt (as_uuid i)"

instantiation TaskId :: linorder
begin

definition less_eq_TaskId :: "TaskId \<Rightarrow> TaskId \<Rightarrow> bool" where
  "less_eq_TaskId a b \<longleftrightarrow> as_uuid a \<le> as_uuid b"

definition less_TaskId :: "TaskId \<Rightarrow> TaskId \<Rightarrow> bool" where
  "less_TaskId a b \<longleftrightarrow> as_uuid a < as_uuid b"

instance
  by standard (auto simp: less_eq_TaskId_def less_TaskId_def TaskId.expand)

end

lemma taskid_display_inject:
  "inj uuid_fmt \<Longrightarrow> taskid_display uuid_fmt a = taskid_display uuid_fmt b \<longleftrightarrow> a = b"
  by (auto simp: taskid_display_def TaskId.expand dest: injD)

subsection \<open>Retry backoff (backoff.rs)\<close>

datatype BackoffStrategy =
    Fixed (delay_secs: u64)
  | Exponential (base_secs: u64) (max_secs: u64)

fun delay_for :: "BackoffStrategy \<Rightarrow> u32 \<Rightarrow> Duration" where
  "delay_for (Fixed d) retry = duration_from_secs d"
| "delay_for (Exponential base mx) retry =
     (let exp = (case checked_shl_u64 1 retry of None \<Rightarrow> - 1 | Some e \<Rightarrow> e);
          delay = saturating_mul_u64 base exp
      in duration_from_secs (min delay mx))"

definition backoff_default :: BackoffStrategy where
  "backoff_default = Exponential 1 300"

text \<open>The strategy over unbounded integers: \<open>base * 2 ^ retry\<close>, capped.\<close>

definition exponential_spec :: "nat \<Rightarrow> nat \<Rightarrow> nat \<Rightarrow> nat" where
  "exponential_spec base mx retry = min (base * 2 ^ retry) mx"

lemma shl_factor:
  "unat (case checked_shl_u64 1 retry of None \<Rightarrow> - 1 | Some e \<Rightarrow> e)
     = (if unat retry < 64 then 2 ^ unat retry else 2 ^ 64 - 1)"
  using unat_push_bit_one_u64 [of "unat retry"]
  by (simp add: checked_shl_u64_def unat_max_u64 del: push_bit_of_1)

lemma saturated_product:
  fixes b m e f r :: nat
  assumes "m \<le> 2 ^ 64 - 1" and "e = (if r < 64 then 2 ^ r else 2 ^ 64 - 1)"
  shows "min (min (b * e) (2 ^ 64 - 1)) m = min (b * 2 ^ r) m"
proof (cases "r < 64 \<or> b = 0")
  case True
  with assms show ?thesis by auto
next
  case False
  then have "(2 ^ 64 :: nat) \<le> 2 ^ r" by (intro power_increasing) auto
  with False have "2 ^ 64 \<le> b * 2 ^ r"
    using mult_le_mono [of 1 b "2 ^ 64" "2 ^ r"] by simp
  moreover from False assms have "2 ^ 64 - 1 \<le> b * e" by simp
  ultimately show ?thesis using assms(1) by simp
qed

lemma delay_for_exponential:
  "delay_for (Exponential base mx) retry
     = exponential_spec (unat base) (unat mx) (unat retry) * nanos_per_sec"
proof -
  have "unat mx \<le> 2 ^ 64 - 1" by (rule unat_u64_le)
  note eq = saturated_product [OF this refl, of "unat base" "unat retry"]
  show ?thesis
    by (simp only: delay_for.simps Let_def duration_from_secs_def exponential_spec_def
        unat_min_word unat_saturating_mul_u64 shl_factor eq)
qed

lemma delay_for_default:
  "delay_for backoff_default retry = exponential_spec 1 300 (unat retry) * nanos_per_sec"
  unfolding backoff_default_def delay_for_exponential by simp

lemma exponential_spec_mono: "r \<le> s \<Longrightarrow> exponential_spec b m r \<le> exponential_spec b m s"
  unfolding exponential_spec_def
  by (intro min.mono mult_le_mono2 power_increasing) auto

subsection \<open>Weighted queues (queue_weight.rs)\<close>

datatype QueueWeight = High | Medium | Low

fun weight :: "QueueWeight \<Rightarrow> u32" where
  "weight High = 6"
| "weight Medium = 3"
| "weight Low = 1"

record WeightedQueue =
  wq_name :: string
  wq_weight :: QueueWeight

definition weighted_queue_new :: "string \<Rightarrow> QueueWeight \<Rightarrow> WeightedQueue" where
  "weighted_queue_new name w = \<lparr>wq_name = name, wq_weight = w\<rparr>"

text \<open>The inner loop pushes the name \<open>weight\<close> times, the outer one runs over the queues.\<close>

fun push_times :: "nat \<Rightarrow> string \<Rightarrow> string list \<Rightarrow> string list" where
  "push_times 0 name order = order"
| "push_times (Suc n) name order = push_times n name (order @ [name])"

fun weighted_loop :: "WeightedQueue list \<Rightarrow> string list \<Rightarrow> string list" where
  "weighted_loop [] order = order"
| "weighted_loop (wq # wqs) order =
     weighted_loop wqs (push_times (unat (weight (wq_weight wq))) (wq_name wq) order)"

definition build_weighted_order :: "WeightedQueue list \<Rightarrow> string list" where
  "build_weighted_order queues = weighted_loop queues []"

lemma push_times_eq: "push_times n name order = order @ replicate n name"
  by (induction n arbitrary: order) (simp_all add: replicate_append_same)

lemma weighted_loop_eq:
  "weighted_loop wqs order =
     order @ concat (map (\<lambda>wq. replicate (unat (weight (wq_weight wq))) (wq_name wq)) wqs)"
  by (induction wqs arbitrary: order) (simp_all add: push_times_eq)

lemma build_weighted_order_eq:
  "build_weighted_order wqs =
     concat (map (\<lambda>wq. replicate (unat (weight (wq_weight wq))) (wq_name wq)) wqs)"
  by (simp add: build_weighted_order_def weighted_loop_eq)

lemma weight_pos: "0 < unat (weight w)"
  by (cases w) simp_all

lemma set_build_weighted_order: "set (build_weighted_order wqs) = wq_name ` set wqs"
  using weight_pos by (auto simp: build_weighted_order_eq set_replicate_conv_if)

subsection \<open>The task context (context.rs)\<close>

text \<open>
  The context maps a type identifier to a value of that type. A value is boxed with the
  identifier of its own type, which is what \<open>downcast_ref\<close> compares.
\<close>

record ('k, 'a) boxed_any =
  any_type :: 'k
  any_value :: 'a

record ('k, 'a) TaskContext =
  ctx_data :: "'k \<rightharpoonup> ('k, 'a) boxed_any"

definition context_new :: "('k, 'a) TaskContext" where
  "context_new = \<lparr>ctx_data = Map.empty\<rparr>"

definition context_insert :: "'k \<Rightarrow> 'a \<Rightarrow> ('k, 'a) TaskContext \<Rightarrow> ('k, 'a) TaskContext" where
  "context_insert t v c = c\<lparr>ctx_data := (ctx_data c)(t \<mapsto> \<lparr>any_type = t, any_value = v\<rparr>)\<rparr>"

definition downcast_ref :: "'k \<Rightarrow> ('k, 'a) boxed_any \<Rightarrow> 'a option" where
  "downcast_ref t b = (if any_type b = t then Some (any_value b) else None)"

definition context_data :: "'k \<Rightarrow> ('k, 'a) TaskContext \<Rightarrow> 'a option" where
  "context_data t c = Option.bind (ctx_data c t) (downcast_ref t)"

definition context_contains :: "'k \<Rightarrow> ('k, 'a) TaskContext \<Rightarrow> bool" where
  "context_contains t c \<longleftrightarrow> ctx_data c t \<noteq> None"

definition context_typed :: "('k, 'a) TaskContext \<Rightarrow> bool" where
  "context_typed c \<longleftrightarrow> (\<forall>t b. ctx_data c t = Some b \<longrightarrow> any_type b = t)"

lemma context_typed_new: "context_typed context_new"
  by (simp add: context_typed_def context_new_def)

lemma context_typed_insert: "context_typed c \<Longrightarrow> context_typed (context_insert t v c)"
  by (simp add: context_typed_def context_insert_def)

lemma context_data_insert:
  "context_data t (context_insert u v c) = (if t = u then Some v else context_data t c)"
  by (simp add: context_data_def context_insert_def downcast_ref_def)

lemma context_contains_iff_data:
  "context_typed c \<Longrightarrow> context_contains t c \<longleftrightarrow> context_data t c \<noteq> None"
  by (cases "ctx_data c t")
     (auto simp: context_contains_def context_data_def context_typed_def downcast_ref_def)

subsection \<open>Properties\<close>

text \<open>C21: the exponential backoff is \<open>base * 2 ^ retry\<close> seconds capped at the maximum, over unbounded
  integers, for every base, maximum and retry count of the machine types: neither the shift
  nor the multiplication of the code overflows into a shorter delay. The delay grows with the
  retry count and never exceeds the maximum.\<close>

theorem exponential_backoff_exact:
  "delay_for (Exponential base mx) retry
     = min (unat base * 2 ^ unat retry) (unat mx) * nanos_per_sec \<and>
   delay_for (Exponential base mx) retry \<le> duration_from_secs mx \<and>
   (retry \<le> retry' \<longrightarrow> delay_for (Exponential base mx) retry \<le> delay_for (Exponential base mx) retry')"
proof -
  have "exponential_spec (unat base) (unat mx) (unat retry)
      \<le> exponential_spec (unat base) (unat mx) (unat retry')" if "retry \<le> retry'"
    using that by (intro exponential_spec_mono) (simp add: word_le_nat_alt)
  then show ?thesis
    unfolding delay_for_exponential
    by (simp add: exponential_spec_def duration_from_secs_def)
qed

theorem exponential_backoff_exact_witness:
  "delay_for (Exponential 1 300) 3 \<le> delay_for (Exponential 1 300) 70"
  using exponential_backoff_exact [of 1 300 3 70] by simp

text \<open>The weighted order repeats each queue name as often as its weights say (6, 3 or 1 for each
  entry of that name), and contains only configured names.\<close>

lemma weighted_order_counts:
  "count_list (build_weighted_order wqs) q
     = sum_list (map (\<lambda>w. if wq_name w = q then unat (weight (wq_weight w)) else 0) wqs) \<and>
   set (build_weighted_order wqs) = wq_name ` set wqs"
  unfolding set_build_weighted_order
  by (simp add: build_weighted_order_eq count_list_concat_replicate)

end
