(* ===== verification/Kojin_Message.thy ===== *)
theory Kojin_Message
  imports Kojin_Types
begin

text \<open>
  Task messages (\<open>message.rs\<close>) and signatures (\<open>signature.rs\<close>).

  A JSON value (\<open>serde_json::Value\<close>) is an element of the type parameter \<open>'v\<close>. A message
  holds another message in its \<open>chord_callback\<close>; the other fields form the record
  \<open>task_fields\<close> and the message is the datatype around it. Operations that draw a UUID or
  read the clock take both as arguments.
\<close>

subsection \<open>TaskMessage (message.rs)\<close>

record 'v task_fields =
  task_id :: TaskId
  task_name :: string
  queue :: string
  payload :: 'v
  state :: TaskState
  retries :: u32
  max_retries :: u32
  created_at :: DateTime
  updated_at :: DateTime
  eta :: "DateTime option"
  headers :: "string \<rightharpoonup> string"
  parent_id :: "TaskId option"
  correlation_id :: "string option"
  group_id :: "string option"
  group_total :: "u32 option"
  priority :: "u8 option"
  dedup_key :: "string option"

datatype (dead 'v) TaskMessage =
  TaskMessage (mfields: "'v task_fields") (chord_callback: "'v TaskMessage option")

abbreviation msg_id :: "'v TaskMessage \<Rightarrow> TaskId" where
  "msg_id m \<equiv> task_id (mfields m)"

abbreviation msg_queue :: "'v TaskMessage \<Rightarrow> string" where
  "msg_queue m \<equiv> queue (mfields m)"

text \<open>Assignment to fields of a message.\<close>

definition update_fields ::
  "('v task_fields \<Rightarrow> 'v task_fields) \<Rightarrow> 'v TaskMessage \<Rightarrow> 'v TaskMessage" where
  "update_fields f m = TaskMessage (f (mfields m)) (chord_callback m)"

lemma mfields_update [simp]: "mfields (update_fields f m) = f (mfields m)"
  by (simp add: update_fields_def)

lemma chord_callback_update [simp]: "chord_callback (update_fields f m) = chord_callback m"
  by (simp add: update_fields_def)

definition message_new :: "uuid \<Rightarrow> DateTime \<Rightarrow> string \<Rightarrow> string \<Rightarrow> 'v \<Rightarrow> 'v TaskMessage" where
  "message_new now_v7 now name q p =
     TaskMessage
       \<lparr>task_id = taskid_new now_v7, task_name = name, queue = q, payload = p,
        state = Pending, retries = 0, max_retries = 3,
        created_at = now, updated_at = now, eta = None, headers = Map.empty,
        parent_id = None, correlation_id = None, group_id = None, group_total = None,
        priority = None, dedup_key = None\<rparr>
       None"

definition with_max_retries :: "u32 \<Rightarrow> 'v TaskMessage \<Rightarrow> 'v TaskMessage" where
  "with_max_retries n = update_fields (\<lambda>f. f\<lparr>max_retries := n\<rparr>)"

definition with_eta :: "DateTime \<Rightarrow> 'v TaskMessage \<Rightarrow> 'v TaskMessage" where
  "with_eta t = update_fields (\<lambda>f. f\<lparr>eta := Some t\<rparr>)"

definition with_header :: "string \<Rightarrow> string \<Rightarrow> 'v TaskMessage \<Rightarrow> 'v TaskMessage" where
  "with_header k v = update_fields (\<lambda>f. f\<lparr>headers := (headers f)(k \<mapsto> v)\<rparr>)"

definition with_parent_id :: "TaskId \<Rightarrow> 'v TaskMessage \<Rightarrow> 'v TaskMessage" where
  "with_parent_id p = update_fields (\<lambda>f. f\<lparr>parent_id := Some p\<rparr>)"

definition with_correlation_id :: "string \<Rightarrow> 'v TaskMessage \<Rightarrow> 'v TaskMessage" where
  "with_correlation_id c = update_fields (\<lambda>f. f\<lparr>correlation_id := Some c\<rparr>)"

definition with_group :: "string \<Rightarrow> u32 \<Rightarrow> 'v TaskMessage \<Rightarrow> 'v TaskMessage" where
  "with_group g n = update_fields (\<lambda>f. f\<lparr>group_id := Some g, group_total := Some n\<rparr>)"

definition with_chord_callback :: "'v TaskMessage \<Rightarrow> 'v TaskMessage \<Rightarrow> 'v TaskMessage" where
  "with_chord_callback cb m = TaskMessage (mfields m) (Some cb)"

definition with_priority :: "u8 \<Rightarrow> 'v TaskMessage \<Rightarrow> 'v TaskMessage" where
  "with_priority p = update_fields (\<lambda>f. f\<lparr>priority := Some (min p 9)\<rparr>)"

definition with_dedup_key :: "string \<Rightarrow> 'v TaskMessage \<Rightarrow> 'v TaskMessage" where
  "with_dedup_key k = update_fields (\<lambda>f. f\<lparr>dedup_key := Some k\<rparr>)"

lemmas message_defs =
  message_new_def with_max_retries_def with_eta_def with_header_def with_parent_id_def
  with_correlation_id_def with_group_def with_chord_callback_def with_priority_def
  with_dedup_key_def

declare message_defs [message_simps]

subsection \<open>Content hashing\<close>

text \<open>\<open>fnv1a_64\<close>: xor the byte in, multiply by the FNV prime, wrapping at 64 bits.\<close>

abbreviation fnv_offset :: u64 where
  "fnv_offset \<equiv> 0xcbf29ce484222325"

abbreviation fnv_prime :: u64 where
  "fnv_prime \<equiv> 0x100000001b3"

definition fnv_step :: "u64 \<Rightarrow> u8 \<Rightarrow> u64" where
  "fnv_step hash byte = (hash XOR ucast byte) * fnv_prime"

fun fnv_loop :: "u64 \<Rightarrow> u8 list \<Rightarrow> u64" where
  "fnv_loop hash [] = hash"
| "fnv_loop hash (byte # data) = fnv_loop (fnv_step hash byte) data"

definition fnv1a_64 :: "u8 list \<Rightarrow> u64" where
  "fnv1a_64 data = fnv_loop fnv_offset data"

definition as_bytes :: "string \<Rightarrow> u8 list" where
  "as_bytes s = map of_char s"

text \<open>Rust's \<open>{:x}\<close>: lower-case hexadecimal digits without leading zeros.\<close>

definition hex_digit :: "nat \<Rightarrow> char" where
  "hex_digit d = ''0123456789abcdef'' ! d"

fun to_hex :: "nat \<Rightarrow> string" where
  "to_hex n = (if n < 16 then [hex_digit n] else to_hex (n div 16) @ [hex_digit (n mod 16)])"

declare to_hex.simps [simp del]

definition content_key :: "('v \<Rightarrow> string) \<Rightarrow> string \<Rightarrow> 'v \<Rightarrow> string" where
  "content_key value_display name p =
     ''content:'' @ to_hex (unat (fnv1a_64 (as_bytes (name @ '':'' @ value_display p))))"

definition with_content_dedup :: "('v \<Rightarrow> string) \<Rightarrow> 'v TaskMessage \<Rightarrow> 'v TaskMessage" where
  "with_content_dedup value_display m =
     update_fields (\<lambda>f. f\<lparr>dedup_key :=
       Some (content_key value_display (task_name f) (payload f))\<rparr>) m"

declare with_content_dedup_def [message_simps]

subsubsection \<open>The hash distinguishes inputs that differ in one byte\<close>

lemma fnv_prime_inverse: "x * fnv_prime * 0xce965057aff6957b = (x :: u64)"
proof -
  have "fnv_prime * 0xce965057aff6957b = (1 :: u64)" by simp
  then show ?thesis by (simp only: mult.assoc mult_1_right)
qed

lemma mult_fnv_prime_inject: "a * fnv_prime = b * fnv_prime \<longleftrightarrow> a = (b :: u64)"
  by (metis fnv_prime_inverse)

lemma xor_cancel_left: "(a XOR b = a XOR c) = (b = (c :: u64))"
proof
  assume "a XOR b = a XOR c"
  then have "(a XOR a) XOR b = (a XOR a) XOR c" by (simp only: xor.assoc)
  then show "b = c" by simp
qed simp

lemma ucast_u8_inject: "(ucast a :: u64) = ucast b \<longleftrightarrow> a = (b :: u8)"
proof
  assume "(ucast a :: u64) = ucast b"
  then have "(ucast (ucast a :: u64) :: u8) = ucast (ucast b :: u64)" by simp
  then show "a = b" by (simp add: unsigned_ucast_eq take_bit_word_eq_self)
qed simp

lemma fnv_step_inject_byte: "fnv_step h a = fnv_step h b \<longleftrightarrow> a = b"
  by (simp add: fnv_step_def mult_fnv_prime_inject xor_cancel_left ucast_u8_inject)

lemma fnv_step_inject_hash: "fnv_step g a = fnv_step h a \<longleftrightarrow> g = h"
  by (simp only: fnv_step_def mult_fnv_prime_inject xor.commute [of _ "ucast a"] xor_cancel_left)

lemma fnv_loop_append: "fnv_loop h (xs @ ys) = fnv_loop (fnv_loop h xs) ys"
  by (induction xs arbitrary: h) simp_all

lemma fnv_loop_inject: "fnv_loop g xs = fnv_loop h xs \<longleftrightarrow> g = h"
  by (induction xs arbitrary: g h) (simp_all add: fnv_step_inject_hash)

subsubsection \<open>Hexadecimal text is injective\<close>

lemma hex_digit_inject: "d < 16 \<Longrightarrow> e < 16 \<Longrightarrow> hex_digit d = hex_digit e \<longleftrightarrow> d = e"
  unfolding hex_digit_def by (rule nth_eq_iff_index_eq) simp_all

lemma to_hex_nonempty: "to_hex n \<noteq> []"
  by (subst to_hex.simps) simp

lemma length_to_hex_small: "length (to_hex n) = 1 \<longleftrightarrow> n < 16"
  using to_hex_nonempty [of "n div 16"] by (subst to_hex.simps) simp

lemma to_hex_inject: "to_hex m = to_hex n \<longleftrightarrow> m = n"
proof (induction m arbitrary: n rule: to_hex.induct)
  case (1 m)
  show ?case
  proof (cases "m < 16 \<or> n < 16")
    case True
    with length_to_hex_small [of m] length_to_hex_small [of n] hex_digit_inject [of m n]
    show ?thesis by (auto simp: to_hex.simps [of m] to_hex.simps [of n])
  next
    case False
    with "1.IH" [of "n div 16"] hex_digit_inject [of "m mod 16" "n mod 16"]
    have "to_hex m = to_hex n \<longleftrightarrow> m div 16 = n div 16 \<and> m mod 16 = n mod 16"
      by (simp add: to_hex.simps [of m] to_hex.simps [of n])
    then show ?thesis by (metis div_mult_mod_eq)
  qed
qed

subsection \<open>Signature (signature.rs)\<close>

record 'v Signature =
  sig_task_name :: string
  sig_queue :: string
  sig_payload :: 'v
  sig_max_retries :: u32
  sig_eta :: "DateTime option"
  sig_headers :: "string \<rightharpoonup> string"
  sig_priority :: "u8 option"
  sig_dedup_key :: "string option"

definition signature_new :: "string \<Rightarrow> string \<Rightarrow> 'v \<Rightarrow> 'v Signature" where
  "signature_new name q p =
     \<lparr>sig_task_name = name, sig_queue = q, sig_payload = p, sig_max_retries = 3,
      sig_eta = None, sig_headers = Map.empty, sig_priority = None, sig_dedup_key = None\<rparr>"

definition sig_with_max_retries :: "u32 \<Rightarrow> 'v Signature \<Rightarrow> 'v Signature" where
  "sig_with_max_retries n s = s\<lparr>sig_max_retries := n\<rparr>"

definition sig_with_eta :: "DateTime \<Rightarrow> 'v Signature \<Rightarrow> 'v Signature" where
  "sig_with_eta t s = s\<lparr>sig_eta := Some t\<rparr>"

definition sig_with_header :: "string \<Rightarrow> string \<Rightarrow> 'v Signature \<Rightarrow> 'v Signature" where
  "sig_with_header k v s = s\<lparr>sig_headers := (sig_headers s)(k \<mapsto> v)\<rparr>"

definition sig_with_priority :: "u8 \<Rightarrow> 'v Signature \<Rightarrow> 'v Signature" where
  "sig_with_priority p s = s\<lparr>sig_priority := Some (min p 9)\<rparr>"

definition sig_with_dedup_key :: "string \<Rightarrow> 'v Signature \<Rightarrow> 'v Signature" where
  "sig_with_dedup_key k s = s\<lparr>sig_dedup_key := Some k\<rparr>"

definition into_message :: "uuid \<Rightarrow> DateTime \<Rightarrow> 'v Signature \<Rightarrow> 'v TaskMessage" where
  "into_message now_v7 now s =
     update_fields
       (\<lambda>f. f\<lparr>eta := sig_eta s, headers := sig_headers s, priority := sig_priority s,
              dedup_key := sig_dedup_key s\<rparr>)
       (with_max_retries (sig_max_retries s)
         (message_new now_v7 now (sig_task_name s) (sig_queue s) (sig_payload s)))"

text \<open>What a message says about the task to run, the inverse view of \<open>into_message\<close>.\<close>

definition signature_of :: "'v TaskMessage \<Rightarrow> 'v Signature" where
  "signature_of m =
     \<lparr>sig_task_name = task_name (mfields m), sig_queue = queue (mfields m),
      sig_payload = payload (mfields m), sig_max_retries = max_retries (mfields m),
      sig_eta = eta (mfields m), sig_headers = headers (mfields m),
      sig_priority = priority (mfields m), sig_dedup_key = dedup_key (mfields m)\<rparr>"

lemma signature_of_sel [simp]:
  "sig_task_name (signature_of m) = task_name (mfields m)"
  "sig_payload (signature_of m) = payload (mfields m)"
  by (simp_all add: signature_of_def)

lemma into_message_fields [message_simps]:
  "mfields (into_message u t s) =
     \<lparr>task_id = TaskId u, task_name = sig_task_name s, queue = sig_queue s,
      payload = sig_payload s, state = Pending, retries = 0, max_retries = sig_max_retries s,
      created_at = t, updated_at = t, eta = sig_eta s, headers = sig_headers s,
      parent_id = None, correlation_id = None, group_id = None, group_total = None,
      priority = sig_priority s, dedup_key = sig_dedup_key s\<rparr>"
  by (simp add: into_message_def message_new_def with_max_retries_def taskid_new_def)

lemma into_message_callback [message_simps]: "chord_callback (into_message u t s) = None"
  by (simp add: into_message_def message_new_def with_max_retries_def)

text \<open>
  The priorities a message can carry through the builders: absent or at most 9.
\<close>

definition priority_ok :: "u8 option \<Rightarrow> bool" where
  "priority_ok p \<longleftrightarrow> (case p of None \<Rightarrow> True | Some n \<Rightarrow> n \<le> 9)"

lemma of_char_u8_inject: "(of_char a :: u8) = of_char b \<longleftrightarrow> a = b"
proof
  assume "(of_char a :: u8) = of_char b"
  then have "(of_nat (of_char a) :: u8) = of_nat (of_char b)" by (simp only: of_nat_of_char)
  then have "unat (of_nat (of_char a) :: u8) = unat (of_nat (of_char b) :: u8)" by simp
  then have "(of_char a :: nat) mod 256 = of_char b mod 256" by (simp only: unat_of_nat) simp
  then have "(of_char a :: nat) = of_char b" by simp
  then show "a = b" by simp
qed simp

subsection \<open>Messages of one task\<close>

text \<open>What stays the same while a task is retried.\<close>

definition same_task :: "'v TaskMessage \<Rightarrow> 'v TaskMessage \<Rightarrow> bool" where
  "same_task m n \<longleftrightarrow>
     msg_id n = msg_id m \<and> msg_queue n = msg_queue m \<and>
     task_name (mfields n) = task_name (mfields m) \<and> payload (mfields n) = payload (mfields m) \<and>
     max_retries (mfields n) = max_retries (mfields m) \<and> eta (mfields n) = eta (mfields m) \<and>
     headers (mfields n) = headers (mfields m) \<and> dedup_key (mfields n) = dedup_key (mfields m) \<and>
     group_id (mfields n) = group_id (mfields m) \<and> group_total (mfields n) = group_total (mfields m) \<and>
     correlation_id (mfields n) = correlation_id (mfields m) \<and>
     created_at (mfields n) = created_at (mfields m) \<and> parent_id (mfields n) = parent_id (mfields m) \<and>
     priority (mfields n) = priority (mfields m) \<and> chord_callback n = chord_callback m"

lemma same_task_refl [simp]: "same_task m m"
  by (simp add: same_task_def)

lemma same_task_trans: "same_task a b \<Longrightarrow> same_task b c \<Longrightarrow> same_task a c"
  by (simp add: same_task_def)

text \<open>Messages of one task differ in their state, their retry count and their last change only.\<close>

lemma same_task_update:
  "same_task m n \<Longrightarrow> n = update_fields (\<lambda>f. f\<lparr>state := state (mfields n), retries := retries (mfields n),
     updated_at := updated_at (mfields n)\<rparr>) m"
  by (simp add: same_task_def update_fields_def TaskMessage.expand)

subsection \<open>Properties\<close>

text \<open>Two inputs that differ in exactly one byte have different FNV-1a hashes: each step of the
  hash is a bijection of the 64-bit words for a fixed byte, and injective in the byte.\<close>

lemma fnv_separates_one_byte:
  assumes "a \<noteq> b"
  shows "fnv1a_64 (xs @ a # ys) \<noteq> fnv1a_64 (xs @ b # ys)"
  using assms by (simp add: fnv1a_64_def fnv_loop_append fnv_loop_inject fnv_step_inject_byte)

lemma fnv_separates_one_byte_example: "fnv1a_64 [1, 2, 3] \<noteq> fnv1a_64 [1, 7, 3]"
  using fnv_separates_one_byte [of 2 7 "[1]" "[3]"] by simp

text \<open>The content deduplication key separates two tasks of the same name whenever their payloads
  print as texts that differ in one byte: the key is injective in
  the hash, and the hash separates such inputs.\<close>

lemma content_key_separates:
  assumes "value_display p = xs @ a # ys" and "value_display q = xs @ b # ys" and "a \<noteq> b"
  shows "content_key value_display name p \<noteq> content_key value_display name q"
proof -
  have "(of_char a :: u8) \<noteq> of_char b" using assms(3) by (simp add: of_char_u8_inject)
  then have "fnv1a_64 (as_bytes (name @ '':'' @ xs) @ of_char a # as_bytes ys) \<noteq>
      fnv1a_64 (as_bytes (name @ '':'' @ xs) @ of_char b # as_bytes ys)"
    by (simp add: fnv1a_64_def fnv_loop_append fnv_loop_inject fnv_step_inject_byte)
  then have "unat (fnv1a_64 (as_bytes (name @ '':'' @ value_display p))) \<noteq>
      unat (fnv1a_64 (as_bytes (name @ '':'' @ value_display q)))"
    using assms(1,2) by (auto simp: as_bytes_def dest: unsigned_word_eqI)
  then show ?thesis by (simp add: content_key_def to_hex_inject)
qed

lemma content_key_separates_example:
  "content_key (\<lambda>s. s) ''mail'' ''u1'' \<noteq> content_key (\<lambda>s. s) ''mail'' ''u2''"
  using content_key_separates [of "\<lambda>s. s" "''u1''" "''u''" "CHR ''1''" "[]" "''u2''" "CHR ''2''" "''mail''"]
  by simp

text \<open>A message made from a signature says about the task exactly what the signature says, whatever
  the UUID and the time; it is pending, has not been retried and belongs to no workflow, and
  a priority set through the builders is at most 9.\<close>

lemma into_message_faithful:
  "signature_of (into_message u t (sig_with_priority p sig)) = sig_with_priority p sig \<and>
   state (mfields (into_message u t sig)) = Pending \<and> retries (mfields (into_message u t sig)) = 0 \<and>
   group_id (mfields (into_message u t sig)) = None \<and> chord_callback (into_message u t sig) = None \<and>
   priority_ok (priority (mfields (into_message u t (sig_with_priority p sig))))"
  by (simp add: signature_of_def into_message_fields into_message_callback priority_ok_def
      sig_with_priority_def)

end
