(* ===== verification/Kojin_Broker.thy ===== *)
theory Kojin_Broker
  imports Kojin_Message
begin

text \<open>
  The broker interface (\<open>broker.rs\<close>). The trait is a record of operations over a broker
  state \<open>'s\<close>, so that code generic in \<open>B: Broker\<close> is a function of such a record. What the
  worker relies on is the abstract broker below: queues, messages in processing, dead
  letters; the locale \<open>task_broker\<close> says that the operations implement it.
\<close>

subsection \<open>The trait\<close>

record ('s, 'v) Broker =
  b_enqueue :: "'v TaskMessage \<Rightarrow> 's \<Rightarrow> unit TaskResult \<times> 's"
  b_dequeue :: "string list \<Rightarrow> Duration \<Rightarrow> 's \<Rightarrow> 'v TaskMessage option TaskResult \<times> 's"
  b_ack :: "TaskId \<Rightarrow> 's \<Rightarrow> unit TaskResult \<times> 's"
  b_nack :: "'v TaskMessage \<Rightarrow> 's \<Rightarrow> unit TaskResult \<times> 's"
  b_dead_letter :: "'v TaskMessage \<Rightarrow> 's \<Rightarrow> unit TaskResult \<times> 's"
  b_schedule :: "'v TaskMessage \<Rightarrow> DateTime \<Rightarrow> 's \<Rightarrow> unit TaskResult \<times> 's"
  b_queue_len :: "string \<Rightarrow> 's \<Rightarrow> nat TaskResult \<times> 's"
  b_dlq_len :: "string \<Rightarrow> 's \<Rightarrow> nat TaskResult \<times> 's"
  b_list_queues :: "'s \<Rightarrow> string list TaskResult \<times> 's"
  b_dlq_messages :: "string \<Rightarrow> usize \<Rightarrow> usize \<Rightarrow> 's \<Rightarrow> 'v TaskMessage list TaskResult \<times> 's"

text \<open>The provided methods of the trait.\<close>

definition default_dlq_len :: "string \<Rightarrow> 's \<Rightarrow> nat TaskResult \<times> 's" where
  "default_dlq_len q s = (Inr 0, s)"

definition default_list_queues :: "'s \<Rightarrow> string list TaskResult \<times> 's" where
  "default_list_queues s = (Inr [], s)"

definition default_dlq_messages ::
  "string \<Rightarrow> usize \<Rightarrow> usize \<Rightarrow> 's \<Rightarrow> 'v TaskMessage list TaskResult \<times> 's" where
  "default_dlq_messages q off lim s = (Inr [], s)"

subsection \<open>The abstract broker\<close>

record 'v abstract_broker =
  a_queued :: "string \<Rightarrow> 'v TaskMessage list"
  a_flight :: "TaskId \<rightharpoonup> 'v TaskMessage"
  a_dead :: "string \<Rightarrow> 'v TaskMessage list"

definition a_enqueue :: "'v TaskMessage \<Rightarrow> 'v abstract_broker \<Rightarrow> 'v abstract_broker" where
  "a_enqueue m a = a\<lparr>a_queued := (a_queued a)(msg_queue m := a_queued a (msg_queue m) @ [m])\<rparr>"

fun a_pop :: "string list \<Rightarrow> 'v abstract_broker \<Rightarrow> 'v TaskMessage option \<times> 'v abstract_broker"
where
  "a_pop [] a = (None, a)"
| "a_pop (q # qs) a =
     (case a_queued a q of
        [] \<Rightarrow> a_pop qs a
      | m # ms \<Rightarrow> (Some m, a\<lparr>a_queued := (a_queued a)(q := ms),
                             a_flight := (a_flight a)(msg_id m \<mapsto> m)\<rparr>))"

definition a_ack :: "TaskId \<Rightarrow> 'v abstract_broker \<Rightarrow> 'v abstract_broker" where
  "a_ack i a = a\<lparr>a_flight := (a_flight a)(i := None)\<rparr>"

definition a_nack :: "'v TaskMessage \<Rightarrow> 'v abstract_broker \<Rightarrow> 'v abstract_broker" where
  "a_nack m a = a_enqueue m (a_ack (msg_id m) a)"

definition a_dead_letter :: "'v TaskMessage \<Rightarrow> 'v abstract_broker \<Rightarrow> 'v abstract_broker" where
  "a_dead_letter m a =
     (a_ack (msg_id m) a)\<lparr>a_dead := (a_dead a)(msg_queue m := a_dead a (msg_queue m) @ [m])\<rparr>"

lemmas abstract_broker_defs = a_enqueue_def a_ack_def a_nack_def a_dead_letter_def

text \<open>
  The queue polled is the first non-empty one of the list: the order of the list is a strict
  priority, and the multiplicity of a name in it plays no role.
\<close>

lemma a_pop_skip_empty: "a_queued a q = [] \<Longrightarrow> a_pop (qs @ q # rs) a = a_pop (qs @ rs) a"
  by (induction qs) (simp_all split: list.split)

lemma a_pop_remove_later: "q \<in> set qs \<Longrightarrow> a_pop (qs @ q # rs) a = a_pop (qs @ rs) a"
proof (cases "a_queued a q = []")
  case True
  then show ?thesis by (rule a_pop_skip_empty)
next
  case False
  moreover assume "q \<in> set qs"
  ultimately show ?thesis by (induction qs) (auto split: list.split)
qed

lemma a_pop_None_iff: "fst (a_pop qs a) = None \<longleftrightarrow> (\<forall>q\<in>set qs. a_queued a q = [])"
  by (induction qs) (auto split: list.split)

lemma a_pop_None_state: "fst (a_pop qs a) = None \<Longrightarrow> snd (a_pop qs a) = a"
  by (induction qs) (auto split: list.splits)

lemma a_pop_SomeD:
  assumes "a_pop qs a = (Some m, a')"
  shows "\<exists>pre q post ms. qs = pre @ q # post \<and> (\<forall>p\<in>set pre. a_queued a p = []) \<and>
           a_queued a q = m # ms \<and>
           a' = a\<lparr>a_queued := (a_queued a)(q := ms),
                  a_flight := (a_flight a)(msg_id m \<mapsto> m)\<rparr>"
  using assms
proof (induction qs)
  case Nil
  then show ?case by simp
next
  case (Cons q qs)
  show ?case
  proof (cases "a_queued a q")
    case Nil
    with Cons.prems have "a_pop qs a = (Some m, a')" by simp
    from Cons.IH [OF this] obtain pre p post ms where "qs = pre @ p # post"
      and "\<forall>p\<in>set pre. a_queued a p = []" and "a_queued a p = m # ms"
      and "a' = a\<lparr>a_queued := (a_queued a)(p := ms), a_flight := (a_flight a)(msg_id m \<mapsto> m)\<rparr>"
      by blast
    with Nil have "q # qs = (q # pre) @ p # post \<and> (\<forall>p\<in>set (q # pre). a_queued a p = []) \<and>
        a_queued a p = m # ms \<and>
        a' = a\<lparr>a_queued := (a_queued a)(p := ms), a_flight := (a_flight a)(msg_id m \<mapsto> m)\<rparr>"
      by simp
    then show ?thesis by blast
  next
    case (Cons n ns)
    with Cons.prems have "q # qs = [] @ q # qs \<and> (\<forall>p\<in>set []. a_queued a p = []) \<and>
        a_queued a q = m # ns \<and>
        a' = a\<lparr>a_queued := (a_queued a)(q := ns), a_flight := (a_flight a)(msg_id m \<mapsto> m)\<rparr>"
      by auto
    then show ?thesis by blast
  qed
qed

text \<open>The broker still has a task: queued, handed out or dead-lettered.\<close>

definition ids_in :: "(string \<Rightarrow> 'v TaskMessage list) \<Rightarrow> TaskId set" where
  "ids_in f = (\<Union>q. msg_id ` set (f q))"

definition a_has :: "TaskId \<Rightarrow> 'v abstract_broker \<Rightarrow> bool" where
  "a_has i a \<longleftrightarrow> i \<in> ids_in (a_queued a) \<or> i \<in> dom (a_flight a) \<or> i \<in> ids_in (a_dead a)"

lemma ids_in_split: "ids_in f = msg_id ` set (f q) \<union> (\<Union>p \<in> - {q}. msg_id ` set (f p))"
  by (auto simp: ids_in_def)

lemma ids_in_upd: "ids_in (f(q := l)) = msg_id ` set l \<union> (\<Union>p \<in> - {q}. msg_id ` set (f p))"
  unfolding ids_in_split [of "f(q := l)" q] by auto

lemma ids_in_append: "ids_in (f(q := f q @ [m])) = insert (msg_id m) (ids_in f)"
  by (auto simp: ids_in_upd ids_in_split [of f q])

lemma ids_in_tl: "f q = m # l \<Longrightarrow> ids_in f = insert (msg_id m) (ids_in (f(q := l)))"
  by (auto simp: ids_in_upd ids_in_split [of f q])

lemma a_has_enqueue: "a_has i (a_enqueue m a) \<longleftrightarrow> i = msg_id m \<or> a_has i a"
  by (auto simp: a_has_def a_enqueue_def ids_in_append)

lemma a_has_ack: "a_has i a \<Longrightarrow> a_has i (a_ack j a) \<or> i = j"
  by (auto simp: a_has_def a_ack_def)

lemma a_has_nack: "a_has i a \<Longrightarrow> a_has i (a_nack m a)"
  using a_has_ack [of i a "msg_id m"] by (auto simp: a_nack_def a_has_enqueue)

lemma a_has_dead_letter: "a_has i a \<Longrightarrow> a_has i (a_dead_letter m a)"
  by (auto simp: a_has_def a_dead_letter_def a_ack_def ids_in_append)

lemma a_has_pop: "a_has i a \<Longrightarrow> a_has i (snd (a_pop qs a))"
proof (cases "fst (a_pop qs a)")
  case None
  moreover assume "a_has i a"
  ultimately show ?thesis by (simp add: a_pop_None_state)
next
  case (Some m)
  then obtain a' where pop: "a_pop qs a = (Some m, a')" by (metis prod.collapse)
  from a_pop_SomeD [OF this] obtain q ms where "a_queued a q = m # ms"
    and "a' = a\<lparr>a_queued := (a_queued a)(q := ms), a_flight := (a_flight a)(msg_id m \<mapsto> m)\<rparr>" by blast
  moreover assume "a_has i a"
  ultimately show ?thesis
    using ids_in_tl [of "a_queued a" q m ms] pop by (auto simp: a_has_def)
qed

subsection \<open>A broker that holds few messages\<close>

definition queued_with ::
  "string \<Rightarrow> 'v TaskMessage list \<Rightarrow> (string \<Rightarrow> 'v TaskMessage list) \<Rightarrow> 'v abstract_broker" where
  "queued_with q ms d = \<lparr>a_queued = (\<lambda>_. [])(q := ms), a_flight = Map.empty, a_dead = d\<rparr>"

abbreviation idle_with :: "'v TaskMessage \<Rightarrow> (string \<Rightarrow> 'v TaskMessage list) \<Rightarrow> 'v abstract_broker"
where
  "idle_with m d \<equiv> queued_with (msg_queue m) [m] d"

definition idle :: "(string \<Rightarrow> 'v TaskMessage list) \<Rightarrow> 'v abstract_broker" where
  "idle d = \<lparr>a_queued = (\<lambda>_. []), a_flight = Map.empty, a_dead = d\<rparr>"

lemma queued_with_Nil: "queued_with q [] d = idle d"
  by (simp add: queued_with_def idle_def)

lemma a_pop_queued_with:
  assumes "q \<in> set qs"
  shows "a_pop qs (queued_with q (m # ms) d) =
    (Some m, \<lparr>a_queued = (\<lambda>_. [])(q := ms), a_flight = [msg_id m \<mapsto> m], a_dead = d\<rparr>)"
  using assms by (induction qs) (auto simp: queued_with_def)

subsection \<open>Operations repeated by a client\<close>

fun enqueue_all :: "('s, 'v) Broker \<Rightarrow> 'v TaskMessage list \<Rightarrow> 's \<Rightarrow> 's" where
  "enqueue_all B [] s = s"
| "enqueue_all B (m # ms) s = enqueue_all B ms (snd (b_enqueue B m s))"

fun dequeue_times :: "('s, 'v) Broker \<Rightarrow> string list \<Rightarrow> Duration \<Rightarrow> nat \<Rightarrow> 's \<Rightarrow>
    'v TaskMessage option TaskResult list \<times> 's" where
  "dequeue_times B qs t 0 s = ([], s)"
| "dequeue_times B qs t (Suc n) s =
     (let (r, s') = b_dequeue B qs t s; (rs, s'') = dequeue_times B qs t n s'
      in (r # rs, s''))"

subsection \<open>The contract for one task at a time\<close>

text \<open>
  What a worker relies on while one task is under way: the broker is empty apart from dead
  letters \<open>d\<close>, holds one message, or has handed it out. Messages have to be \<open>good\<close> for the
  broker, which depends only on what stays the same along the life of a task.
\<close>

locale single_task_broker =
  fixes B :: "('s, 'v) Broker" and good :: "'v TaskMessage \<Rightarrow> bool"
    and vacant :: "(string \<Rightarrow> 'v TaskMessage list) \<Rightarrow> 's \<Rightarrow> bool"
    and holds :: "'v TaskMessage \<Rightarrow> (string \<Rightarrow> 'v TaskMessage list) \<Rightarrow> 's \<Rightarrow> bool"
    and flying :: "'v TaskMessage \<Rightarrow> (string \<Rightarrow> 'v TaskMessage list) \<Rightarrow> 's \<Rightarrow> bool"
  assumes good_same: "good m \<Longrightarrow> same_task m n \<Longrightarrow> good n"
    and enqueue_holds: "vacant d s \<Longrightarrow> good m \<Longrightarrow> holds m d (snd (b_enqueue B m s))"
    and dequeue_held: "holds m d s \<Longrightarrow> msg_queue m \<in> set qs \<Longrightarrow>
        fst (b_dequeue B qs t s) = Inr (Some m)"
    and dequeue_flying: "holds m d s \<Longrightarrow> msg_queue m \<in> set qs \<Longrightarrow>
        flying m d (snd (b_dequeue B qs t s))"
    and ack_vacant: "flying m d s \<Longrightarrow> vacant d (snd (b_ack B (msg_id m) s))"
    and nack_holds: "flying m d s \<Longrightarrow> same_task m n \<Longrightarrow> good n \<Longrightarrow>
        holds n d (snd (b_nack B n s))"
    and dead_letter_vacant: "flying m d s \<Longrightarrow> same_task m n \<Longrightarrow> good n \<Longrightarrow>
        vacant (d(msg_queue m := d (msg_queue m) @ [n])) (snd (b_dead_letter B n s))"

subsection \<open>The contract\<close>

text \<open>
  Every operation succeeds and acts on the abstraction as the abstract operation does.
\<close>

locale task_broker =
  fixes B :: "('s, 'v) Broker" and abs :: "'s \<Rightarrow> 'v abstract_broker"
  assumes enqueue_ok: "fst (b_enqueue B m s) = Inr ()"
    and enqueue_abs: "abs (snd (b_enqueue B m s)) = a_enqueue m (abs s)"
    and dequeue_ok: "fst (b_dequeue B qs t s) = Inr (fst (a_pop qs (abs s)))"
    and dequeue_abs: "abs (snd (b_dequeue B qs t s)) = snd (a_pop qs (abs s))"
    and ack_ok: "fst (b_ack B i s) = Inr ()"
    and ack_abs: "abs (snd (b_ack B i s)) = a_ack i (abs s)"
    and nack_ok: "fst (b_nack B m s) = Inr ()"
    and nack_abs: "abs (snd (b_nack B m s)) = a_nack m (abs s)"
    and dead_letter_ok: "fst (b_dead_letter B m s) = Inr ()"
    and dead_letter_abs: "abs (snd (b_dead_letter B m s)) = a_dead_letter m (abs s)"
begin

lemmas broker_laws =
  enqueue_ok enqueue_abs dequeue_ok dequeue_abs ack_ok ack_abs nack_ok nack_abs
  dead_letter_ok dead_letter_abs

lemma enqueue_all_queued:
  "a_queued (abs (enqueue_all B ms s)) q
     = a_queued (abs s) q @ filter (\<lambda>m. msg_queue m = q) ms"
  by (induction ms arbitrary: s) (simp_all add: enqueue_abs a_enqueue_def)

lemma enqueue_all_flight: "a_flight (abs (enqueue_all B ms s)) = a_flight (abs s)"
  by (induction ms arbitrary: s) (simp_all add: enqueue_abs a_enqueue_def)

lemma dequeue_times_fifo:
  "a_queued (abs s) q = ms @ rest \<Longrightarrow>
     fst (dequeue_times B [q] t (length ms) s) = map (\<lambda>m. Inr (Some m)) ms \<and>
     a_queued (abs (snd (dequeue_times B [q] t (length ms) s))) q = rest"
proof (induction ms arbitrary: s)
  case Nil
  then show ?case by simp
next
  case (Cons m ms)
  have "a_queued (abs (snd (b_dequeue B [q] t s))) q = ms @ rest"
    using Cons.prems by (simp add: dequeue_abs)
  note IH = Cons.IH [OF this]
  moreover have "fst (b_dequeue B [q] t s) = Inr (Some m)"
    using Cons.prems by (simp add: dequeue_ok)
  ultimately show ?case by (simp add: case_prod_beta Let_def)
qed

lemma enqueue_dequeue_fifo:
  assumes "a_queued (abs s) q = []" and "\<forall>m\<in>set ms. msg_queue m = q"
  shows "fst (dequeue_times B [q] t (length ms) (enqueue_all B ms s)) = map (\<lambda>m. Inr (Some m)) ms"
proof -
  have "a_queued (abs (enqueue_all B ms s)) q = ms @ []"
    using assms by (simp add: enqueue_all_queued)
  then show ?thesis using dequeue_times_fifo by blast
qed

end

sublocale task_broker \<subseteq> single: single_task_broker B "\<lambda>m. True"
    "\<lambda>d s. abs s = idle d" "\<lambda>m d s. abs s = idle_with m d"
    "\<lambda>m d s. abs s = \<lparr>a_queued = (\<lambda>_. []), a_flight = [msg_id m \<mapsto> m], a_dead = d\<rparr>"
proof unfold_locales
  fix m d s qs t
  assume "abs s = idle_with m d" and "msg_queue m \<in> set qs"
  then show "fst (b_dequeue B qs t s) = Inr (Some m)"
    and "abs (snd (b_dequeue B qs t s)) =
      \<lparr>a_queued = (\<lambda>_. []), a_flight = [msg_id m \<mapsto> m], a_dead = d\<rparr>"
    by (simp_all add: broker_laws a_pop_queued_with)
qed (simp_all add: broker_laws abstract_broker_defs idle_def queued_with_def same_task_def)

text \<open>A broker without delayed delivery: \<open>schedule\<close> enqueues at once, whatever the time.\<close>

locale immediate_broker = task_broker B abs
  for B :: "('s, 'v) Broker" and abs :: "'s \<Rightarrow> 'v abstract_broker" +
  assumes schedule_ok: "fst (b_schedule B m t s) = Inr ()"
    and schedule_abs: "abs (snd (b_schedule B m t s)) = a_enqueue m (abs s)"

end
