(* ===== verification/Kojin_Memory_Broker.thy ===== *)
theory Kojin_Memory_Broker
  imports Kojin_Broker
begin

text \<open>
  The in-memory broker (\<open>memory_broker.rs\<close>): its state, its operations, the proof that it
  implements the abstract broker, and that no task is lost or duplicated between its
  queues, its processing map and its dead-letter queues.

  Each \<open>tokio\<close> mutex guards one field, and every operation below is atomic under the locks
  it takes, except \<open>nack\<close> and \<open>dead_letter\<close>, which are two such steps one after the other.
  The boolean \<open>mb_notify\<close> is the permit that \<open>Notify::notify_one\<close> leaves behind when nobody
  waits.
\<close>

subsection \<open>State and operations\<close>

record 'v MemoryBroker =
  mb_queues :: "string \<rightharpoonup> 'v TaskMessage list"
  mb_dlq :: "string \<rightharpoonup> 'v TaskMessage list"
  mb_processing :: "TaskId \<rightharpoonup> 'v TaskMessage"
  mb_notify :: bool

definition memory_broker_new :: "'v MemoryBroker" where
  "memory_broker_new =
     \<lparr>mb_queues = Map.empty, mb_dlq = Map.empty, mb_processing = Map.empty, mb_notify = False\<rparr>"

text \<open>\<open>entry(k).or_default().push_back(m)\<close>.\<close>

definition push_back :: "string \<Rightarrow> 'a \<Rightarrow> (string \<rightharpoonup> 'a list) \<Rightarrow> (string \<rightharpoonup> 'a list)" where
  "push_back k m q = q(k \<mapsto> (case q k of None \<Rightarrow> [] | Some l \<Rightarrow> l) @ [m])"

definition mb_enqueue :: "'v TaskMessage \<Rightarrow> 'v MemoryBroker \<Rightarrow> unit TaskResult \<times> 'v MemoryBroker"
where
  "mb_enqueue m s =
     (Inr (), s\<lparr>mb_queues := push_back (msg_queue m) m (mb_queues s), mb_notify := True\<rparr>)"

text \<open>One pass over the requested queues: the first that has a message gives its front.\<close>

fun scan_queues :: "string list \<Rightarrow> (string \<rightharpoonup> 'a list) \<Rightarrow> ('a \<times> (string \<rightharpoonup> 'a list)) option" where
  "scan_queues [] q = None"
| "scan_queues (name # names) q =
     (case q name of
        Some (m # ms) \<Rightarrow> Some (m, q(name \<mapsto> ms))
      | _ \<Rightarrow> scan_queues names q)"

definition try_pop :: "string list \<Rightarrow> 'v MemoryBroker \<Rightarrow> 'v TaskMessage option \<times> 'v MemoryBroker"
where
  "try_pop names s =
     (case scan_queues names (mb_queues s) of
        None \<Rightarrow> (None, s)
      | Some (m, q) \<Rightarrow>
          (Some m, s\<lparr>mb_queues := q, mb_processing := (mb_processing s)(msg_id m \<mapsto> m)\<rparr>))"

text \<open>
  The wait between two passes. While the caller sleeps in \<open>select!\<close>, other tasks change the
  broker; \<open>Wake f d\<close> says that they applied \<open>f\<close>, that \<open>d\<close> nanoseconds went by and that a
  notification arrived. When the list of wakes is used up, the sleep branch fires. A stored
  permit lets \<open>notified()\<close> return at once. The wait is entered only while time remains.
\<close>

datatype (dead 'v) wake = Wake "'v MemoryBroker \<Rightarrow> 'v MemoryBroker" Duration

function dequeue_loop :: "string list \<Rightarrow> Instant \<Rightarrow> Instant \<Rightarrow> 'v wake list \<Rightarrow> 'v MemoryBroker \<Rightarrow>
    'v TaskMessage option \<times> 'v MemoryBroker" where
  "dequeue_loop names deadline now wakes s =
     (case try_pop names s of
        (Some m, s') \<Rightarrow> (Some m, s')
      | (None, _) \<Rightarrow>
          if saturating_duration_since deadline now = 0 then (None, s)
          else if mb_notify s then
            dequeue_loop names deadline now wakes (s\<lparr>mb_notify := False\<rparr>)
          else
            (case wakes of
               [] \<Rightarrow> (None, s)
             | Wake f d # ws \<Rightarrow> dequeue_loop names deadline (now + d) ws (f s)))"
  by pat_completeness auto
termination
  by (relation "measure (\<lambda>(names, deadline, now, wakes, s).
        2 * length wakes + (if mb_notify s then 1 else 0))") auto

declare dequeue_loop.simps [simp del]

definition mb_dequeue_under :: "Instant \<Rightarrow> 'v wake list \<Rightarrow> string list \<Rightarrow> Duration \<Rightarrow>
    'v MemoryBroker \<Rightarrow> 'v TaskMessage option TaskResult \<times> 'v MemoryBroker" where
  "mb_dequeue_under now wakes names timeout s =
     (let (r, s') = dequeue_loop names (now + timeout) now wakes s in (Inr r, s'))"

text \<open>With nobody else running, the call either finds a message or sleeps to the deadline.\<close>

definition mb_dequeue :: "string list \<Rightarrow> Duration \<Rightarrow> 'v MemoryBroker \<Rightarrow>
    'v TaskMessage option TaskResult \<times> 'v MemoryBroker" where
  "mb_dequeue names timeout s = mb_dequeue_under 0 [] names timeout s"

text \<open>
  The states in which a dropped call may leave the broker. It may be dropped while it sleeps
  or waits for the lock of the queues, which changes nothing, or while it waits for the lock
  of the processing map, when the message has already been popped.
\<close>

definition mb_dequeue_dropped :: "string list \<Rightarrow> 'v MemoryBroker \<Rightarrow> 'v MemoryBroker list" where
  "mb_dequeue_dropped names s =
     s # (case scan_queues names (mb_queues s) of None \<Rightarrow> [] | Some (m, q) \<Rightarrow> [s\<lparr>mb_queues := q\<rparr>])"

definition mb_ack :: "TaskId \<Rightarrow> 'v MemoryBroker \<Rightarrow> unit TaskResult \<times> 'v MemoryBroker" where
  "mb_ack i s = (Inr (), s\<lparr>mb_processing := (mb_processing s)(i := None)\<rparr>)"

definition mb_nack :: "'v TaskMessage \<Rightarrow> 'v MemoryBroker \<Rightarrow> unit TaskResult \<times> 'v MemoryBroker" where
  "mb_nack m s =
     mb_enqueue m (s\<lparr>mb_processing := (mb_processing s)(msg_id m := None)\<rparr>)"

definition mb_dead_letter ::
  "'v TaskMessage \<Rightarrow> 'v MemoryBroker \<Rightarrow> unit TaskResult \<times> 'v MemoryBroker" where
  "mb_dead_letter m s =
     (Inr (), s\<lparr>mb_processing := (mb_processing s)(msg_id m := None),
                mb_dlq := push_back (msg_queue m) m (mb_dlq s)\<rparr>)"

definition mb_schedule ::
  "'v TaskMessage \<Rightarrow> DateTime \<Rightarrow> 'v MemoryBroker \<Rightarrow> unit TaskResult \<times> 'v MemoryBroker" where
  "mb_schedule m t s = mb_enqueue m s"

definition map_len :: "(string \<rightharpoonup> 'a list) \<Rightarrow> string \<Rightarrow> nat" where
  "map_len q name = (case q name of None \<Rightarrow> 0 | Some l \<Rightarrow> length l)"

definition mb_queue_len :: "string \<Rightarrow> 'v MemoryBroker \<Rightarrow> nat TaskResult \<times> 'v MemoryBroker" where
  "mb_queue_len name s = (Inr (map_len (mb_queues s) name), s)"

definition mb_dlq_len :: "string \<Rightarrow> 'v MemoryBroker \<Rightarrow> nat TaskResult \<times> 'v MemoryBroker" where
  "mb_dlq_len name s = (Inr (map_len (mb_dlq s) name), s)"

text \<open>
  \<open>HashMap::keys\<close> enumerates the keys in an order of its own, the argument \<open>enum\<close>.
\<close>

definition mb_list_queues :: "((string \<Rightarrow> bool) \<Rightarrow> string list) \<Rightarrow> 'v MemoryBroker \<Rightarrow>
    string list TaskResult \<times> 'v MemoryBroker" where
  "mb_list_queues enum s = (Inr (enum (\<lambda>k. mb_queues s k \<noteq> None)), s)"

definition mb_dlq_messages :: "string \<Rightarrow> usize \<Rightarrow> usize \<Rightarrow> 'v MemoryBroker \<Rightarrow>
    'v TaskMessage list TaskResult \<times> 'v MemoryBroker" where
  "mb_dlq_messages name offset limit s =
     (Inr (case mb_dlq s name of
             None \<Rightarrow> []
           | Some l \<Rightarrow> take (unat limit) (drop (unat offset) l)), s)"

definition memory_broker :: "((string \<Rightarrow> bool) \<Rightarrow> string list) \<Rightarrow> ('v MemoryBroker, 'v) Broker" where
  "memory_broker enum =
     \<lparr>b_enqueue = mb_enqueue, b_dequeue = mb_dequeue, b_ack = mb_ack, b_nack = mb_nack,
      b_dead_letter = mb_dead_letter, b_schedule = mb_schedule, b_queue_len = mb_queue_len,
      b_dlq_len = mb_dlq_len, b_list_queues = mb_list_queues enum,
      b_dlq_messages = mb_dlq_messages\<rparr>"

lemma memory_broker_sel [broker_simps]:
  "b_enqueue (memory_broker enum) = mb_enqueue"
  "b_dequeue (memory_broker enum) = mb_dequeue"
  "b_ack (memory_broker enum) = mb_ack"
  "b_nack (memory_broker enum) = mb_nack"
  "b_dead_letter (memory_broker enum) = mb_dead_letter"
  "b_schedule (memory_broker enum) = mb_schedule"
  "b_queue_len (memory_broker enum) = mb_queue_len"
  "b_dlq_len (memory_broker enum) = mb_dlq_len"
  "b_list_queues (memory_broker enum) = mb_list_queues enum"
  "b_dlq_messages (memory_broker enum) = mb_dlq_messages"
  by (simp_all add: memory_broker_def)

subsection \<open>Refinement of the abstract broker\<close>

definition stored :: "(string \<rightharpoonup> 'a list) \<Rightarrow> string \<Rightarrow> 'a list" where
  "stored q name = (case q name of None \<Rightarrow> [] | Some l \<Rightarrow> l)"

definition mb_abs :: "'v MemoryBroker \<Rightarrow> 'v abstract_broker" where
  "mb_abs s = \<lparr>a_queued = stored (mb_queues s), a_flight = mb_processing s,
               a_dead = stored (mb_dlq s)\<rparr>"

lemma stored_push_back: "stored (push_back k m q) = (stored q)(k := stored q k @ [m])"
  by (auto simp: stored_def push_back_def fun_eq_iff split: option.split)

lemma stored_upd: "stored (q(k \<mapsto> l)) = (stored q)(k := l)"
  by (auto simp: stored_def fun_eq_iff)

lemma map_len_stored: "map_len q name = length (stored q name)"
  by (simp add: map_len_def stored_def split: option.split)

lemma mb_abs_notify [simp]: "mb_abs (s\<lparr>mb_notify := b\<rparr>) = mb_abs s"
  by (simp add: mb_abs_def)

lemma scan_queues_None: "scan_queues names q = None \<longleftrightarrow> (\<forall>n\<in>set names. stored q n = [])"
  by (induction names) (auto simp: stored_def split: option.split list.split)

lemma try_pop_abs:
  "fst (try_pop names s) = fst (a_pop names (mb_abs s))"
  "mb_abs (snd (try_pop names s)) = snd (a_pop names (mb_abs s))"
proof -
  have *: "(case scan_queues names q of
          None \<Rightarrow> (None, a) | Some (m, q') \<Rightarrow> (Some m, a\<lparr>a_queued := stored q',
             a_flight := (a_flight a)(msg_id m \<mapsto> m)\<rparr>)) = a_pop names a"
    if "a_queued a = stored q" for q and a :: "'b abstract_broker"
  proof (induction names)
    case (Cons n ns)
    with that show ?case
      by (cases "q n") (auto simp: stored_def [of q n] stored_upd split: list.split)
  qed simp
  from * [of "mb_abs s" "mb_queues s", symmetric]
  show "fst (try_pop names s) = fst (a_pop names (mb_abs s))"
    and "mb_abs (snd (try_pop names s)) = snd (a_pop names (mb_abs s))"
    by (auto simp: try_pop_def mb_abs_def split: option.splits)
qed

lemma try_pop_None_state: "fst (try_pop names s) = None \<Longrightarrow> snd (try_pop names s) = s"
  by (auto simp: try_pop_def split: option.splits)

lemma dequeue_alone:
  "dequeue_loop names deadline now [] s =
     (case try_pop names s of
        (Some m, s') \<Rightarrow> (Some m, s')
      | (None, _) \<Rightarrow> (None, if deadline \<le> now then s else s\<lparr>mb_notify := False\<rparr>))"
proof -
  have pop: "try_pop names (s\<lparr>mb_notify := b\<rparr>) =
      (fst (try_pop names s), (snd (try_pop names s))\<lparr>mb_notify := b\<rparr>)" for b
    by (simp add: try_pop_def split: option.split)
  show ?thesis
    by (cases "mb_notify s")
       (auto simp: dequeue_loop.simps [of _ _ _ _ s] dequeue_loop.simps [of _ _ _ _ "s\<lparr>mb_notify := False\<rparr>"]
          pop saturating_duration_since_def split: option.splits prod.splits
          dest: try_pop_None_state [of names s])
qed

lemma mb_dequeue_eq:
  "fst (mb_dequeue names t s) = Inr (fst (try_pop names s))"
  "mb_abs (snd (mb_dequeue names t s)) = mb_abs (snd (try_pop names s))"
  using try_pop_None_state [of names s]
  by (auto simp: mb_dequeue_def mb_dequeue_under_def dequeue_alone split: option.splits prod.splits)

lemma mb_ops_ok [broker_simps]:
  "fst (mb_enqueue m s) = Inr ()" "fst (mb_ack i s) = Inr ()" "fst (mb_nack m s) = Inr ()"
  "fst (mb_dead_letter m s) = Inr ()" "fst (mb_schedule m t s) = Inr ()"
  by (simp_all add: mb_enqueue_def mb_ack_def mb_nack_def mb_dead_letter_def mb_schedule_def)

lemma mb_ops_abs [broker_simps]:
  "mb_abs (snd (mb_enqueue m s)) = a_enqueue m (mb_abs s)"
  "mb_abs (snd (mb_ack i s)) = a_ack i (mb_abs s)"
  "mb_abs (snd (mb_nack m s)) = a_nack m (mb_abs s)"
  "mb_abs (snd (mb_dead_letter m s)) = a_dead_letter m (mb_abs s)"
  "mb_abs (snd (mb_schedule m t s)) = a_enqueue m (mb_abs s)"
  by (simp_all add: mb_enqueue_def mb_ack_def mb_nack_def mb_dead_letter_def mb_schedule_def
      mb_abs_def abstract_broker_defs stored_push_back)

interpretation memory: immediate_broker "memory_broker enum" mb_abs
  by unfold_locales (simp_all add: broker_simps mb_dequeue_eq try_pop_abs)

subsection \<open>A blocking dequeue is an atomic one at some moment of the wait\<close>

text \<open>
  The states the broker goes through while a caller waits: the start, and the state after
  each notification.
\<close>

fun wait_states :: "'v wake list \<Rightarrow> 'v MemoryBroker \<Rightarrow> 'v abstract_broker set" where
  "wait_states [] s = {mb_abs s}"
| "wait_states (Wake f d # ws) s =
     insert (mb_abs s) (wait_states ws (f s) \<union> wait_states ws (f (s\<lparr>mb_notify := False\<rparr>)))"

lemma wait_states_notify: "\<exists>t \<in> wait_states ws (s\<lparr>mb_notify := False\<rparr>). P t \<Longrightarrow>
    \<exists>t \<in> wait_states ws s. P t"
  by (cases ws rule: list.exhaust; cases "hd ws") auto

lemma dequeue_loop_linear:
  "dequeue_loop names deadline now wakes s = (Some m, s') \<Longrightarrow>
     \<exists>a \<in> wait_states wakes s. a_pop names a = (Some m, mb_abs s')"
proof (induction names deadline now wakes s rule: dequeue_loop.induct)
  case (1 names deadline now wakes s)
  show ?case
  proof (cases "fst (try_pop names s)")
    case (Some m')
    with "1.prems" have "try_pop names s = (Some m, s')"
      by (simp add: dequeue_loop.simps [of _ _ _ _ s] prod_eq_iff split: prod.splits)
    then have "a_pop names (mb_abs s) = (Some m, mb_abs s')"
      using try_pop_abs [of names s] by (simp add: prod_eq_iff)
    moreover have "mb_abs s \<in> wait_states wakes s"
      by (cases wakes rule: list.exhaust; cases "hd wakes") auto
    ultimately show ?thesis by blast
  next
    case None
    then obtain t where pop: "try_pop names s = (None, t)" by (cases "try_pop names s") simp
    have time: "saturating_duration_since deadline now \<noteq> 0"
      using "1.prems" pop by (auto simp: dequeue_loop.simps [of _ _ _ _ s] split: if_splits)
    show ?thesis
    proof (cases "mb_notify s")
      case True
      with "1.prems" pop time
      have "dequeue_loop names deadline now wakes (s\<lparr>mb_notify := False\<rparr>) = (Some m, s')"
        by (simp add: dequeue_loop.simps [of _ _ _ _ s])
      from "1.IH"(1) [OF pop [symmetric] refl time True this]
      show ?thesis by (rule wait_states_notify)
    next
      case False
      with "1.prems" pop time obtain f d ws where wakes: "wakes = Wake f d # ws"
        and run: "dequeue_loop names deadline (now + d) ws (f s) = (Some m, s')"
        by (auto simp: dequeue_loop.simps [of _ _ _ _ s] split: list.splits wake.splits)
      from "1.IH"(2) [OF pop [symmetric] refl time False wakes refl run]
      show ?thesis using wakes by auto
    qed
  qed
qed

subsection \<open>Conservation: every task is in exactly one place\<close>

definition list_ids :: "'v TaskMessage list \<Rightarrow> TaskId multiset" where
  "list_ids l = image_mset msg_id (mset l)"

definition queue_ids :: "(string \<rightharpoonup> 'v TaskMessage list) \<Rightarrow> TaskId multiset" where
  "queue_ids q = map_total list_ids q"

definition mb_ids :: "'v MemoryBroker \<Rightarrow> TaskId multiset" where
  "mb_ids s = queue_ids (mb_queues s) + mset_set (dom (mb_processing s)) + queue_ids (mb_dlq s)"

definition mb_finite :: "'v MemoryBroker \<Rightarrow> bool" where
  "mb_finite s \<longleftrightarrow>
     finite (dom (mb_queues s)) \<and> finite (dom (mb_dlq s)) \<and> finite (dom (mb_processing s))"

lemma list_ids_simps [simp]:
  "list_ids [] = {#}" "list_ids (m # l) = add_mset (msg_id m) (list_ids l)"
  "list_ids (l @ l') = list_ids l + list_ids l'"
  by (simp_all add: list_ids_def)

lemma queue_ids_push_back:
  assumes "finite (dom q)"
  shows "queue_ids (push_back k m q) = add_mset (msg_id m) (queue_ids q)"
proof (cases "q k")
  case None
  with map_total_upd_new [OF assms None, of list_ids "[m]"] show ?thesis
    by (simp add: queue_ids_def push_back_def)
next
  case (Some l)
  with map_total_upd_old [OF assms Some, of list_ids "l @ [m]"] show ?thesis
    by (simp add: queue_ids_def push_back_def)
qed

lemma queue_ids_scan:
  assumes "finite (dom q)" and "scan_queues names q = Some (m, q')"
  shows "queue_ids q = add_mset (msg_id m) (queue_ids q')" and "dom q' = dom q"
proof -
  have "\<exists>name ms. q name = Some (m # ms) \<and> q' = q(name \<mapsto> ms)"
    using assms(2)
    by (induction names) (auto split: option.splits list.splits)
  then obtain name ms where q: "q name = Some (m # ms)" and q': "q' = q(name \<mapsto> ms)" by blast
  show "queue_ids q = add_mset (msg_id m) (queue_ids q')"
    using map_total_upd_old [OF assms(1) q, of list_ids ms] by (simp add: queue_ids_def q')
  show "dom q' = dom q" using q q' by auto
qed

lemma mb_finite_ops:
  assumes "mb_finite s"
  shows "mb_finite (snd (mb_enqueue m s))" "mb_finite (snd (mb_ack i s))"
    "mb_finite (snd (mb_nack m s))" "mb_finite (snd (mb_dead_letter m s))"
    "mb_finite (snd (try_pop names s))"
  using assms queue_ids_scan(2) [of "mb_queues s" names]
  by (auto simp: mb_finite_def mb_enqueue_def mb_ack_def mb_nack_def mb_dead_letter_def
      push_back_def try_pop_def split: option.split)

lemma mset_set_dom_remove:
  assumes "finite (dom m)" and "m i \<noteq> None"
  shows "mset_set (dom m) = add_mset i (mset_set (dom (m(i := None))))"
  using mset_set.remove [of "dom m" i] assms by (auto simp: domIff)

lemma mb_ids_enqueue: "mb_finite s \<Longrightarrow> mb_ids (snd (mb_enqueue m s)) = add_mset (msg_id m) (mb_ids s)"
  by (simp add: mb_ids_def mb_enqueue_def mb_finite_def queue_ids_push_back)

lemma mb_ids_ack:
  assumes "mb_finite s" and "mb_processing s i \<noteq> None"
  shows "mb_ids s = add_mset i (mb_ids (snd (mb_ack i s)))"
  using assms mset_set_dom_remove [of "mb_processing s" i]
  by (simp add: mb_ids_def mb_ack_def mb_finite_def)

lemma mb_ids_nack:
  assumes "mb_finite s" and "mb_processing s (msg_id m) \<noteq> None"
  shows "mb_ids (snd (mb_nack m s)) = mb_ids s"
  using mb_ids_ack [OF assms] mb_ids_enqueue [of "snd (mb_ack (msg_id m) s)" m]
    mb_finite_ops(2) [OF assms(1)]
  by (simp add: mb_nack_def mb_ack_def)

lemma mb_ids_dead_letter:
  assumes "mb_finite s" and "mb_processing s (msg_id m) \<noteq> None"
  shows "mb_ids (snd (mb_dead_letter m s)) = mb_ids s"
  using assms mset_set_dom_remove [of "mb_processing s" "msg_id m"]
  by (simp add: mb_ids_def mb_dead_letter_def mb_finite_def queue_ids_push_back)

lemma mb_ids_try_pop:
  assumes "mb_finite s" and "\<forall>i. count (mb_ids s) i \<le> 1"
  shows "mb_ids (snd (try_pop names s)) = mb_ids s"
proof (cases "scan_queues names (mb_queues s)")
  case None
  then show ?thesis by (simp add: try_pop_def)
next
  case (Some p)
  then obtain m q where scan: "scan_queues names (mb_queues s) = Some (m, q)" by (cases p) auto
  note ids = queue_ids_scan(1) [OF _ scan]
  have "finite (dom (mb_queues s))" "finite (dom (mb_processing s))"
    using assms(1) by (simp_all add: mb_finite_def)
  moreover from this ids assms(2) [rule_format, of "msg_id m"]
  have "count (mset_set (dom (mb_processing s))) (msg_id m) = 0"
    by (simp add: mb_ids_def)
  then have "msg_id m \<notin> dom (mb_processing s)"
    using \<open>finite (dom (mb_processing s))\<close> by (metis count_mset_set(1) zero_neq_one)
  ultimately show ?thesis using ids
    by (simp add: try_pop_def scan mb_ids_def domIff [symmetric] del: domIff)
qed

text \<open>
  Histories of a broker: tasks with new identifiers are enqueued, messages are dequeued,
  and a message in processing is acknowledged, returned or dead-lettered. \<open>E\<close> collects the
  identifiers enqueued, \<open>A\<close> those acknowledged.
\<close>

inductive mb_history :: "TaskId set \<Rightarrow> TaskId set \<Rightarrow> 'v MemoryBroker \<Rightarrow> bool" where
  hist_new: "mb_history {} {} memory_broker_new"
| hist_enqueue: "mb_history E A s \<Longrightarrow> msg_id m \<notin> E \<Longrightarrow>
    mb_history (insert (msg_id m) E) A (snd (mb_enqueue m s))"
| hist_dequeue: "mb_history E A s \<Longrightarrow> mb_history E A (snd (try_pop names s))"
| hist_ack: "mb_history E A s \<Longrightarrow> mb_processing s i \<noteq> None \<Longrightarrow>
    mb_history E (insert i A) (snd (mb_ack i s))"
| hist_nack: "mb_history E A s \<Longrightarrow> mb_processing s (msg_id m) \<noteq> None \<Longrightarrow>
    mb_history E A (snd (mb_nack m s))"
| hist_dead_letter: "mb_history E A s \<Longrightarrow> mb_processing s (msg_id m) \<noteq> None \<Longrightarrow>
    mb_history E A (snd (mb_dead_letter m s))"

lemma ids_le_one: "finite D \<Longrightarrow> count (mset_set D) i \<le> 1"
  by (cases "i \<in> D") simp_all

lemma mb_history_inv:
  "mb_history E A s \<Longrightarrow> mb_finite s \<and> finite E \<and> A \<subseteq> E \<and> mb_ids s = mset_set (E - A)"
proof (induction rule: mb_history.induct)
  case hist_new
  then show ?case
    by (simp add: mb_finite_def memory_broker_new_def mb_ids_def queue_ids_def)
next
  case (hist_enqueue E A s m)
  then have "insert (msg_id m) E - A = insert (msg_id m) (E - A)" by auto
  with hist_enqueue show ?case by (auto simp: mb_finite_ops mb_ids_enqueue)
next
  case (hist_dequeue E A s names)
  then have "\<forall>i. count (mb_ids s) i \<le> 1" using ids_le_one by (metis finite_Diff)
  with hist_dequeue show ?case by (simp add: mb_finite_ops mb_ids_try_pop)
next
  case (hist_ack E A s i)
  then have ids: "add_mset i (mb_ids (snd (mb_ack i s))) = mset_set (E - A)"
    using mb_ids_ack by metis
  with hist_ack.IH have "i \<in> E - A"
    by (metis finite_Diff finite_set_mset_mset_set union_single_eq_member)
  moreover have "E - insert i A = (E - A) - {i}" by auto
  ultimately have "mb_ids (snd (mb_ack i s)) = mset_set (E - insert i A)"
    using ids hist_ack.IH mset_set.remove [of "E - A" i] by simp
  with hist_ack.IH \<open>i \<in> E - A\<close> show ?case by (simp add: mb_finite_ops)
qed (simp_all add: mb_finite_ops mb_ids_nack mb_ids_dead_letter)

subsection \<open>Weighted queues\<close>

lemma scan_queues_again: "scan_queues (name # name # names) q = scan_queues (name # names) q"
  by (simp split: option.split list.split)

lemma scan_queues_replicate:
  "0 < n \<Longrightarrow> scan_queues (replicate n name @ names) q = scan_queues (name # names) q"
proof (induction n)
  case 0
  then show ?case by simp
next
  case (Suc n)
  then show ?case
    by (cases n) (simp_all add: scan_queues_again del: scan_queues.simps)
qed

lemma scan_queues_cong:
  "scan_queues xs q = scan_queues ys q \<Longrightarrow> scan_queues (name # xs) q = scan_queues (name # ys) q"
  by (simp split: option.split list.split)

lemma scan_weighted_order: "scan_queues (build_weighted_order wqs) q = scan_queues (map wq_name wqs) q"
proof (induction wqs)
  case Nil
  show ?case by (simp add: build_weighted_order_eq)
next
  case (Cons wq wqs)
  have "scan_queues (build_weighted_order (wq # wqs)) q =
      scan_queues (wq_name wq # build_weighted_order wqs) q"
    using scan_queues_replicate [OF weight_pos] by (simp add: build_weighted_order_eq del: scan_queues.simps)
  also have "\<dots> = scan_queues (wq_name wq # map wq_name wqs) q"
    using Cons.IH by (rule scan_queues_cong)
  finally show ?case by (simp del: scan_queues.simps)
qed

lemma dequeue_loop_cong:
  fixes s :: "'v MemoryBroker"
  assumes "\<And>q :: string \<rightharpoonup> 'v TaskMessage list. scan_queues xs q = scan_queues ys q"
  shows "dequeue_loop xs deadline now wakes s = dequeue_loop ys deadline now wakes s"
  using assms
proof (induction xs deadline now wakes s rule: dequeue_loop.induct)
  case (1 names deadline now wakes s)
  have "try_pop names s = try_pop ys s" using 1(3) by (simp add: try_pop_def)
  with 1 show ?case
    by (subst (1 2) dequeue_loop.simps) (auto split: option.split prod.split list.split wake.split)
qed

text \<open>C12: the weights of queues play no part in what the in-memory broker hands out: polling the weighted
  order of a list of queues is the same as polling their names once each, in the order of the
  list, for every state, every timeout and whatever others do during the wait. A queue is
  served only when all queues before it are empty, whatever its weight.\<close>

theorem weighted_order_is_strict_priority:
  "mb_dequeue_under now wakes (build_weighted_order wqs) timeout s =
     mb_dequeue_under now wakes (map wq_name wqs) timeout s"
  unfolding mb_dequeue_under_def dequeue_loop_cong [OF scan_weighted_order] ..

end
