(* ===== verification/Kojin_Result_Backend.thy ===== *)
theory Kojin_Result_Backend
  imports Kojin_Message
begin

text \<open>
  Result backends: the trait (\<open>result_backend.rs\<close>), the polling loop that all three backends
  use for \<open>wait\<close>, the contract of the group operations as a locale, and the in-memory
  backend (\<open>memory_result_backend.rs\<close>).

  The display of a UUID (\<open>id.to_string()\<close>) is the argument \<open>uuid_fmt\<close> of the operations that
  use it as a key.
\<close>

subsection \<open>The trait\<close>

record ('s, 'v) ResultBackend =
  r_store :: "TaskId \<Rightarrow> 'v \<Rightarrow> 's \<Rightarrow> unit TaskResult \<times> 's"
  r_get :: "TaskId \<Rightarrow> 's \<Rightarrow> 'v option TaskResult \<times> 's"
  r_delete :: "TaskId \<Rightarrow> 's \<Rightarrow> unit TaskResult \<times> 's"
  r_init_group :: "string \<Rightarrow> u32 \<Rightarrow> 's \<Rightarrow> unit TaskResult \<times> 's"
  r_complete_group_member :: "string \<Rightarrow> TaskId \<Rightarrow> 'v \<Rightarrow> 's \<Rightarrow> u32 TaskResult \<times> 's"
  r_get_group_results :: "string \<Rightarrow> 's \<Rightarrow> 'v list TaskResult \<times> 's"

text \<open>A backend without group support keeps the provided methods, which all refuse.\<close>

definition group_unsupported :: "'s \<Rightarrow> 'a TaskResult \<times> 's" where
  "group_unsupported s =
     (Inl (ResultBackend ''group operations not supported by this backend''), s)"

subsection \<open>Waiting for a result\<close>

text \<open>
  \<open>wait\<close> polls \<open>get\<close>, gives up when the deadline has passed and sleeps \<open>interval\<close>
  in between. During the \<open>k\<close>-th sleep the clock moves by the interval plus a delay
  \<open>fst (env k)\<close> and the other tasks apply \<open>snd (env k)\<close> to the backend. \<open>None\<close> is a call
  that does not return.
\<close>

partial_function (option) wait_loop :: "('s \<Rightarrow> 'v option TaskResult \<times> 's) \<Rightarrow> Duration \<Rightarrow>
    (nat \<Rightarrow> Duration \<times> ('s \<Rightarrow> 's)) \<Rightarrow> Duration \<Rightarrow> Instant \<Rightarrow> Instant \<Rightarrow> nat \<Rightarrow> 's \<Rightarrow>
    ('v TaskResult \<times> 's) option" where
  "wait_loop get interval env timeout deadline now k s =
     (case get s of (r, s') \<Rightarrow>
        (case r of
           Inl e \<Rightarrow> Some (Inl e, s')
         | Inr (Some v) \<Rightarrow> Some (Inr v, s')
         | Inr None \<Rightarrow>
             if deadline \<le> now then Some (Inl (Timeout timeout), s')
             else wait_loop get interval env timeout deadline
                    (now + interval + fst (env k)) (Suc k) (snd (env k) s')))"

definition wait_for :: "('s \<Rightarrow> 'v option TaskResult \<times> 's) \<Rightarrow> Duration \<Rightarrow>
    (nat \<Rightarrow> Duration \<times> ('s \<Rightarrow> 's)) \<Rightarrow> Instant \<Rightarrow> Duration \<Rightarrow> 's \<Rightarrow> ('v TaskResult \<times> 's) option"
where
  "wait_for get interval env now timeout s =
     wait_loop get interval env timeout (now + timeout) now 0 s"

text \<open>The \<open>k\<close>-th state polled and the time of the poll.\<close>

fun polled :: "('s \<Rightarrow> 'v option TaskResult \<times> 's) \<Rightarrow> (nat \<Rightarrow> Duration \<times> ('s \<Rightarrow> 's)) \<Rightarrow> 's \<Rightarrow> nat \<Rightarrow> 's" where
  "polled get env s 0 = s"
| "polled get env s (Suc k) = snd (env k) (snd (get (polled get env s k)))"

fun poll_time :: "(nat \<Rightarrow> Duration \<times> ('s \<Rightarrow> 's)) \<Rightarrow> Duration \<Rightarrow> Instant \<Rightarrow> nat \<Rightarrow> Instant" where
  "poll_time env interval now 0 = now"
| "poll_time env interval now (Suc k) = poll_time env interval now k + interval + fst (env k)"

definition poll_outcome :: "('s \<Rightarrow> 'v option TaskResult \<times> 's) \<Rightarrow> Duration \<Rightarrow> 's \<Rightarrow> 'v TaskResult \<times> 's" where
  "poll_outcome get timeout s =
     (case get s of
        (Inl e, s') \<Rightarrow> (Inl e, s')
      | (Inr (Some v), s') \<Rightarrow> (Inr v, s')
      | (Inr None, s') \<Rightarrow> (Inl (Timeout timeout), s'))"

text \<open>
  The call that starts with the \<open>k\<close>-th poll returns with the \<open>n\<close>-th: what that poll says, where
  an empty answer is a timeout; the polls before were empty and made before the deadline, and
  an empty last poll is made at or after the deadline.
\<close>

definition returns_at :: "('s \<Rightarrow> 'v option TaskResult \<times> 's) \<Rightarrow> Duration \<Rightarrow> (nat \<Rightarrow> Duration \<times> ('s \<Rightarrow> 's)) \<Rightarrow>
    Duration \<Rightarrow> Instant \<Rightarrow> Instant \<Rightarrow> 's \<Rightarrow> nat \<Rightarrow> nat \<Rightarrow> ('v TaskResult \<times> 's) option \<Rightarrow> bool" where
  "returns_at get interval env timeout deadline t0 s0 k n r \<longleftrightarrow>
     k \<le> n \<and> r = Some (poll_outcome get timeout (polled get env s0 n)) \<and>
     (\<forall>j. k \<le> j \<and> j < n \<longrightarrow>
        fst (get (polled get env s0 j)) = Inr None \<and> poll_time env interval t0 j < deadline) \<and>
     (fst (get (polled get env s0 n)) = Inr None \<longrightarrow> deadline \<le> poll_time env interval t0 n)"

text \<open>The call returns, since every round moves the clock by at least the interval.\<close>

lemma wait_loop_total:
  assumes "0 < interval"
  shows "\<exists>n. returns_at get interval env timeout deadline t0 s0 k n
    (wait_loop get interval env timeout deadline (poll_time env interval t0 k) k (polled get env s0 k))"
proof (induction "deadline - poll_time env interval t0 k" arbitrary: k rule: less_induct)
  case less
  let ?s = "polled get env s0 k" and ?t = "poll_time env interval t0 k"
  obtain r s' where get: "get ?s = (r, s')" by fastforce
  show ?case
  proof (cases "r = Inr None \<and> ?t < deadline")
    case True
    with assms have "deadline - poll_time env interval t0 (Suc k) < deadline - ?t" by auto
    from less [OF this] obtain n where n: "returns_at get interval env timeout deadline t0 s0 (Suc k) n
        (wait_loop get interval env timeout deadline (poll_time env interval t0 (Suc k)) (Suc k)
           (polled get env s0 (Suc k)))" ..
    have "wait_loop get interval env timeout deadline ?t k ?s
        = wait_loop get interval env timeout deadline (poll_time env interval t0 (Suc k)) (Suc k)
            (polled get env s0 (Suc k))"
      using True get by (subst wait_loop.simps) simp
    moreover have "fst (get (polled get env s0 j)) = Inr None \<and> poll_time env interval t0 j < deadline"
      if "k \<le> j" "j < n" for j
      using that n True get by (cases "j = k") (auto simp: returns_at_def)
    ultimately show ?thesis using n by (intro exI [of _ n]) (simp add: returns_at_def)
  next
    case False
    with get show ?thesis
      by (intro exI [of _ k], subst wait_loop.simps)
         (auto simp: returns_at_def poll_outcome_def split: sum.splits option.splits)
  qed
qed

lemma wait_for_returns:
  assumes "0 < interval"
  shows "\<exists>n. returns_at get interval env timeout (now + timeout) now s 0 n (wait_for get interval env now timeout s)"
  using wait_loop_total [OF assms, of get env timeout "now + timeout" now s 0] by (simp add: wait_for_def)

subsection \<open>The contract of the group operations\<close>

text \<open>
  \<open>grp g xs s\<close> says that in state \<open>s\<close> the members of group \<open>g\<close> that have completed are \<open>xs\<close>,
  in this order, each with its result. A backend promises that an initialised group is
  empty, that a member completing for the first time gets the number of completions so far,
  and that the results of the group are those of its completed members.
\<close>

fun complete_all :: "(string \<Rightarrow> TaskId \<Rightarrow> 'v \<Rightarrow> 's \<Rightarrow> u32 TaskResult \<times> 's) \<Rightarrow> string \<Rightarrow>
    (TaskId \<times> 'v) list \<Rightarrow> 's \<Rightarrow> u32 TaskResult list \<times> 's" where
  "complete_all complete g [] s = ([], s)"
| "complete_all complete g ((i, v) # xs) s =
     (let (r, s') = complete g i v s; (rs, s'') = complete_all complete g xs s'
      in (r # rs, s''))"

locale group_store =
  fixes init :: "string \<Rightarrow> u32 \<Rightarrow> 's \<Rightarrow> unit TaskResult \<times> 's"
    and complete :: "string \<Rightarrow> TaskId \<Rightarrow> 'v \<Rightarrow> 's \<Rightarrow> u32 TaskResult \<times> 's"
    and results :: "string \<Rightarrow> 's \<Rightarrow> 'v list TaskResult \<times> 's"
    and fresh :: "string \<Rightarrow> 's \<Rightarrow> bool"
    and grp :: "string \<Rightarrow> (TaskId \<times> 'v) list \<Rightarrow> 's \<Rightarrow> bool"
  assumes init_ok: "fresh g s \<Longrightarrow> fst (init g n s) = Inr ()"
    and init_grp: "fresh g s \<Longrightarrow> grp g [] (snd (init g n s))"
    and complete_ok: "grp g xs s \<Longrightarrow> i \<notin> fst ` set xs \<Longrightarrow>
          fst (complete g i v s) = Inr (of_nat (Suc (length xs)))"
    and complete_grp: "grp g xs s \<Longrightarrow> i \<notin> fst ` set xs \<Longrightarrow>
          grp g (xs @ [(i, v)]) (snd (complete g i v s))"
    and results_grp: "grp g xs s \<Longrightarrow>
          \<exists>vs. fst (results g s) = Inr vs \<and> mset vs = image_mset snd (mset xs)"
begin

lemma complete_all_counts:
  assumes "grp g xs s" and "distinct (map fst (xs @ ys))"
  shows "fst (complete_all complete g ys s)
           = map (\<lambda>k. Inr (of_nat k)) [Suc (length xs) ..< Suc (length xs + length ys)]
       \<and> grp g (xs @ ys) (snd (complete_all complete g ys s))"
  using assms
proof (induction ys arbitrary: xs s)
  case Nil
  then show ?case by simp
next
  case (Cons y ys)
  obtain i v where y: "y = (i, v)" by (cases y)
  with Cons.prems have new: "i \<notin> fst ` set xs" by auto
  have "grp g (xs @ [(i, v)]) (snd (complete g i v s))"
    using Cons.prems(1) new by (rule complete_grp)
  moreover have "distinct (map fst ((xs @ [(i, v)]) @ ys))" using Cons.prems(2) y by simp
  ultimately have IH: "fst (complete_all complete g ys (snd (complete g i v s)))
        = map (\<lambda>k. Inr (of_nat k)) [Suc (length (xs @ [(i, v)])) ..<
              Suc (length (xs @ [(i, v)]) + length ys)] \<and>
      grp g ((xs @ [(i, v)]) @ ys) (snd (complete_all complete g ys (snd (complete g i v s))))"
    by (rule Cons.IH)
  have "[Suc (length xs) ..< Suc (length xs + length (y # ys))] =
      Suc (length xs) # [Suc (Suc (length xs)) ..< Suc (Suc (length xs) + length ys)]"
    by (subst upt_conv_Cons) simp_all
  with IH complete_ok [OF Cons.prems(1) new] y show ?case
    by (simp add: case_prod_beta Let_def)
qed

text \<open>
  Of the members of an initialised group of \<open>n\<close>, exactly the last one to complete is told
  that the group is complete, and it then finds the results of all of them.
\<close>

lemma last_member_completes:
  assumes "fresh g s" and "distinct (map fst ys)" and "length ys = n" and "0 < n"
    and "n < 2 ^ 32"
  defines "out \<equiv> complete_all complete g ys (snd (init g (of_nat n) s))"
  shows "[k \<leftarrow> [0..<n]. fst out ! k = Inr (of_nat n)] = [n - 1]"
    and "\<exists>vs. fst (results g (snd out)) = Inr vs \<and> mset vs = mset (map snd ys)"
proof -
  from complete_all_counts [OF init_grp [OF assms(1)], of ys "of_nat n"] assms(2)
  have counts: "fst out = map (\<lambda>k. Inr (of_nat k)) [1 ..< Suc (length ys)]"
    and grp: "grp g ys (snd out)"
    by (simp_all add: out_def)
  have "fst out ! k = Inr (of_nat n) \<longleftrightarrow> k = n - 1" if "k < n" for k
  proof -
    have "(of_nat (Suc k) :: u32) = of_nat n \<longleftrightarrow> Suc k = n"
      using that assms(5) by (intro of_nat_u32_inject) simp_all
    moreover have "fst out ! k = Inr (of_nat (Suc k))"
      using that assms(3) by (simp add: counts del: upt_Suc of_nat_Suc)
    moreover have "Suc k = n \<longleftrightarrow> k = n - 1" using that by arith
    ultimately show ?thesis by (simp only: sum.inject)
  qed
  then have "[k \<leftarrow> [0..<n]. fst out ! k = Inr (of_nat n)] = [k \<leftarrow> [0..<n]. k = n - 1]"
    by (intro filter_cong) auto
  also have "\<dots> = [n - 1]"
    using assms(4) by (cases n) simp_all
  finally show "[k \<leftarrow> [0..<n]. fst out ! k = Inr (of_nat n)] = [n - 1]" .
  show "\<exists>vs. fst (results g (snd out)) = Inr vs \<and> mset vs = mset (map snd ys)"
    using results_grp [OF grp] by simp
qed

end

subsection \<open>The in-memory backend (memory_result_backend.rs)\<close>

record 'v GroupState =
  gs_total :: u32
  gs_completed :: u32
  gs_results :: "'v list"

record 'v MemoryResultBackend =
  mr_results :: "string \<rightharpoonup> 'v"
  mr_groups :: "string \<rightharpoonup> 'v GroupState"

definition memory_result_backend_new :: "'v MemoryResultBackend" where
  "memory_result_backend_new = \<lparr>mr_results = Map.empty, mr_groups = Map.empty\<rparr>"

definition mr_store :: "(uuid \<Rightarrow> string) \<Rightarrow> TaskId \<Rightarrow> 'v \<Rightarrow> 'v MemoryResultBackend \<Rightarrow>
    unit TaskResult \<times> 'v MemoryResultBackend" where
  "mr_store uuid_fmt i v s =
     (Inr (), s\<lparr>mr_results := (mr_results s)(taskid_display uuid_fmt i \<mapsto> v)\<rparr>)"

definition mr_get :: "(uuid \<Rightarrow> string) \<Rightarrow> TaskId \<Rightarrow> 'v MemoryResultBackend \<Rightarrow>
    'v option TaskResult \<times> 'v MemoryResultBackend" where
  "mr_get uuid_fmt i s = (Inr (mr_results s (taskid_display uuid_fmt i)), s)"

definition mr_wait :: "(uuid \<Rightarrow> string) \<Rightarrow> (nat \<Rightarrow> Duration \<times> ('v MemoryResultBackend \<Rightarrow>
    'v MemoryResultBackend)) \<Rightarrow> Instant \<Rightarrow> TaskId \<Rightarrow> Duration \<Rightarrow> 'v MemoryResultBackend \<Rightarrow>
    ('v TaskResult \<times> 'v MemoryResultBackend) option" where
  "mr_wait uuid_fmt env now i timeout s =
     wait_for (mr_get uuid_fmt i) (duration_from_millis 50) env now timeout s"

definition mr_delete :: "(uuid \<Rightarrow> string) \<Rightarrow> TaskId \<Rightarrow> 'v MemoryResultBackend \<Rightarrow>
    unit TaskResult \<times> 'v MemoryResultBackend" where
  "mr_delete uuid_fmt i s =
     (Inr (), s\<lparr>mr_results := (mr_results s)(taskid_display uuid_fmt i := None)\<rparr>)"

definition mr_init_group :: "string \<Rightarrow> u32 \<Rightarrow> 'v MemoryResultBackend \<Rightarrow>
    unit TaskResult \<times> 'v MemoryResultBackend" where
  "mr_init_group g n s =
     (Inr (), s\<lparr>mr_groups := (mr_groups s)
        (g \<mapsto> \<lparr>gs_total = n, gs_completed = 0, gs_results = []\<rparr>)\<rparr>)"

text \<open>\<open>completed += 1\<close> wraps in a release build.\<close>

definition mr_complete_group_member :: "string \<Rightarrow> TaskId \<Rightarrow> 'v \<Rightarrow> 'v MemoryResultBackend \<Rightarrow>
    u32 TaskResult \<times> 'v MemoryResultBackend" where
  "mr_complete_group_member g i v s =
     (case mr_groups s g of
        None \<Rightarrow> (Inl (ResultBackend (''group not found: '' @ g)), s)
      | Some st \<Rightarrow>
          (Inr (gs_completed st + 1),
           s\<lparr>mr_groups := (mr_groups s)
               (g \<mapsto> st\<lparr>gs_completed := gs_completed st + 1, gs_results := gs_results st @ [v]\<rparr>)\<rparr>))"

definition mr_get_group_results :: "string \<Rightarrow> 'v MemoryResultBackend \<Rightarrow>
    'v list TaskResult \<times> 'v MemoryResultBackend" where
  "mr_get_group_results g s =
     ((case mr_groups s g of
         None \<Rightarrow> Inl (ResultBackend (''group not found: '' @ g))
       | Some st \<Rightarrow> Inr (gs_results st)), s)"

definition memory_result_backend ::
  "(uuid \<Rightarrow> string) \<Rightarrow> ('v MemoryResultBackend, 'v) ResultBackend" where
  "memory_result_backend uuid_fmt =
     \<lparr>r_store = mr_store uuid_fmt, r_get = mr_get uuid_fmt, r_delete = mr_delete uuid_fmt,
      r_init_group = mr_init_group, r_complete_group_member = mr_complete_group_member,
      r_get_group_results = mr_get_group_results\<rparr>"

lemma memory_result_backend_sel [backend_simps]:
  "r_store (memory_result_backend f) = mr_store f"
  "r_get (memory_result_backend f) = mr_get f"
  "r_delete (memory_result_backend f) = mr_delete f"
  "r_init_group (memory_result_backend f) = mr_init_group"
  "r_complete_group_member (memory_result_backend f) = mr_complete_group_member"
  "r_get_group_results (memory_result_backend f) = mr_get_group_results"
  by (simp_all add: memory_result_backend_def)

definition mr_grp :: "string \<Rightarrow> (TaskId \<times> 'v) list \<Rightarrow> 'v MemoryResultBackend \<Rightarrow> bool" where
  "mr_grp g xs s \<longleftrightarrow>
     (case mr_groups s g of
        None \<Rightarrow> False
      | Some st \<Rightarrow> gs_completed st = of_nat (length xs) \<and> gs_results st = map snd xs)"

interpretation memory_groups: group_store mr_init_group mr_complete_group_member
  mr_get_group_results "\<lambda>g s. True" mr_grp
  by unfold_locales
     (auto simp: mr_grp_def mr_init_group_def mr_complete_group_member_def
        mr_get_group_results_def split: option.splits)

lemma mr_get_fst: "fst (mr_get f i s) = Inr (mr_results s (taskid_display f i))"
  by (simp add: mr_get_def)

lemma mr_get_read: "snd (mr_get f i s) = s"
  by (simp add: mr_get_def)

subsection \<open>Properties\<close>

text \<open>Of the members of an initialised in-memory group, exactly the last to complete is told the
  total, and it then reads the results of all members, in the order in which they completed.\<close>

lemma memory_group_last_member:
  assumes "distinct (map fst ys)" and "length ys = n" and "0 < n" and "n < 2 ^ 32"
    and "complete_all mr_complete_group_member g ys (snd (mr_init_group g (of_nat n) s)) = (rs, s')"
  shows "[k \<leftarrow> [0..<n]. rs ! k = Inr (of_nat n)] = [n - 1] \<and>
    fst (mr_get_group_results g s') = Inr (map snd ys)"
proof -
  have "mr_grp g [] (snd (mr_init_group g (of_nat n) s))"
    by (simp add: mr_grp_def mr_init_group_def)
  from memory_groups.complete_all_counts [OF this, of ys] assms(1,5) have "mr_grp g ys s'" by simp
  then have "fst (mr_get_group_results g s') = Inr (map snd ys)"
    by (auto simp: mr_grp_def mr_get_group_results_def split: option.splits)
  then show ?thesis
    using memory_groups.last_member_completes(1) [OF TrueI assms(1-4), of g s] assms(5) by simp
qed

lemma memory_group_last_member_example:
  "\<exists>rs s'. complete_all mr_complete_group_member ''g'' [(TaskId 1, ''x''), (TaskId 2, ''y'')]
       (snd (mr_init_group ''g'' 2 memory_result_backend_new)) = (rs, s') \<and>
     [k \<leftarrow> [0..<2]. rs ! k = Inr 2] = [1] \<and> fst (mr_get_group_results ''g'' s') = Inr [''x'', ''y'']"
proof -
  obtain rs s' where run: "complete_all mr_complete_group_member ''g'' [(TaskId 1, ''x''), (TaskId 2, ''y'')]
       (snd (mr_init_group ''g'' (of_nat 2) memory_result_backend_new)) = (rs, s')" by fastforce
  from memory_group_last_member [OF _ _ _ _ run] run show ?thesis by simp
qed

end
