(* ===== verification/Kojin_Registry.thy ===== *)
theory Kojin_Registry
  imports Kojin_Message
begin

text \<open>
  The task trait (\<open>task.rs\<close>), the registry of type-erased handlers (\<open>registry.rs\<close>) and the
  JSON codec (\<open>codec.rs\<close>). What \<open>serde\<close> derives for a task type and its output are fields of
  the record that stands for the type; a serde failure is the text of its error. A task may
  act on an application state \<open>'x\<close>.
\<close>

subsection \<open>Tasks (task.rs)\<close>

record ('t, 'o, 'v, 'c, 'x) Task =
  t_NAME :: string
  t_QUEUE :: string
  t_MAX_RETRIES :: u32
  t_backoff :: BackoffStrategy
  t_run :: "'t \<Rightarrow> 'c \<Rightarrow> 'x \<Rightarrow> 'o TaskResult \<times> 'x"
  t_from_value :: "'v \<Rightarrow> string + 't"
  t_to_value :: "'t \<Rightarrow> string + 'v"
  t_output_to_value :: "'o \<Rightarrow> string + 'v"

text \<open>The defaults of the trait's associated items.\<close>

definition task_default_QUEUE :: string where
  "task_default_QUEUE = ''default''"

definition task_default_MAX_RETRIES :: u32 where
  "task_default_MAX_RETRIES = 3"

definition task_default_backoff :: BackoffStrategy where
  "task_default_backoff = backoff_default"

text \<open>\<open>signature\<close> panics (here \<open>None\<close>) when the task does not serialize.\<close>

definition task_signature :: "('t, 'o, 'v, 'c, 'x) Task \<Rightarrow> 't \<Rightarrow> 'v Signature option" where
  "task_signature T self =
     (case t_to_value T self of
        Inl e \<Rightarrow> None
      | Inr v \<Rightarrow> Some (sig_with_max_retries (t_MAX_RETRIES T)
                        (signature_new (t_NAME T) (t_QUEUE T) v)))"

subsection \<open>The registry (registry.rs)\<close>

type_synonym ('v, 'c, 'x) TaskHandler = "'v \<Rightarrow> 'c \<Rightarrow> 'x \<Rightarrow> 'v TaskResult \<times> 'x"

record ('v, 'c, 'x) TaskRegistry =
  handlers :: "string \<rightharpoonup> ('v, 'c, 'x) TaskHandler"

definition registry_new :: "('v, 'c, 'x) TaskRegistry" where
  "registry_new = \<lparr>handlers = Map.empty\<rparr>"

definition task_handler :: "('t, 'o, 'v, 'c, 'x) Task \<Rightarrow> ('v, 'c, 'x) TaskHandler" where
  "task_handler T p ctx x =
     (case t_from_value T p of
        Inl e \<Rightarrow> (Inl (Serialization e), x)
      | Inr task \<Rightarrow>
          (case t_run T task ctx x of
             (Inl e, x') \<Rightarrow> (Inl e, x')
           | (Inr out, x') \<Rightarrow>
               (case t_output_to_value T out of
                  Inl e \<Rightarrow> (Inl (Serialization e), x')
                | Inr v \<Rightarrow> (Inr v, x'))))"

definition register :: "('t, 'o, 'v, 'c, 'x) Task \<Rightarrow> ('v, 'c, 'x) TaskRegistry \<Rightarrow>
    ('v, 'c, 'x) TaskRegistry" where
  "register T r = r\<lparr>handlers := (handlers r)(t_NAME T \<mapsto> task_handler T)\<rparr>"

definition registry_get :: "string \<Rightarrow> ('v, 'c, 'x) TaskRegistry \<Rightarrow> ('v, 'c, 'x) TaskHandler option"
where
  "registry_get name r = handlers r name"

definition registry_contains :: "string \<Rightarrow> ('v, 'c, 'x) TaskRegistry \<Rightarrow> bool" where
  "registry_contains name r \<longleftrightarrow> handlers r name \<noteq> None"

definition dispatch :: "('v, 'c, 'x) TaskRegistry \<Rightarrow> string \<Rightarrow> 'v \<Rightarrow> 'c \<Rightarrow> 'x \<Rightarrow> 'v TaskResult \<times> 'x"
where
  "dispatch r name p ctx x =
     (case registry_get name r of
        None \<Rightarrow> (Inl (TaskNotFound name), x)
      | Some handler \<Rightarrow> handler p ctx x)"

lemma dispatch_unknown: "\<not> registry_contains name r \<Longrightarrow>
    dispatch r name p ctx x = (Inl (TaskNotFound name), x)"
  by (simp add: dispatch_def registry_contains_def registry_get_def)

lemma dispatch_register:
  "dispatch (register T r) name p ctx x =
     (if name = t_NAME T then task_handler T p ctx x else dispatch r name p ctx x)"
  by (simp add: dispatch_def register_def registry_get_def)

lemma registry_contains_register:
  "registry_contains name (register T r) \<longleftrightarrow> name = t_NAME T \<or> registry_contains name r"
  by (simp add: registry_contains_def register_def)

subsection \<open>The JSON codec (codec.rs)\<close>

definition json_encode :: "('a \<Rightarrow> string + u8 list) \<Rightarrow> 'a \<Rightarrow> u8 list TaskResult" where
  "json_encode to_vec x = (case to_vec x of Inl e \<Rightarrow> Inl (Serialization e) | Inr b \<Rightarrow> Inr b)"

definition json_decode :: "(u8 list \<Rightarrow> string + 'a) \<Rightarrow> u8 list \<Rightarrow> 'a TaskResult" where
  "json_decode from_slice b = (case from_slice b of Inl e \<Rightarrow> Inl (Serialization e) | Inr x \<Rightarrow> Inr x)"

subsection \<open>Properties\<close>

text \<open>A task sent through its signature is run: registering a task type and dispatching the message
  of a value's signature runs the task on that very value and returns its output as JSON,
  provided that serde reads back the value it printed; other registered tasks do not
  interfere, and a name that was never registered is reported as \<open>TaskNotFound\<close> without
  touching the application state.\<close>

lemma signature_dispatch_runs_task:
  assumes "task_signature T self = Some sig" and "\<forall>v. t_to_value T self = Inr v \<longrightarrow> t_from_value T v = Inr self"
    and "t_NAME T' \<noteq> t_NAME T" and "t_run T self ctx x = (Inr out, y)" and "t_output_to_value T out = Inr v"
  shows "dispatch (register T' (register T r)) (sig_task_name sig) (sig_payload sig) ctx x = (Inr v, y) \<and>
    sig_max_retries sig = t_MAX_RETRIES T \<and> sig_queue sig = t_QUEUE T \<and>
    (\<not> registry_contains name r \<and> name \<noteq> t_NAME T \<and> name \<noteq> t_NAME T' \<longrightarrow>
       dispatch (register T' (register T r)) name p ctx x = (Inl (TaskNotFound name), x))"
proof -
  from assms(1,2) obtain u where "t_from_value T u = Inr self"
    and "sig_payload sig = u" "sig_task_name sig = t_NAME T"
    "sig_max_retries sig = t_MAX_RETRIES T" "sig_queue sig = t_QUEUE T"
    by (auto simp: task_signature_def signature_new_def sig_with_max_retries_def split: sum.splits)
  then show ?thesis using assms(3-5)
    by (auto simp: dispatch_register task_handler_def dispatch_unknown)
qed

definition length_task :: "(string, nat, string, unit, nat) Task" where
  "length_task =
     \<lparr>t_NAME = ''length'', t_QUEUE = task_default_QUEUE, t_MAX_RETRIES = task_default_MAX_RETRIES,
      t_backoff = task_default_backoff, t_run = (\<lambda>s ctx x. (Inr (length s), x + 1)),
      t_from_value = Inr, t_to_value = Inr, t_output_to_value = (\<lambda>n. Inr (replicate n CHR ''I''))\<rparr>"

lemma signature_dispatch_example:
  "dispatch (register (length_task\<lparr>t_NAME := ''other''\<rparr>) (register length_task registry_new))
     ''length'' ''abc'' () 4 = (Inr ''III'', 5)"
  using signature_dispatch_runs_task [of length_task "''abc''"
      "sig_with_max_retries 3 (signature_new ''length'' ''default'' ''abc'')"
      "length_task\<lparr>t_NAME := ''other''\<rparr>" "()" 4 3 5 "''III''" registry_new]
  by (simp add: length_task_def task_signature_def task_default_MAX_RETRIES_def
      task_default_QUEUE_def sig_with_max_retries_def signature_new_def numeral_3_eq_3)

end
