(* ===== verification/Kojin_Middleware.thy ===== *)
theory Kojin_Middleware
  imports Kojin_Message
begin

text \<open>
  Middleware (\<open>middleware/mod.rs\<close>) and the built-in ones: tracing, metrics, deduplication,
  OpenTelemetry and rate limiting. A middleware is a record of its three hooks over a state
  \<open>'s\<close>; each hook is told the monotonic time at which it runs.
\<close>

subsection \<open>The trait (middleware/mod.rs)\<close>

record ('s, 'v) Middleware =
  mw_before :: "Instant \<Rightarrow> 'v TaskMessage \<Rightarrow> 's \<Rightarrow> unit TaskResult \<times> 's"
  mw_after :: "Instant \<Rightarrow> 'v TaskMessage \<Rightarrow> 'v \<Rightarrow> 's \<Rightarrow> unit TaskResult \<times> 's"
  mw_on_error :: "Instant \<Rightarrow> 'v TaskMessage \<Rightarrow> KojinError \<Rightarrow> 's \<Rightarrow> unit TaskResult \<times> 's"

definition default_before :: "Instant \<Rightarrow> 'v TaskMessage \<Rightarrow> 's \<Rightarrow> unit TaskResult \<times> 's" where
  "default_before now m s = (Inr (), s)"

definition default_after :: "Instant \<Rightarrow> 'v TaskMessage \<Rightarrow> 'v \<Rightarrow> 's \<Rightarrow> unit TaskResult \<times> 's" where
  "default_after now m v s = (Inr (), s)"

definition default_on_error ::
  "Instant \<Rightarrow> 'v TaskMessage \<Rightarrow> KojinError \<Rightarrow> 's \<Rightarrow> unit TaskResult \<times> 's" where
  "default_on_error now m e s = (Inr (), s)"

text \<open>
  A boxed middleware keeps its state to itself; in a worker the states of all of them make up
  one state, of which each sees its part through \<open>get\<close> and \<open>put\<close>.
\<close>

definition mw_lift :: "('t \<Rightarrow> 's) \<Rightarrow> ('s \<Rightarrow> 't \<Rightarrow> 't) \<Rightarrow> ('s, 'v) Middleware \<Rightarrow> ('t, 'v) Middleware"
where
  "mw_lift get put M =
     \<lparr>mw_before = (\<lambda>now m t. let (r, s) = mw_before M now m (get t) in (r, put s t)),
      mw_after = (\<lambda>now m v t. let (r, s) = mw_after M now m v (get t) in (r, put s t)),
      mw_on_error = (\<lambda>now m e t. let (r, s) = mw_on_error M now m e (get t) in (r, put s t))\<rparr>"

text \<open>A middleware that only observes: none of its hooks ever fails.\<close>

definition observer :: "('s, 'v) Middleware \<Rightarrow> bool" where
  "observer M \<longleftrightarrow>
     (\<forall>now m s. fst (mw_before M now m s) = Inr ()) \<and>
     (\<forall>now m v s. fst (mw_after M now m v s) = Inr ()) \<and>
     (\<forall>now m e s. fst (mw_on_error M now m e s) = Inr ())"

lemma observer_lift: "observer M \<Longrightarrow> observer (mw_lift get put M)"
  by (simp add: observer_def mw_lift_def case_prod_beta Let_def)

subsection \<open>Tracing (middleware/tracing_mw.rs)\<close>

text \<open>The hooks emit a log event and return \<open>Ok\<close>.\<close>

definition tracing_mw :: "('s, 'v) Middleware" where
  "tracing_mw = \<lparr>mw_before = (\<lambda>now m s. (Inr (), s)), mw_after = (\<lambda>now m v s. (Inr (), s)),
                 mw_on_error = (\<lambda>now m e s. (Inr (), s))\<rparr>"

subsection \<open>Metrics (middleware/metrics.rs)\<close>

text \<open>\<open>fetch_add\<close> wraps around at 64 bits.\<close>

record MetricsInner =
  tasks_started :: u64
  tasks_succeeded :: u64
  tasks_failed :: u64

definition metrics_new :: MetricsInner where
  "metrics_new = \<lparr>tasks_started = 0, tasks_succeeded = 0, tasks_failed = 0\<rparr>"

definition metrics_before :: "Instant \<Rightarrow> 'v TaskMessage \<Rightarrow> MetricsInner \<Rightarrow> unit TaskResult \<times> MetricsInner"
where
  "metrics_before now m s = (Inr (), s\<lparr>tasks_started := tasks_started s + 1\<rparr>)"

definition metrics_after ::
  "Instant \<Rightarrow> 'v TaskMessage \<Rightarrow> 'v \<Rightarrow> MetricsInner \<Rightarrow> unit TaskResult \<times> MetricsInner" where
  "metrics_after now m v s = (Inr (), s\<lparr>tasks_succeeded := tasks_succeeded s + 1\<rparr>)"

definition metrics_on_error ::
  "Instant \<Rightarrow> 'v TaskMessage \<Rightarrow> KojinError \<Rightarrow> MetricsInner \<Rightarrow> unit TaskResult \<times> MetricsInner" where
  "metrics_on_error now m e s = (Inr (), s\<lparr>tasks_failed := tasks_failed s + 1\<rparr>)"

definition metrics_mw :: "(MetricsInner, 'v) Middleware" where
  "metrics_mw = \<lparr>mw_before = metrics_before, mw_after = metrics_after, mw_on_error = metrics_on_error\<rparr>"

subsection \<open>Deduplication (middleware/dedup.rs)\<close>

record DeduplicationMiddleware =
  seen :: "string \<rightharpoonup> Instant"
  ttl :: Duration

definition dedup_new :: "Duration \<Rightarrow> DeduplicationMiddleware" where
  "dedup_new t = \<lparr>seen = Map.empty, ttl = t\<rparr>"

text \<open>\<open>Instant::duration_since\<close> saturates at zero.\<close>

definition dedup_cleanup :: "Instant \<Rightarrow> DeduplicationMiddleware \<Rightarrow> DeduplicationMiddleware" where
  "dedup_cleanup now s =
     s\<lparr>seen := (\<lambda>k. case seen s k of
          None \<Rightarrow> None
        | Some v \<Rightarrow> if saturating_duration_since now v < ttl s then Some v else None)\<rparr>"

definition dedup_before :: "Instant \<Rightarrow> 'v TaskMessage \<Rightarrow> DeduplicationMiddleware \<Rightarrow>
    unit TaskResult \<times> DeduplicationMiddleware" where
  "dedup_before now m s =
     (case dedup_key (mfields m) of
        None \<Rightarrow> (Inr (), s)
      | Some key \<Rightarrow>
          (case seen s key of
             Some entry \<Rightarrow>
               if saturating_duration_since now entry < ttl s then (Inl (Duplicate key), s)
               else (Inr (), s\<lparr>seen := (seen s)(key \<mapsto> now)\<rparr>)
           | None \<Rightarrow> (Inr (), s\<lparr>seen := (seen s)(key \<mapsto> now)\<rparr>)))"

definition dedup_mw :: "(DeduplicationMiddleware, 'v) Middleware" where
  "dedup_mw = \<lparr>mw_before = dedup_before, mw_after = default_after, mw_on_error = default_on_error\<rparr>"

text \<open>A key is live at a time when it was seen less than the TTL before.\<close>

definition key_live :: "Instant \<Rightarrow> string \<Rightarrow> DeduplicationMiddleware \<Rightarrow> bool" where
  "key_live now key s \<longleftrightarrow>
     (case seen s key of None \<Rightarrow> False | Some t \<Rightarrow> saturating_duration_since now t < ttl s)"

lemma dedup_before_cases:
  "dedup_before now m s =
     (case dedup_key (mfields m) of
        None \<Rightarrow> (Inr (), s)
      | Some key \<Rightarrow> if key_live now key s then (Inl (Duplicate key), s)
                    else (Inr (), s\<lparr>seen := (seen s)(key \<mapsto> now)\<rparr>))"
  by (simp add: dedup_before_def key_live_def split: option.split)

lemma key_live_mono: "key_live now key s \<Longrightarrow> t \<le> now \<Longrightarrow> key_live t key s"
  by (auto simp: key_live_def saturating_duration_since_def split: option.splits)

lemma key_live_cleanup: "key_live now key (dedup_cleanup now s) \<longleftrightarrow> key_live now key s"
  by (auto simp: key_live_def dedup_cleanup_def split: option.splits if_splits)

subsection \<open>OpenTelemetry (middleware/otel.rs)\<close>

text \<open>
  The instruments belong to the \<open>opentelemetry\<close> crate: an instrument is what the middleware asks a
  meter for, and what is sent to it is kept as the list of calls, latest first. A meter is its
  name. Durations are in nanoseconds where the code converts them to floating-point
  milliseconds.
\<close>

record instrument =
  in_meter :: string
  in_name :: string
  in_description :: string
  in_unit :: "string option"

type_synonym attributes = "(string \<times> string) list"

datatype otel_call =
    CounterAdd instrument u64 attributes
  | HistogramRecord instrument Duration attributes

record OtelMiddleware =
  otel_started :: instrument
  otel_succeeded :: instrument
  otel_failed :: instrument
  otel_duration :: instrument
  timings :: "TaskId \<rightharpoonup> Instant"
  otel_calls :: "otel_call list"

definition otel_from_meter :: "string \<Rightarrow> OtelMiddleware" where
  "otel_from_meter meter =
     \<lparr>otel_started = \<lparr>in_meter = meter, in_name = ''kojin.task.started'',
        in_description = ''Number of tasks started'', in_unit = None\<rparr>,
      otel_succeeded = \<lparr>in_meter = meter, in_name = ''kojin.task.succeeded'',
        in_description = ''Number of tasks that succeeded'', in_unit = None\<rparr>,
      otel_failed = \<lparr>in_meter = meter, in_name = ''kojin.task.failed'',
        in_description = ''Number of tasks that failed'', in_unit = None\<rparr>,
      otel_duration = \<lparr>in_meter = meter, in_name = ''kojin.task.duration'',
        in_description = ''Task execution duration'', in_unit = Some ''ms''\<rparr>,
      timings = Map.empty, otel_calls = []\<rparr>"

definition otel_new :: OtelMiddleware where
  "otel_new = otel_from_meter ''kojin''"

definition otel_attrs :: "'v TaskMessage \<Rightarrow> attributes" where
  "otel_attrs m = [(''task.name'', task_name (mfields m)), (''task.queue'', msg_queue m)]"

definition otel_send :: "otel_call \<Rightarrow> OtelMiddleware \<Rightarrow> OtelMiddleware" where
  "otel_send c s = s\<lparr>otel_calls := c # otel_calls s\<rparr>"

definition otel_record_duration :: "Instant \<Rightarrow> 'v TaskMessage \<Rightarrow> OtelMiddleware \<Rightarrow> OtelMiddleware" where
  "otel_record_duration now m s =
     (case timings s (msg_id m) of
        None \<Rightarrow> s
      | Some start \<Rightarrow>
          otel_send (HistogramRecord (otel_duration s) (saturating_duration_since now start) (otel_attrs m))
            (s\<lparr>timings := (timings s)(msg_id m := None)\<rparr>))"

definition otel_before :: "Instant \<Rightarrow> 'v TaskMessage \<Rightarrow> OtelMiddleware \<Rightarrow> unit TaskResult \<times> OtelMiddleware"
where
  "otel_before now m s =
     (Inr (), otel_send (CounterAdd (otel_started s) 1 (otel_attrs m))
                (s\<lparr>timings := (timings s)(msg_id m \<mapsto> now)\<rparr>))"

definition otel_after ::
  "Instant \<Rightarrow> 'v TaskMessage \<Rightarrow> 'v \<Rightarrow> OtelMiddleware \<Rightarrow> unit TaskResult \<times> OtelMiddleware" where
  "otel_after now m v s =
     (Inr (), otel_send (CounterAdd (otel_succeeded s) 1 (otel_attrs m)) (otel_record_duration now m s))"

definition otel_on_error ::
  "Instant \<Rightarrow> 'v TaskMessage \<Rightarrow> KojinError \<Rightarrow> OtelMiddleware \<Rightarrow> unit TaskResult \<times> OtelMiddleware" where
  "otel_on_error now m e s =
     (Inr (), otel_send (CounterAdd (otel_failed s) 1 (otel_attrs m)) (otel_record_duration now m s))"

definition otel_mw :: "(OtelMiddleware, 'v) Middleware" where
  "otel_mw = \<lparr>mw_before = otel_before, mw_after = otel_after, mw_on_error = otel_on_error\<rparr>"

text \<open>A task that ends is measured from its own start, whatever other tasks did in between, and its
  start is forgotten; a task that never started is counted but not measured.\<close>

lemma otel_task_measured:
  assumes "timings s (msg_id m) = Some start"
  shows "otel_calls (snd (otel_after now m v s)) =
      [CounterAdd (otel_succeeded s) 1 (otel_attrs m),
       HistogramRecord (otel_duration s) (saturating_duration_since now start) (otel_attrs m)] @ otel_calls s"
    and "otel_calls (snd (otel_on_error now m e s)) =
      [CounterAdd (otel_failed s) 1 (otel_attrs m),
       HistogramRecord (otel_duration s) (saturating_duration_since now start) (otel_attrs m)] @ otel_calls s"
    and "timings (snd (otel_after now m v s)) = (timings s)(msg_id m := None)"
    and "timings (snd (otel_on_error now m e s)) = (timings s)(msg_id m := None)"
  using assms by (simp_all add: otel_after_def otel_on_error_def otel_record_duration_def otel_send_def)

lemma otel_others_kept:
  assumes "msg_id m \<noteq> i"
  shows "timings (snd (otel_before now m s)) i = timings s i"
    and "timings (snd (otel_after now m v s)) i = timings s i"
    and "timings (snd (otel_on_error now m e s)) i = timings s i"
  using assms
  by (simp_all add: otel_before_def otel_after_def otel_on_error_def otel_record_duration_def otel_send_def
      split: option.split)

subsection \<open>Rate limiting (middleware/rate_limit.rs)\<close>

text \<open>
  The limiters are those of the \<open>governor\<close> crate. The arguments \<open>direct\<close> and \<open>keyed\<close> make one from a
  quota, \<open>quota\<close> makes a quota from a number per second. Awaiting a limiter changes its state:
  the arguments \<open>until_ready\<close> and \<open>until_key_ready\<close> stand for the two calls. The number is a
  \<open>NonZeroU32\<close>.
\<close>

datatype ('d, 'k) RateLimitInner = Global 'd | PerTask 'k

definition rate_limit_global :: "('q \<Rightarrow> 'd) \<Rightarrow> 'q \<Rightarrow> ('d, 'k) RateLimitInner" where
  "rate_limit_global direct q = Global (direct q)"

definition rate_limit_per_task :: "('q \<Rightarrow> 'k) \<Rightarrow> 'q \<Rightarrow> ('d, 'k) RateLimitInner" where
  "rate_limit_per_task keyed q = PerTask (keyed q)"

definition rate_limit_per_second :: "('q \<Rightarrow> 'd) \<Rightarrow> (u32 \<Rightarrow> 'q) \<Rightarrow> u32 \<Rightarrow> ('d, 'k) RateLimitInner" where
  "rate_limit_per_second direct quota n = rate_limit_global direct (quota n)"

definition rate_limit_per_second_per_task :: "('q \<Rightarrow> 'k) \<Rightarrow> (u32 \<Rightarrow> 'q) \<Rightarrow> u32 \<Rightarrow>
    ('d, 'k) RateLimitInner" where
  "rate_limit_per_second_per_task keyed quota n = rate_limit_per_task keyed (quota n)"

definition rate_limit_before :: "('d \<Rightarrow> 'd) \<Rightarrow> (string \<Rightarrow> 'k \<Rightarrow> 'k) \<Rightarrow> Instant \<Rightarrow> 'v TaskMessage \<Rightarrow>
    ('d, 'k) RateLimitInner \<Rightarrow> unit TaskResult \<times> ('d, 'k) RateLimitInner" where
  "rate_limit_before until_ready until_key_ready now m s =
     (Inr (), case s of
                Global l \<Rightarrow> Global (until_ready l)
              | PerTask l \<Rightarrow> PerTask (until_key_ready (task_name (mfields m)) l))"

definition rate_limit_mw :: "('d \<Rightarrow> 'd) \<Rightarrow> (string \<Rightarrow> 'k \<Rightarrow> 'k) \<Rightarrow>
    (('d, 'k) RateLimitInner, 'v) Middleware" where
  "rate_limit_mw until_ready until_key_ready =
     \<lparr>mw_before = rate_limit_before until_ready until_key_ready,
      mw_after = default_after, mw_on_error = default_on_error\<rparr>"

lemma builtin_observers:
  "observer tracing_mw" "observer metrics_mw" "observer otel_mw" "observer (rate_limit_mw f g)"
  by (simp_all add: observer_def tracing_mw_def metrics_mw_def metrics_before_def metrics_after_def
      metrics_on_error_def otel_mw_def otel_before_def otel_after_def otel_on_error_def Let_def
      rate_limit_mw_def rate_limit_before_def default_after_def default_on_error_def)

subsection \<open>Properties\<close>

text \<open>The deduplication window: once a message with a key has been let through at time \<open>t0\<close>, any
  message with the same key is rejected as a duplicate strictly within the TTL and let
  through again from \<open>t0 + ttl\<close> on; a cleanup at any earlier moment changes none of this.\<close>

lemma dedup_window:
  assumes "dedup_before t0 m s = (Inr (), s1)" and "dedup_key (mfields m) = Some k"
    and "dedup_key (mfields n) = Some k" and "t0 \<le> t" and "t' \<le> t"
  shows "fst (dedup_before t n (dedup_cleanup t' s1))
       = (if t - t0 < ttl s then Inl (Duplicate k) else Inr ())"
proof -
  have "s1 = s\<lparr>seen := (seen s)(k \<mapsto> t0)\<rparr>"
    using assms(1,2) by (simp add: dedup_before_cases split: if_splits)
  then show ?thesis using assms(3-5)
    by (auto simp: dedup_before_cases key_live_def dedup_cleanup_def saturating_duration_since_def
        split: if_splits)
qed

lemma dedup_window_example:
  "let m = with_dedup_key ''k'' (message_new 1 0 ''a'' ''q'' ()); s1 = snd (dedup_before 3 m (dedup_new 10))
   in fst (dedup_before 12 m (dedup_cleanup 5 s1)) = Inl (Duplicate ''k'') \<and>
      fst (dedup_before 13 m (dedup_cleanup 5 s1)) = Inr ()"
proof -
  let ?m = "with_dedup_key ''k'' (message_new 1 0 ''a'' ''q'' ())"
  let ?s1 = "snd (dedup_before 3 ?m (dedup_new 10))"
  have key: "dedup_key (mfields ?m) = Some ''k''" by (simp add: with_dedup_key_def)
  then have "dedup_before 3 ?m (dedup_new 10) = (Inr (), ?s1)"
    by (simp add: dedup_before_def dedup_new_def)
  note window = dedup_window [OF this key key]
  from window [of 12 5] window [of 13 5] show ?thesis by (simp add: Let_def dedup_new_def)
qed

end
