(* ===== verification/Kojin_Worker.thy ===== *)
theory Kojin_Worker
  imports Kojin_Memory_Broker Kojin_Result_Backend Kojin_Registry Kojin_Middleware
begin

text \<open>
  The execution of one task by a worker (\<open>worker.rs\<close>: \<open>execute_task\<close>, \<open>handle_failure\<close>).

  A worker is a record of the trait objects it was built from, together with the two
  external services its code calls: \<open>serde_json\<close>'s conversions and the source of UUIDs. The
  \<open>world\<close> is everything the calls act on: the states of the broker, of the result backend,
  of the middlewares and of the application, the two clocks and the number of UUIDs drawn.
  Log output has no effect on the model.
\<close>

subsection \<open>Worker and world\<close>

record 'v serde_api =
  sigs_from_str :: "string \<Rightarrow> string + 'v Signature list"
  sigs_to_str :: "'v Signature list \<Rightarrow> string + string"
  value_to_str :: "'v \<Rightarrow> string + string"
  values_to_str :: "'v list \<Rightarrow> string + string"

record WorkerConfig =
  concurrency :: nat
  wc_queues :: "string list"
  shutdown_timeout :: Duration
  dequeue_timeout :: Duration

definition worker_config_default :: WorkerConfig where
  "worker_config_default =
     \<lparr>concurrency = 10, wc_queues = [''default''], shutdown_timeout = duration_from_secs 30,
      dequeue_timeout = duration_from_secs 5\<rparr>"

record ('b, 'r, 'm, 'x, 'v, 'c) Worker =
  wk_broker :: "('b, 'v) Broker"
  wk_registry :: "('v, 'c, 'x) TaskRegistry"
  wk_middlewares :: "('m, 'v) Middleware list"
  wk_context :: 'c
  wk_config :: WorkerConfig
  wk_result_backend :: "('r, 'v) ResultBackend option"
  wk_serde :: "'v serde_api"
  wk_now_v7 :: "nat \<Rightarrow> uuid"

definition worker_new :: "'v serde_api \<Rightarrow> (nat \<Rightarrow> uuid) \<Rightarrow> ('b, 'v) Broker \<Rightarrow>
    ('v, 'c, 'x) TaskRegistry \<Rightarrow> 'c \<Rightarrow> WorkerConfig \<Rightarrow> ('b, 'r, 'm, 'x, 'v, 'c) Worker" where
  "worker_new serde gen B reg ctx cfg =
     \<lparr>wk_broker = B, wk_registry = reg, wk_middlewares = [], wk_context = ctx, wk_config = cfg,
      wk_result_backend = None, wk_serde = serde, wk_now_v7 = gen\<rparr>"

definition with_result_backend :: "('r, 'v) ResultBackend \<Rightarrow>
    ('b, 'r, 'm, 'x, 'v, 'c) Worker \<Rightarrow> ('b, 'r, 'm, 'x, 'v, 'c) Worker" where
  "with_result_backend R W = W\<lparr>wk_result_backend := Some R\<rparr>"

definition with_middleware :: "('m, 'v) Middleware \<Rightarrow>
    ('b, 'r, 'm, 'x, 'v, 'c) Worker \<Rightarrow> ('b, 'r, 'm, 'x, 'v, 'c) Worker" where
  "with_middleware M W = W\<lparr>wk_middlewares := wk_middlewares W @ [M]\<rparr>"

record ('b, 'r, 'm, 'x) world =
  w_broker :: 'b
  w_backend :: 'r
  w_mw :: 'm
  w_app :: 'x
  w_now :: DateTime
  w_clock :: Instant
  w_drawn :: nat

definition on_broker :: "('b \<Rightarrow> 'a \<times> 'b) \<Rightarrow> ('b, 'r, 'm, 'x) world \<Rightarrow> 'a \<times> ('b, 'r, 'm, 'x) world"
where
  "on_broker f w = (let (r, b) = f (w_broker w) in (r, w\<lparr>w_broker := b\<rparr>))"

definition on_backend :: "('r \<Rightarrow> 'a \<times> 'r) \<Rightarrow> ('b, 'r, 'm, 'x) world \<Rightarrow> 'a \<times> ('b, 'r, 'm, 'x) world"
where
  "on_backend f w = (let (a, r) = f (w_backend w) in (a, w\<lparr>w_backend := r\<rparr>))"

definition sleep :: "Duration \<Rightarrow> ('b, 'r, 'm, 'x) world \<Rightarrow> ('b, 'r, 'm, 'x) world" where
  "sleep d w = w\<lparr>w_now := w_now w + int d, w_clock := w_clock w + d\<rparr>"

lemma on_broker_sel [worker_simps]:
  "fst (on_broker f w) = fst (f (w_broker w))"
  "w_broker (snd (on_broker f w)) = snd (f (w_broker w))"
  "w_backend (snd (on_broker f w)) = w_backend w"
  "w_mw (snd (on_broker f w)) = w_mw w"
  "w_app (snd (on_broker f w)) = w_app w"
  "w_now (snd (on_broker f w)) = w_now w"
  "w_clock (snd (on_broker f w)) = w_clock w"
  "w_drawn (snd (on_broker f w)) = w_drawn w"
  by (simp_all add: on_broker_def case_prod_beta Let_def)

lemma on_backend_sel [worker_simps]:
  "fst (on_backend g w) = fst (g (w_backend w))"
  "w_broker (snd (on_backend g w)) = w_broker w"
  "w_backend (snd (on_backend g w)) = snd (g (w_backend w))"
  "w_mw (snd (on_backend g w)) = w_mw w"
  "w_app (snd (on_backend g w)) = w_app w"
  "w_now (snd (on_backend g w)) = w_now w"
  "w_clock (snd (on_backend g w)) = w_clock w"
  "w_drawn (snd (on_backend g w)) = w_drawn w"
  by (simp_all add: on_backend_def case_prod_beta Let_def)

lemma sleep_sel [worker_simps]:
  "w_broker (sleep d w) = w_broker w" "w_backend (sleep d w) = w_backend w"
  "w_mw (sleep d w) = w_mw w" "w_app (sleep d w) = w_app w"
  "w_now (sleep d w) = w_now w + int d" "w_clock (sleep d w) = w_clock w + d"
  "w_drawn (sleep d w) = w_drawn w"
  by (simp_all add: sleep_def)

subsection \<open>Middleware loops\<close>

text \<open>The first failing \<open>before\<close> ends the loop; failures of the other two hooks are logged.\<close>

fun run_before :: "('m, 'v) Middleware list \<Rightarrow> 'v TaskMessage \<Rightarrow> ('b, 'r, 'm, 'x) world \<Rightarrow>
    unit TaskResult \<times> ('b, 'r, 'm, 'x) world" where
  "run_before [] m w = (Inr (), w)"
| "run_before (M # Ms) m w =
     (case mw_before M (w_clock w) m (w_mw w) of
        (Inl e, s) \<Rightarrow> (Inl e, w\<lparr>w_mw := s\<rparr>)
      | (Inr _, s) \<Rightarrow> run_before Ms m (w\<lparr>w_mw := s\<rparr>))"

fun run_after :: "('m, 'v) Middleware list \<Rightarrow> 'v TaskMessage \<Rightarrow> 'v \<Rightarrow> ('b, 'r, 'm, 'x) world \<Rightarrow>
    ('b, 'r, 'm, 'x) world" where
  "run_after [] m v w = w"
| "run_after (M # Ms) m v w =
     run_after Ms m v (w\<lparr>w_mw := snd (mw_after M (w_clock w) m v (w_mw w))\<rparr>)"

fun run_on_error :: "('m, 'v) Middleware list \<Rightarrow> 'v TaskMessage \<Rightarrow> KojinError \<Rightarrow>
    ('b, 'r, 'm, 'x) world \<Rightarrow> ('b, 'r, 'm, 'x) world" where
  "run_on_error [] m e w = w"
| "run_on_error (M # Ms) m e w =
     run_on_error Ms m e (w\<lparr>w_mw := snd (mw_on_error M (w_clock w) m e (w_mw w))\<rparr>)"

lemma run_before_sel [worker_simps]:
  "w_broker (snd (run_before Ms m w)) = w_broker w"
  "w_backend (snd (run_before Ms m w)) = w_backend w"
  "w_app (snd (run_before Ms m w)) = w_app w"
  "w_now (snd (run_before Ms m w)) = w_now w"
  "w_clock (snd (run_before Ms m w)) = w_clock w"
  "w_drawn (snd (run_before Ms m w)) = w_drawn w"
  by (induction Ms arbitrary: w) (simp_all split: prod.split sum.split)

lemma run_after_sel [worker_simps]:
  "w_broker (run_after Ms m v w) = w_broker w"
  "w_backend (run_after Ms m v w) = w_backend w"
  "w_app (run_after Ms m v w) = w_app w"
  "w_now (run_after Ms m v w) = w_now w"
  "w_clock (run_after Ms m v w) = w_clock w"
  "w_drawn (run_after Ms m v w) = w_drawn w"
  by (induction Ms arbitrary: w) simp_all

lemma run_on_error_sel [worker_simps]:
  "w_broker (run_on_error Ms m e w) = w_broker w"
  "w_backend (run_on_error Ms m e w) = w_backend w"
  "w_app (run_on_error Ms m e w) = w_app w"
  "w_now (run_on_error Ms m e w) = w_now w"
  "w_clock (run_on_error Ms m e w) = w_clock w"
  "w_drawn (run_on_error Ms m e w) = w_drawn w"
  by (induction Ms arbitrary: w) simp_all

lemma run_before_observers: "\<forall>M\<in>set Ms. observer M \<Longrightarrow> fst (run_before Ms m w) = Inr ()"
proof (induction Ms arbitrary: w)
  case (Cons M Ms)
  then have "fst (mw_before M (w_clock w) m (w_mw w)) = Inr ()" by (simp add: observer_def)
  with Cons show ?case by (cases "mw_before M (w_clock w) m (w_mw w)") simp
qed simp

subsection \<open>Failure: retry or dead-letter (handle_failure)\<close>

definition mark_retry :: "DateTime \<Rightarrow> 'v TaskMessage \<Rightarrow> 'v TaskMessage" where
  "mark_retry now =
     update_fields (\<lambda>f. f\<lparr>retries := retries f + 1, state := Retry, updated_at := now\<rparr>)"

definition mark_dead :: "DateTime \<Rightarrow> 'v TaskMessage \<Rightarrow> 'v TaskMessage" where
  "mark_dead now = update_fields (\<lambda>f. f\<lparr>state := DeadLettered, updated_at := now\<rparr>)"

definition handle_failure :: "('b, 'r, 'm, 'x, 'v, 'c) Worker \<Rightarrow> 'v TaskMessage \<Rightarrow> KojinError \<Rightarrow>
    ('b, 'r, 'm, 'x) world \<Rightarrow> ('b, 'r, 'm, 'x) world" where
  "handle_failure W m e w =
     (let w1 = run_on_error (wk_middlewares W) m e w
      in if retries (mfields m) < max_retries (mfields m) then
           (let m' = mark_retry (w_now w1) m;
                backoff_delay = delay_for backoff_default (retries (mfields m') - 1)
            in snd (on_broker (b_nack (wk_broker W) m') (sleep backoff_delay w1)))
         else
           snd (on_broker (b_dead_letter (wk_broker W) (mark_dead (w_now w1) m)) w1))"

subsection \<open>Success: groups, chords and chains\<close>

definition inject_group_results :: "'v serde_api \<Rightarrow> 'v list TaskResult \<Rightarrow> 'v TaskMessage \<Rightarrow> 'v TaskMessage"
where
  "inject_group_results S gr cb =
     (case gr of
        Inl _ \<Rightarrow> cb
      | Inr vs \<Rightarrow>
          (case values_to_str S vs of
             Inl _ \<Rightarrow> cb
           | Inr json \<Rightarrow> with_header ''kojin.group_results'' json cb))"

definition finish_group_member :: "('b, 'r, 'm, 'x, 'v, 'c) Worker \<Rightarrow> ('r, 'v) ResultBackend \<Rightarrow>
    'v TaskMessage \<Rightarrow> 'v \<Rightarrow> ('b, 'r, 'm, 'x) world \<Rightarrow> ('b, 'r, 'm, 'x) world" where
  "finish_group_member W R m v w =
     (case group_id (mfields m) of
        None \<Rightarrow> w
      | Some g \<Rightarrow>
          (case on_backend (r_complete_group_member R g (msg_id m) v) w of
             (Inl _, w1) \<Rightarrow> w1
           | (Inr completed, w1) \<Rightarrow>
               if completed = (case group_total (mfields m) of None \<Rightarrow> 0 | Some n \<Rightarrow> n) then
                 (case chord_callback m of
                    None \<Rightarrow> w1
                  | Some cb \<Rightarrow>
                      (let (gr, w2) = on_backend (r_get_group_results R g) w1
                       in snd (on_broker
                            (b_enqueue (wk_broker W) (inject_group_results (wk_serde W) gr cb)) w2)))
               else w1))"

definition next_chain_message :: "'v serde_api \<Rightarrow> uuid \<Rightarrow> DateTime \<Rightarrow> string option \<Rightarrow> 'v \<Rightarrow>
    'v Signature \<Rightarrow> 'v Signature list \<Rightarrow> 'v TaskMessage" where
  "next_chain_message S u now corr v sig rest =
     (let n0 = into_message u now sig;
          n1 = (case value_to_str S v of
                  Inr json \<Rightarrow> with_header ''kojin.chain_input'' json n0 | Inl _ \<Rightarrow> n0);
          n2 = (case corr of Some c \<Rightarrow> with_correlation_id c n1 | None \<Rightarrow> n1)
      in if rest \<noteq> [] then
           (case sigs_to_str S rest of
              Inr json \<Rightarrow> with_header ''kojin.chain_next'' json n2 | Inl _ \<Rightarrow> n2)
         else n2)"

definition continue_chain :: "('b, 'r, 'm, 'x, 'v, 'c) Worker \<Rightarrow> 'v TaskMessage \<Rightarrow> 'v \<Rightarrow>
    ('b, 'r, 'm, 'x) world \<Rightarrow> ('b, 'r, 'm, 'x) world" where
  "continue_chain W m v w =
     (case headers (mfields m) ''kojin.chain_next'' of
        None \<Rightarrow> w
      | Some json \<Rightarrow>
          (case sigs_from_str (wk_serde W) json of
             Inl _ \<Rightarrow> w
           | Inr [] \<Rightarrow> w
           | Inr (sig # rest) \<Rightarrow>
               snd (on_broker (b_enqueue (wk_broker W)
                 (next_chain_message (wk_serde W) (wk_now_v7 W (w_drawn w)) (w_now w)
                    (correlation_id (mfields m)) v sig rest))
                 (w\<lparr>w_drawn := Suc (w_drawn w)\<rparr>))))"

definition handle_success :: "('b, 'r, 'm, 'x, 'v, 'c) Worker \<Rightarrow> 'v TaskMessage \<Rightarrow> 'v \<Rightarrow>
    ('b, 'r, 'm, 'x) world \<Rightarrow> ('b, 'r, 'm, 'x) world" where
  "handle_success W m v w =
     (let w1 = run_after (wk_middlewares W) m v w;
          m' = update_fields (\<lambda>f. f\<lparr>state := Success\<rparr>) m;
          w2 = snd (on_broker (b_ack (wk_broker W) (msg_id m)) w1)
      in case wk_result_backend W of
           None \<Rightarrow> w2
         | Some R \<Rightarrow>
             (let w3 = snd (on_backend (r_store R (msg_id m) v) w2);
                  w4 = finish_group_member W R m' v w3
              in continue_chain W m' v w4))"

subsection \<open>One task (execute_task)\<close>

definition run_task :: "('b, 'r, 'm, 'x, 'v, 'c) Worker \<Rightarrow> 'v TaskMessage \<Rightarrow>
    ('b, 'r, 'm, 'x) world \<Rightarrow> ('b, 'r, 'm, 'x) world" where
  "run_task W m w =
     (case run_before (wk_middlewares W) m w of
        (Inl e, w1) \<Rightarrow> handle_failure W m e w1
      | (Inr _, w1) \<Rightarrow>
          (case dispatch (wk_registry W) (task_name (mfields m)) (payload (mfields m))
                  (wk_context W) (w_app w1) of
             (Inr v, x) \<Rightarrow> handle_success W m v (w1\<lparr>w_app := x\<rparr>)
           | (Inl e, x) \<Rightarrow> handle_failure W m e (w1\<lparr>w_app := x\<rparr>)))"

definition execute_task :: "('b, 'r, 'm, 'x, 'v, 'c) Worker \<Rightarrow> 'v TaskMessage \<Rightarrow>
    ('b, 'r, 'm, 'x) world \<Rightarrow> ('b, 'r, 'm, 'x) world" where
  "execute_task W m w =
     (case eta (mfields m) of
        Some t \<Rightarrow>
          if t > w_now w then
            (let w1 = snd (on_broker (b_ack (wk_broker W) (msg_id m)) w)
             in snd (on_broker (b_schedule (wk_broker W) m t) w1))
          else run_task W (update_fields (\<lambda>f. f\<lparr>state := Started\<rparr>) m) w
      | None \<Rightarrow> run_task W (update_fields (\<lambda>f. f\<lparr>state := Started\<rparr>) m) w)"

text \<open>One round of the worker loop with nothing else running: dequeue and execute.\<close>

definition worker_round :: "('b, 'r, 'm, 'x, 'v, 'c) Worker \<Rightarrow>
    ('b, 'r, 'm, 'x) world \<Rightarrow> ('b, 'r, 'm, 'x) world" where
  "worker_round W w =
     (case on_broker (b_dequeue (wk_broker W) (wc_queues (wk_config W))
             (dequeue_timeout (wk_config W))) w of
        (Inr (Some m), w1) \<Rightarrow> execute_task W m w1
      | (Inr None, w1) \<Rightarrow> sleep (dequeue_timeout (wk_config W)) w1
      | (Inl e, w1) \<Rightarrow> sleep (duration_from_secs 1) w1)"

end
