(* ===== verification/Kojin_Cron.thy ===== *)
theory Kojin_Cron
  imports Kojin_Broker Kojin_Memory_Broker
begin

text \<open>
  The cron scheduler (\<open>cron.rs\<close>). Cron expressions are parsed and evaluated by the \<open>cron\<close>
  crate: the parser \<open>from_str\<close> and the iterator \<open>schedule.after(t).next()\<close> are arguments.
  A schedule means a set of moments, of which \<open>after\<close> finds the least beyond a time.
\<close>

record ('sc, 'v) CronEntry =
  ce_name :: string
  ce_schedule :: 'sc
  ce_signature :: "'v Signature"

definition cron_entry_new :: "(string \<Rightarrow> string + 'sc) \<Rightarrow> string \<Rightarrow> string \<Rightarrow> 'v Signature \<Rightarrow>
    ('sc, 'v) CronEntry TaskResult" where
  "cron_entry_new from_str name expression sig =
     (case from_str expression of
        Inl e \<Rightarrow> Inl (Other (''invalid cron expression: '' @ e))
      | Inr sc \<Rightarrow> Inr \<lparr>ce_name = name, ce_schedule = sc, ce_signature = sig\<rparr>)"

record ('sc, 'v) CronRegistry =
  entries :: "('sc, 'v) CronEntry list"

definition cron_registry_new :: "('sc, 'v) CronRegistry" where
  "cron_registry_new = \<lparr>entries = []\<rparr>"

definition cron_registry_add :: "('sc, 'v) CronEntry \<Rightarrow> ('sc, 'v) CronRegistry \<Rightarrow>
    ('sc, 'v) CronRegistry" where
  "cron_registry_add e r = r\<lparr>entries := entries r @ [e]\<rparr>"

definition cron_registry_is_empty :: "('sc, 'v) CronRegistry \<Rightarrow> bool" where
  "cron_registry_is_empty r \<longleftrightarrow> entries r = []"

subsection \<open>The scheduler loop\<close>

record ('b, 'sc, 'v) cron_env =
  cr_enqueue :: "'v TaskMessage \<Rightarrow> 'b \<Rightarrow> unit TaskResult \<times> 'b"
  cr_after :: "'sc \<Rightarrow> DateTime \<Rightarrow> DateTime option"
  cr_now_v7 :: "nat \<Rightarrow> uuid"
  cr_created :: "nat \<Rightarrow> DateTime"

record 'b cron_state =
  cs_last_runs :: "string \<rightharpoonup> DateTime"
  cs_broker :: 'b
  cs_drawn :: nat

definition last_run :: "DateTime \<Rightarrow> (string \<rightharpoonup> DateTime) \<Rightarrow> ('sc, 'v) CronEntry \<Rightarrow> DateTime" where
  "last_run now lr e =
     (case lr (ce_name e) of Some t \<Rightarrow> t | None \<Rightarrow> now - int nanos_per_sec)"

definition cron_due :: "('sc \<Rightarrow> DateTime \<Rightarrow> DateTime option) \<Rightarrow> DateTime \<Rightarrow>
    (string \<rightharpoonup> DateTime) \<Rightarrow> ('sc, 'v) CronEntry \<Rightarrow> bool" where
  "cron_due after now lr e =
     (case after (ce_schedule e) (last_run now lr e) of
        Some next \<Rightarrow> next \<le> now
      | None \<Rightarrow> False)"

text \<open>A failed \<open>enqueue\<close> is logged, and the run counts as done all the same.\<close>

definition cron_entry_step :: "('b, 'sc, 'v) cron_env \<Rightarrow> DateTime \<Rightarrow> ('sc, 'v) CronEntry \<Rightarrow>
    'b cron_state \<Rightarrow> 'b cron_state" where
  "cron_entry_step C now e s =
     (if cron_due (cr_after C) now (cs_last_runs s) e then
        (let m = into_message (cr_now_v7 C (cs_drawn s)) (cr_created C (cs_drawn s)) (ce_signature e)
         in s\<lparr>cs_broker := snd (cr_enqueue C m (cs_broker s)), cs_drawn := Suc (cs_drawn s),
              cs_last_runs := (cs_last_runs s)(ce_name e \<mapsto> now)\<rparr>)
      else s)"

definition cron_tick :: "('b, 'sc, 'v) cron_env \<Rightarrow> ('sc, 'v) CronRegistry \<Rightarrow> DateTime \<Rightarrow>
    'b cron_state \<Rightarrow> 'b cron_state" where
  "cron_tick C r now s = fold (cron_entry_step C now) (entries r) s"

text \<open>The loop polls at the times \<open>nows\<close> until it is cancelled.\<close>

fun scheduler_loop :: "('b, 'sc, 'v) cron_env \<Rightarrow> ('sc, 'v) CronRegistry \<Rightarrow> DateTime list \<Rightarrow>
    'b cron_state \<Rightarrow> 'b cron_state" where
  "scheduler_loop C r [] s = s"
| "scheduler_loop C r (now # nows) s = scheduler_loop C r nows (cron_tick C r now s)"

definition cron_start :: "'b \<Rightarrow> nat \<Rightarrow> 'b cron_state" where
  "cron_start b k = \<lparr>cs_last_runs = Map.empty, cs_broker = b, cs_drawn = k\<rparr>"

subsection \<open>Which entries fire\<close>

text \<open>The documented meaning of \<open>after(t).next()\<close>: the first moment of the schedule after \<open>t\<close>.\<close>

definition schedule_moments :: "('sc \<Rightarrow> DateTime \<Rightarrow> DateTime option) \<Rightarrow> 'sc \<Rightarrow> DateTime set \<Rightarrow> bool"
where
  "schedule_moments after sc S \<longleftrightarrow>
     (\<forall>t. case after sc t of
            None \<Rightarrow> \<forall>r\<in>S. r \<le> t
          | Some n \<Rightarrow> n \<in> S \<and> t < n \<and> (\<forall>r\<in>S. t < r \<longrightarrow> n \<le> r))"

lemma cron_due_iff:
  assumes "schedule_moments after (ce_schedule e) S"
  shows "cron_due after now lr e \<longleftrightarrow> (\<exists>r\<in>S. last_run now lr e < r \<and> r \<le> now)"
proof -
  from assms have "case after (ce_schedule e) (last_run now lr e) of
      None \<Rightarrow> \<forall>r\<in>S. r \<le> last_run now lr e
    | Some n \<Rightarrow> n \<in> S \<and> last_run now lr e < n \<and> (\<forall>r\<in>S. last_run now lr e < r \<longrightarrow> n \<le> r)"
    by (simp add: schedule_moments_def)
  then show ?thesis by (force simp: cron_due_def split: option.splits)
qed

lemma cron_due_upd_other:
  "ce_name e \<noteq> n \<Longrightarrow> cron_due after now (lr(n \<mapsto> t)) e = cron_due after now lr e"
  by (simp add: cron_due_def last_run_def)

lemma cron_step_due_other:
  assumes "ce_name e \<notin> ce_name ` set es" and "f \<in> set es"
  shows "cron_due after now (cs_last_runs (cron_entry_step C now e s)) f
       = cron_due after now (cs_last_runs s) f"
proof -
  from assms have "ce_name f \<noteq> ce_name e" by force
  then show ?thesis by (simp add: cron_entry_step_def Let_def cron_due_upd_other)
qed

text \<open>The runs recorded by a tick: those of the entries due, at the time of the tick.\<close>

lemma cron_tick_last_runs:
  "distinct (map ce_name es) \<Longrightarrow>
     cs_last_runs (fold (cron_entry_step C now) es s) name =
       (if \<exists>e\<in>set es. ce_name e = name \<and> cron_due (cr_after C) now (cs_last_runs s) e
        then Some now else cs_last_runs s name)"
proof (induction es arbitrary: s)
  case Nil
  then show ?case by simp
next
  case (Cons e es)
  have other: "cron_due (cr_after C) now (cs_last_runs (cron_entry_step C now e s)) f
      = cron_due (cr_after C) now (cs_last_runs s) f" if "f \<in> set es" for f
    using that Cons.prems by (intro cron_step_due_other [of e es]) auto
  have "cs_last_runs (fold (cron_entry_step C now) (e # es) s) name =
      (if \<exists>f\<in>set es. ce_name f = name \<and> cron_due (cr_after C) now (cs_last_runs s) f
       then Some now else cs_last_runs (cron_entry_step C now e s) name)"
    using Cons other by auto
  moreover have "cs_last_runs (cron_entry_step C now e s) name =
      (if ce_name e = name \<and> cron_due (cr_after C) now (cs_last_runs s) e
       then Some now else cs_last_runs s name)"
    by (auto simp: cron_entry_step_def Let_def)
  ultimately show ?case by auto
qed

context task_broker
begin

lemma cron_tick_enqueues:
  assumes "cr_enqueue C = b_enqueue B" and "distinct (map ce_name es)"
  shows "\<exists>ms. abs (cs_broker (fold (cron_entry_step C now) es s))
                = fold a_enqueue ms (abs (cs_broker s)) \<and>
    map signature_of ms = map ce_signature (filter (cron_due (cr_after C) now (cs_last_runs s)) es)"
  using assms(2)
proof (induction es arbitrary: s)
  case Nil
  then show ?case by simp
next
  case (Cons e es)
  let ?s = "cron_entry_step C now e s"
  have same: "filter (cron_due (cr_after C) now (cs_last_runs ?s)) es
      = filter (cron_due (cr_after C) now (cs_last_runs s)) es"
    using Cons.prems by (intro filter_cong refl cron_step_due_other [of e es]) auto
  from Cons obtain ms where
    ms: "abs (cs_broker (fold (cron_entry_step C now) es ?s)) = fold a_enqueue ms (abs (cs_broker ?s))"
      "map signature_of ms = map ce_signature (filter (cron_due (cr_after C) now (cs_last_runs s)) es)"
    unfolding same [symmetric] by auto
  show ?case
  proof (cases "cron_due (cr_after C) now (cs_last_runs s) e")
    case False
    then have "?s = s" by (simp add: cron_entry_step_def)
    with ms False show ?thesis by (intro exI [of _ ms]) simp
  next
    case True
    let ?m = "into_message (cr_now_v7 C (cs_drawn s)) (cr_created C (cs_drawn s)) (ce_signature e)"
    from True have "abs (cs_broker ?s) = a_enqueue ?m (abs (cs_broker s))"
      by (simp add: cron_entry_step_def Let_def assms(1) enqueue_abs)
    moreover have "signature_of ?m = ce_signature e"
      by (simp add: signature_of_def into_message_fields)
    ultimately show ?thesis using ms True by (intro exI [of _ "?m # ms"]) simp
  qed
qed

end

subsection \<open>Properties\<close>

text \<open>The runs recorded after a sequence of polls are times of polls.\<close>

lemma scheduler_last_runs:
  assumes "distinct (map ce_name (entries r))"
  shows "cs_last_runs (scheduler_loop C r nows s) name = Some t \<Longrightarrow>
    t \<in> set nows \<or> cs_last_runs s name = Some t"
proof (induction nows arbitrary: s)
  case (Cons now nows)
  from Cons.IH [of "cron_tick C r now s"] Cons.prems
  have "t \<in> set nows \<or> cs_last_runs (cron_tick C r now s) name = Some t" by simp
  then show ?case
    by (auto simp: cron_tick_def cron_tick_last_runs [OF assms] split: if_splits)
qed simp

lemma scheduler_loop_append: "scheduler_loop C r (ps @ qs) s = scheduler_loop C r qs (scheduler_loop C r ps s)"
  by (induction ps arbitrary: s) simp_all

text \<open>A poll leaves no moment behind: since the last run that it knows of, or within the second before the
  poll if it knows of none, the schedule has none up to the poll.\<close>

lemma cron_tick_leaves_none:
  assumes "distinct (map ce_name (entries r))" and "e \<in> set (entries r)"
    and "schedule_moments (cr_after C) (ce_schedule e) S" and "moment \<in> S" and "moment \<le> prev"
  shows "moment \<le> last_run prev (cs_last_runs (cron_tick C r prev s)) e"
proof (cases "cron_due (cr_after C) prev (cs_last_runs s) e")
  case True
  then have "cs_last_runs (cron_tick C r prev s) (ce_name e) = Some prev"
    using assms(2) by (auto simp: cron_tick_def cron_tick_last_runs [OF assms(1)])
  with assms(5) show ?thesis by (simp add: last_run_def)
next
  case False
  then have "\<not> (\<exists>f\<in>set (entries r). ce_name f = ce_name e \<and> cron_due (cr_after C) prev (cs_last_runs s) f)"
    using assms(1,2) by (metis distinct_map inj_on_eq_iff)
  then have "cs_last_runs (cron_tick C r prev s) (ce_name e) = cs_last_runs s (ce_name e)"
    by (auto simp: cron_tick_def cron_tick_last_runs [OF assms(1)])
  moreover have "\<not> last_run prev (cs_last_runs s) e < moment"
    using False assms(4,5) by (auto simp: cron_due_iff [OF assms(3)])
  ultimately show ?thesis by (simp add: last_run_def)
qed

lemma cron_due_since_poll:
  assumes names: "distinct (map ce_name (entries r))" and e: "e \<in> set (entries r)"
    and S: "schedule_moments (cr_after C) (ce_schedule e) S"
    and polls: "\<forall>t\<in>set ps. t \<le> prev" "prev < now" "now - prev \<le> int nanos_per_sec"
    and s_def: "s = scheduler_loop C r (ps @ [prev]) (cron_start b k)"
  shows "cron_due (cr_after C) now (cs_last_runs s) e \<longleftrightarrow> (\<exists>moment\<in>S. prev < moment \<and> moment \<le> now)"
proof -
  have before: "last_run now (cs_last_runs s) e \<le> prev"
    using scheduler_last_runs [OF names, of C "ps @ [prev]" "cron_start b k" "ce_name e"] polls
    by (auto simp: s_def last_run_def cron_start_def split: option.split)
  have "moment \<le> last_run now (cs_last_runs s) e" if "moment \<in> S" "moment \<le> prev" for moment
  proof -
    have "s = cron_tick C r prev (scheduler_loop C r ps (cron_start b k))"
      by (simp add: s_def scheduler_loop_append)
    with cron_tick_leaves_none [OF names e S that]
    have "moment \<le> last_run prev (cs_last_runs s) e" by simp
    also have "\<dots> \<le> last_run now (cs_last_runs s) e"
      using polls(2) by (simp add: last_run_def split: option.split)
    finally show ?thesis .
  qed
  with before show ?thesis unfolding cron_due_iff [OF S] by force
qed

text \<open>C34: the scheduler neither misses nor repeats a moment. While two consecutive polls are at most one
  second apart, the second one adds to the broker, in registry order, exactly one message for
  every entry whose schedule has a moment after the first poll and not after the second, and
  nothing else, whatever polls came before. The names of the entries have to differ;
  \<open>schedule_moments\<close> is the documented meaning of the \<open>cron\<close> crate's iterator.\<close>

theorem cron_enqueues_due_exactly:
  assumes "cr_enqueue C = b_enqueue (memory_broker enum)" and "distinct (map ce_name (entries r))"
    and "\<forall>e\<in>set (entries r). schedule_moments (cr_after C) (ce_schedule e) (S e)"
    and "\<forall>t\<in>set ps. t \<le> prev" and "prev < now" and "now - prev \<le> int nanos_per_sec"
    and "s = scheduler_loop C r (ps @ [prev]) (cron_start b k)"
  shows "\<exists>ms. mb_abs (cs_broker (cron_tick C r now s)) = fold a_enqueue ms (mb_abs (cs_broker s)) \<and>
    map signature_of ms
      = map ce_signature (filter (\<lambda>e. \<exists>moment\<in>S e. prev < moment \<and> moment \<le> now) (entries r))"
proof -
  have "filter (cron_due (cr_after C) now (cs_last_runs s)) (entries r)
      = filter (\<lambda>e. \<exists>moment\<in>S e. prev < moment \<and> moment \<le> now) (entries r)"
    using assms(3) by (intro filter_cong refl cron_due_since_poll [OF assms(2) _ _ assms(4-7)]) auto
  with memory.cron_tick_enqueues [OF assms(1,2), of now s] show ?thesis by (simp add: cron_tick_def)
qed

text \<open>A schedule with a single moment.\<close>

definition after_once :: "DateTime \<Rightarrow> DateTime \<Rightarrow> DateTime option" where
  "after_once sc t = (if t < sc then Some sc else None)"

lemma after_once_moments: "schedule_moments after_once sc {sc}"
  by (simp add: schedule_moments_def after_once_def)

definition cron_example :: "DateTime \<Rightarrow> (DateTime, unit) CronEntry" where
  "cron_example t = \<lparr>ce_name = ''job'', ce_schedule = t, ce_signature = signature_new ''t'' ''q'' ()\<rparr>"

definition cron_example_env :: "(unit MemoryBroker, DateTime, unit) cron_env" where
  "cron_example_env =
     \<lparr>cr_enqueue = mb_enqueue, cr_after = after_once, cr_now_v7 = of_nat, cr_created = (\<lambda>_. 0)\<rparr>"

theorem cron_enqueues_due_exactly_witness:
  "\<exists>ms. mb_abs (cs_broker (cron_tick cron_example_env \<lparr>entries = [cron_example 9500000000]\<rparr> 10000000000
       (cron_tick cron_example_env \<lparr>entries = [cron_example 9500000000]\<rparr> 9000000000 (cron_start memory_broker_new 0))))
     = fold a_enqueue ms (mb_abs (cs_broker
       (cron_tick cron_example_env \<lparr>entries = [cron_example 9500000000]\<rparr> 9000000000 (cron_start memory_broker_new 0)))) \<and>
     map signature_of ms = [signature_new ''t'' ''q'' ()]"
  using cron_enqueues_due_exactly [of cron_example_env "\<lambda>_. []" "\<lparr>entries = [cron_example 9500000000]\<rparr>"
      "\<lambda>_. {9500000000}" "[]" 9000000000 10000000000 _ memory_broker_new 0, OF _ _ _ _ _ _ refl]
    after_once_moments [of 9500000000]
  by (simp add: cron_example_def cron_example_env_def nanos_per_sec_def broker_simps)

text \<open>An entry that has never fired can miss a moment: the scheduler only looks back one second, and
  two polls are further apart than the poll interval by the time a poll takes. With polls at
  9.9995 s and 11.0005 s, a task scheduled for second 10 is never enqueued.\<close>

lemma cron_misses_moment:
  "cs_broker (scheduler_loop cron_example_env \<lparr>entries = [cron_example 10000000000]\<rparr>
     [9999500000, 11000500000] (cron_start memory_broker_new 0)) = memory_broker_new"
  by (simp add: cron_tick_def cron_entry_step_def cron_due_def last_run_def cron_start_def
      cron_example_env_def cron_example_def after_once_def nanos_per_sec_def)

end
