(* ===== verification/Kojin_Builder.thy ===== *)
theory Kojin_Builder
  imports Kojin_Worker Kojin_Cron
begin

text \<open>
  The facade's builder (\<open>kojin/src/builder.rs\<close>), with the \<open>cron\<close> and \<open>dashboard\<close> features
  on. A worker with the cron feature is the worker together with its cron registry.
\<close>

record ('b, 'r, 'm, 'x, 'v, 'k, 'a, 'sc) KojinBuilder =
  kb_broker :: "('b, 'v) Broker"
  kb_registry :: "('v, ('k, 'a) TaskContext, 'x) TaskRegistry"
  kb_context :: "('k, 'a) TaskContext"
  kb_middlewares :: "('m, 'v) Middleware list"
  kb_config :: WorkerConfig
  kb_result_backend :: "('r, 'v) ResultBackend option"
  kb_cron_registry :: "('sc, 'v) CronRegistry"
  kb_dashboard_port :: "u16 option"

record ('b, 'r, 'm, 'x, 'v, 'c, 'sc) cron_worker =
  cw_worker :: "('b, 'r, 'm, 'x, 'v, 'c) Worker"
  cw_cron_registry :: "('sc, 'v) CronRegistry option"

definition with_cron_registry :: "('sc, 'v) CronRegistry \<Rightarrow>
    ('b, 'r, 'm, 'x, 'v, 'c, 'sc) cron_worker \<Rightarrow> ('b, 'r, 'm, 'x, 'v, 'c, 'sc) cron_worker" where
  "with_cron_registry r w = w\<lparr>cw_cron_registry := Some r\<rparr>"

definition builder_new :: "('b, 'v) Broker \<Rightarrow> ('b, 'r, 'm, 'x, 'v, 'k, 'a, 'sc) KojinBuilder" where
  "builder_new B =
     \<lparr>kb_broker = B, kb_registry = registry_new, kb_context = context_new, kb_middlewares = [],
      kb_config = worker_config_default, kb_result_backend = None,
      kb_cron_registry = cron_registry_new, kb_dashboard_port = None\<rparr>"

definition kb_register_task where
  "kb_register_task T b = b\<lparr>kb_registry := register T (kb_registry b)\<rparr>"

definition kb_data where
  "kb_data t v b = b\<lparr>kb_context := context_insert t v (kb_context b)\<rparr>"

definition kb_middleware where
  "kb_middleware mw b = b\<lparr>kb_middlewares := kb_middlewares b @ [mw]\<rparr>"

definition kb_concurrency where
  "kb_concurrency n b = b\<lparr>kb_config := (kb_config b)\<lparr>concurrency := n\<rparr>\<rparr>"

definition kb_queues where
  "kb_queues qs b = b\<lparr>kb_config := (kb_config b)\<lparr>wc_queues := qs\<rparr>\<rparr>"

definition kb_shutdown_timeout where
  "kb_shutdown_timeout t b = b\<lparr>kb_config := (kb_config b)\<lparr>shutdown_timeout := t\<rparr>\<rparr>"

definition kb_set_result_backend where
  "kb_set_result_backend rb b = b\<lparr>kb_result_backend := Some rb\<rparr>"

text \<open>An invalid cron expression panics: \<open>None\<close>.\<close>

definition kb_cron where
  "kb_cron from_str name expression sig b =
     (case cron_entry_new from_str name expression sig of
        Inr entry \<Rightarrow> Some (b\<lparr>kb_cron_registry := cron_registry_add entry (kb_cron_registry b)\<rparr>)
      | Inl e \<Rightarrow> None)"

definition kb_dashboard where
  "kb_dashboard port b = b\<lparr>kb_dashboard_port := Some port\<rparr>"

definition kb_build :: "'v serde_api \<Rightarrow> (nat \<Rightarrow> uuid) \<Rightarrow>
    ('b, 'r, 'm, 'x, 'v, 'k, 'a, 'sc) KojinBuilder \<Rightarrow>
    ('b, 'r, 'm, 'x, 'v, ('k, 'a) TaskContext, 'sc) cron_worker" where
  "kb_build serde gen b =
     (let w0 = worker_new serde gen (kb_broker b) (kb_registry b) (kb_context b) (kb_config b);
          w1 = fold with_middleware (kb_middlewares b) w0;
          w2 = (case kb_result_backend b of Some rb \<Rightarrow> with_result_backend rb w1 | None \<Rightarrow> w1);
          w3 = \<lparr>cw_worker = w2, cw_cron_registry = None\<rparr>
      in if \<not> cron_registry_is_empty (kb_cron_registry b)
         then with_cron_registry (kb_cron_registry b) w3 else w3)"

subsection \<open>The worker built\<close>

lemma fold_with_middleware:
  "fold with_middleware ms W = W\<lparr>wk_middlewares := wk_middlewares W @ ms\<rparr>"
  by (induction ms arbitrary: W) (simp_all add: with_middleware_def)

lemma kb_build_eq:
  "kb_build serde gen b =
     \<lparr>cw_worker =
        \<lparr>wk_broker = kb_broker b, wk_registry = kb_registry b, wk_middlewares = kb_middlewares b,
         wk_context = kb_context b, wk_config = kb_config b,
         wk_result_backend = kb_result_backend b, wk_serde = serde, wk_now_v7 = gen\<rparr>,
      cw_cron_registry =
        (if entries (kb_cron_registry b) = [] then None else Some (kb_cron_registry b))\<rparr>"
  by (cases "kb_result_backend b")
     (simp_all add: kb_build_def Let_def fold_with_middleware worker_new_def
        with_result_backend_def with_cron_registry_def cron_registry_is_empty_def)

subsection \<open>Properties\<close>

text \<open>The built worker is the one configured: whatever was set on the builder arrives in the worker,
  the middlewares in the order in which they were added, a cron registry exactly if an entry
  was added, and a task registered last under a name handles that name. The dashboard port
  is dropped: setting it makes no difference to what is built.\<close>

lemma builder_builds_configuration:
  "cw_worker (kb_build serde gen (kb_middleware m2 (kb_middleware m1 (kb_queues qs (kb_concurrency n
       (kb_register_task T (kb_set_result_backend rb (builder_new B))))))))
     = \<lparr>wk_broker = B, wk_registry = register T registry_new, wk_middlewares = [m1, m2],
        wk_context = context_new,
        wk_config = worker_config_default\<lparr>concurrency := n, wc_queues := qs\<rparr>,
        wk_result_backend = Some rb, wk_serde = serde, wk_now_v7 = gen\<rparr> \<and>
   cw_cron_registry (kb_build serde gen b)
     = (if entries (kb_cron_registry b) = [] then None else Some (kb_cron_registry b)) \<and>
   kb_build serde gen (kb_dashboard port b) = kb_build serde gen b"
  by (simp add: kb_build_eq kb_middleware_def kb_queues_def kb_concurrency_def kb_register_task_def
      kb_set_result_backend_def builder_new_def kb_dashboard_def cron_registry_new_def)

end
