(* ===== verification/Kojin_Worker_Correct.thy ===== *)
theory Kojin_Worker_Correct
  imports Kojin_Worker "HOL-Library.Sublist"
begin

text \<open>
  What one execution of a task does to a broker that implements the abstract broker: the
  outcome of a failure, the outcome of a success, and the life of a task that always fails.
  The lemmas on one task at a time are proved in the locale \<open>single_task_broker\<close>, those on
  several in \<open>task_broker\<close>; they hold of a broker through its interpretation.
\<close>

subsection \<open>Messages along their life\<close>

lemma same_task_marks [simp]:
  "same_task m (mark_retry t m)" "same_task m (mark_dead t m)"
  "same_task m (update_fields (\<lambda>f. f\<lparr>state := st\<rparr>) m)"
  by (simp_all add: same_task_def mark_retry_def mark_dead_def)

lemma mark_sel [simp]:
  "retries (mfields (mark_retry t m)) = retries (mfields m) + 1"
  "state (mfields (mark_retry t m)) = Retry"
  "retries (mfields (mark_dead t m)) = retries (mfields m)"
  "state (mfields (mark_dead t m)) = DeadLettered"
  "msg_id (mark_retry t m) = msg_id m" "msg_id (mark_dead t m) = msg_id m"
  "msg_queue (mark_retry t m) = msg_queue m" "msg_queue (mark_dead t m) = msg_queue m"
  "max_retries (mfields (mark_retry t m)) = max_retries (mfields m)"
  by (simp_all add: mark_retry_def mark_dead_def)

abbreviation started :: "'v TaskMessage \<Rightarrow> 'v TaskMessage" where
  "started m \<equiv> update_fields (\<lambda>f. f\<lparr>state := Started\<rparr>) m"

lemma execute_task_now: "eta (mfields m) = None \<Longrightarrow> execute_task W m w = run_task W (started m) w"
  by (simp add: execute_task_def)

text \<open>The default backoff for the retries from \<open>a\<close> up to \<open>b\<close>.\<close>

definition backoff_total :: "nat \<Rightarrow> nat \<Rightarrow> Duration" where
  "backoff_total a b = (\<Sum>k = a ..< b. exponential_spec 1 300 k) * nanos_per_sec"

lemma backoff_total_step:
  "a < b \<Longrightarrow> backoff_total a b = exponential_spec 1 300 a * nanos_per_sec + backoff_total (Suc a) b"
  unfolding backoff_total_def by (subst sum.atLeast_Suc_lessThan) (simp_all add: distrib_right)

subsection \<open>Outcome of a failure\<close>

lemma handle_failure_frame [worker_simps]:
  "w_backend (handle_failure W m e w) = w_backend w"
  "w_app (handle_failure W m e w) = w_app w"
  "w_drawn (handle_failure W m e w) = w_drawn w"
  "w_mw (handle_failure W m e w) = w_mw (run_on_error (wk_middlewares W) m e w)"
  by (simp_all add: handle_failure_def Let_def worker_simps)

lemma handle_failure_clock [worker_simps]:
  "w_clock (handle_failure W m e w) =
     w_clock w + (if retries (mfields m) < max_retries (mfields m)
                  then delay_for backoff_default (retries (mfields m)) else 0)"
  by (simp add: handle_failure_def Let_def worker_simps)

lemma run_task_fails:
  assumes "\<And>x. \<exists>e y. dispatch (wk_registry W) (task_name (mfields m)) (payload (mfields m))
             (wk_context W) x = (Inl e, y)"
  shows "\<exists>e v. run_task W m w = handle_failure W m e v \<and>
           w_broker v = w_broker w \<and> w_clock v = w_clock w \<and> w_now v = w_now w"
proof -
  obtain r w1 where before: "run_before (wk_middlewares W) m w = (r, w1)" by fastforce
  have w1: "w_broker w1 = w_broker w \<and> w_clock w1 = w_clock w \<and> w_now w1 = w_now w"
    using run_before_sel [of "wk_middlewares W" m w] before by simp
  obtain e y where "dispatch (wk_registry W) (task_name (mfields m)) (payload (mfields m))
      (wk_context W) (w_app w1) = (Inl e, y)"
    using assms by blast
  note disp = this
  show ?thesis
  proof (cases r)
    case (Inl e')
    with before w1 have "run_task W m w = handle_failure W m e' w1" by (simp add: run_task_def)
    with w1 show ?thesis by blast
  next
    case (Inr u)
    with before disp have "run_task W m w = handle_failure W m e (w1\<lparr>w_app := y\<rparr>)"
      by (simp add: run_task_def)
    moreover have "w_broker (w1\<lparr>w_app := y\<rparr>) = w_broker w"
      "w_clock (w1\<lparr>w_app := y\<rparr>) = w_clock w" "w_now (w1\<lparr>w_app := y\<rparr>) = w_now w"
      using w1 by simp_all
    ultimately show ?thesis by blast
  qed
qed

context task_broker
begin

lemma handle_failure_abs:
  assumes "wk_broker W = B"
  shows "abs (w_broker (handle_failure W m e w)) =
    (if retries (mfields m) < max_retries (mfields m)
     then a_nack (mark_retry (w_now w) m) (abs (w_broker w))
     else a_dead_letter (mark_dead (w_now w) m) (abs (w_broker w)))"
  using assms by (simp add: handle_failure_def Let_def worker_simps broker_laws)

lemma round_pops:
  assumes W: "wk_broker W = B" and q: "q \<in> set (wc_queues (wk_config W))"
    and eta: "eta (mfields m) = None" and abs: "abs (w_broker w) = queued_with q (m # ms) d"
  obtains w1 where "worker_round W w = run_task W (started m) w1"
    and "abs (w_broker w1) =
      \<lparr>a_queued = (\<lambda>_. [])(q := ms), a_flight = [msg_id m \<mapsto> m], a_dead = d\<rparr>"
    and "w_backend w1 = w_backend w" "w_app w1 = w_app w" "w_mw w1 = w_mw w"
      "w_clock w1 = w_clock w" "w_now w1 = w_now w" "w_drawn w1 = w_drawn w"
proof
  let ?w = "snd (on_broker (b_dequeue B (wc_queues (wk_config W)) (dequeue_timeout (wk_config W))) w)"
  have "fst (on_broker (b_dequeue B (wc_queues (wk_config W)) (dequeue_timeout (wk_config W))) w)
      = Inr (Some m)"
    by (simp add: worker_simps dequeue_ok abs a_pop_queued_with [OF q])
  then show "worker_round W w = run_task W (started m) ?w"
    by (simp add: worker_round_def W execute_task_now [OF eta] case_prod_beta)
qed (simp_all add: worker_simps dequeue_abs abs a_pop_queued_with [OF q])

lemma failed_round_abs:
  assumes W: "wk_broker W = B"
    and w: "abs (w_broker w) =
      \<lparr>a_queued = (\<lambda>_. [])(msg_queue m := []), a_flight = [msg_id m \<mapsto> m], a_dead = d\<rparr>"
  shows "abs (w_broker (handle_failure W (started m) e w)) =
    (if retries (mfields m) < max_retries (mfields m)
     then idle_with (mark_retry (w_now w) (started m)) d
     else idle (d(msg_queue m := d (msg_queue m) @ [mark_dead (w_now w) (started m)])))"
  by (simp add: handle_failure_abs [OF W] w abstract_broker_defs queued_with_def idle_def)

end

context single_task_broker
begin

lemma round_takes:
  assumes W: "wk_broker W = B" and q: "msg_queue m \<in> set (wc_queues (wk_config W))"
    and eta: "eta (mfields m) = None" and held: "holds m d (w_broker w)"
  obtains w1 where "worker_round W w = run_task W (started m) w1" and "flying m d (w_broker w1)"
    and "w_backend w1 = w_backend w" "w_app w1 = w_app w" "w_mw w1 = w_mw w"
      "w_clock w1 = w_clock w" "w_now w1 = w_now w" "w_drawn w1 = w_drawn w"
proof
  let ?w = "snd (on_broker (b_dequeue B (wc_queues (wk_config W)) (dequeue_timeout (wk_config W))) w)"
  have "fst (on_broker (b_dequeue B (wc_queues (wk_config W)) (dequeue_timeout (wk_config W))) w)
      = Inr (Some m)"
    by (simp add: worker_simps dequeue_held [OF held q])
  then show "worker_round W w = run_task W (started m) ?w"
    by (simp add: worker_round_def W execute_task_now [OF eta] case_prod_beta)
qed (simp_all add: worker_simps dequeue_flying [OF held q])

lemma failed_round:
  assumes W: "wk_broker W = B" and m: "good m" and w: "flying m d (w_broker w)"
  shows "if retries (mfields m) < max_retries (mfields m)
    then holds (mark_retry (w_now w) (started m)) d (w_broker (handle_failure W (started m) e w))
    else vacant (d(msg_queue m := d (msg_queue m) @ [mark_dead (w_now w) (started m)]))
      (w_broker (handle_failure W (started m) e w))"
proof -
  have same: "same_task m (mark_retry t (started m))" "same_task m (mark_dead t (started m))" for t
    by (auto intro: same_task_trans [of m "started m"])
  show ?thesis
    by (simp add: handle_failure_def Let_def W worker_simps nack_holds [OF w] dead_letter_vacant [OF w]
        same good_same [OF m])
qed

lemma failing_round:
  assumes W: "wk_broker W = B" and q: "msg_queue m \<in> set (wc_queues (wk_config W))"
    and fails: "\<And>x. \<exists>e y. dispatch (wk_registry W) (task_name (mfields m)) (payload (mfields m))
             (wk_context W) x = (Inl e, y)"
    and m: "eta (mfields m) = None" "good m" and held: "holds m d (w_broker w)"
  shows "if retries (mfields m) < max_retries (mfields m)
      then holds (mark_retry (w_now w) (started m)) d (w_broker (worker_round W w))
      else vacant (d(msg_queue m := d (msg_queue m) @ [mark_dead (w_now w) (started m)]))
        (w_broker (worker_round W w))"
    and "w_clock (worker_round W w) = w_clock w +
          (if retries (mfields m) < max_retries (mfields m)
           then delay_for backoff_default (retries (mfields m)) else 0)"
proof -
  obtain w1 where round: "worker_round W w = run_task W (started m) w1"
    and w1: "flying m d (w_broker w1)" "w_clock w1 = w_clock w" "w_now w1 = w_now w"
    using round_takes [OF W q m(1) held] by metis
  obtain e v where run: "run_task W (started m) w1 = handle_failure W (started m) e v"
    and v: "w_broker v = w_broker w1" "w_clock v = w_clock w1" "w_now v = w_now w1"
    using run_task_fails [of W "started m" w1] fails by auto
  show "if retries (mfields m) < max_retries (mfields m)
      then holds (mark_retry (w_now w) (started m)) d (w_broker (worker_round W w))
      else vacant (d(msg_queue m := d (msg_queue m) @ [mark_dead (w_now w) (started m)]))
        (w_broker (worker_round W w))"
    using failed_round [OF W m(2), of d v e] w1 v by (auto simp: round run split: if_splits)
  show "w_clock (worker_round W w) = w_clock w +
      (if retries (mfields m) < max_retries (mfields m)
       then delay_for backoff_default (retries (mfields m)) else 0)"
    by (simp add: round run worker_simps v w1)
qed

text \<open>
  A task that fails whenever it runs is run once more than it has retries left, with the
  backoff delays in between, and then lies in the dead-letter queue.
\<close>

lemma failing_task_exhausts:
  assumes W: "wk_broker W = B"
    and fails: "\<And>x. \<exists>e y. dispatch (wk_registry W) name p (wk_context W) x = (Inl e, y)"
  shows "\<lbrakk>n = unat (max_retries (mfields m)) - unat (retries (mfields m));
      retries (mfields m) \<le> max_retries (mfields m);
      msg_queue m \<in> set (wc_queues (wk_config W));
      task_name (mfields m) = name; payload (mfields m) = p; eta (mfields m) = None; good m;
      holds m d (w_broker w)\<rbrakk> \<Longrightarrow>
    \<exists>dead. vacant (d(msg_queue m := d (msg_queue m) @ [dead])) (w_broker ((worker_round W ^^ Suc n) w)) \<and>
           same_task m dead \<and> state (mfields dead) = DeadLettered \<and>
           retries (mfields dead) = max_retries (mfields m) \<and>
           w_clock ((worker_round W ^^ Suc n) w) = w_clock w +
             backoff_total (unat (retries (mfields m))) (unat (max_retries (mfields m)))"
proof (induction n arbitrary: m w)
  case 0
  from 0 have "unat (retries (mfields m)) = unat (max_retries (mfields m))"
    by (simp add: word_le_nat_alt)
  then have eq: "retries (mfields m) = max_retries (mfields m)" by (rule unsigned_word_eqI)
  note round = failing_round [OF W 0(3) _ 0(6-8)]
  from 0 fails eq have "vacant (d(msg_queue m := d (msg_queue m) @ [mark_dead (w_now w) (started m)]))
      (w_broker (worker_round W w))" and "w_clock (worker_round W w) = w_clock w"
    using round by simp_all
  with eq show ?case
    by (intro exI [of _ "mark_dead (w_now w) (started m)"])
       (simp add: backoff_total_def fun_upd_def same_task_trans [of m "started m"])
next
  case (Suc n)
  let ?m = "mark_retry (w_now w) (started m)" and ?w = "worker_round W w"
  from Suc.prems(1) have less: "retries (mfields m) < max_retries (mfields m)"
    by (simp add: word_less_nat_alt)
  note inc = unat_Suc_less [OF less]
  have step: "holds ?m d (w_broker ?w)"
    "w_clock ?w = w_clock w + delay_for backoff_default (retries (mfields m))"
    using failing_round [OF W Suc.prems(3) _ Suc.prems(6-8)] Suc.prems fails less by simp_all
  have same: "same_task m ?m" by (auto intro: same_task_trans [of m "started m"])
  then have fields: "msg_queue ?m = msg_queue m" "task_name (mfields ?m) = name"
    "payload (mfields ?m) = p" "eta (mfields ?m) = None" "good ?m"
    using Suc.prems good_same [OF Suc.prems(7) same] by (simp_all add: same_task_def)
  have "n = unat (max_retries (mfields ?m)) - unat (retries (mfields ?m))"
    and "retries (mfields ?m) \<le> max_retries (mfields ?m)"
    using Suc.prems(1) less by (simp_all add: inc word_le_nat_alt word_less_nat_alt)
  from Suc.IH [OF this _ fields(2-5) step(1)] fields(1) Suc.prems(3) obtain dead where
    dead: "vacant (d(msg_queue m := d (msg_queue m) @ [dead])) (w_broker ((worker_round W ^^ Suc n) ?w))"
      "same_task ?m dead"
      "state (mfields dead) = DeadLettered" "retries (mfields dead) = max_retries (mfields m)"
      "w_clock ((worker_round W ^^ Suc n) ?w) = w_clock ?w +
         backoff_total (unat (retries (mfields ?m))) (unat (max_retries (mfields ?m)))"
    by (auto simp: fun_upd_def)
  have funpow: "(worker_round W ^^ Suc (Suc n)) w = (worker_round W ^^ Suc n) ?w"
    by (simp add: funpow_swap1)
  have "w_clock ((worker_round W ^^ Suc (Suc n)) w) = w_clock w +
      backoff_total (unat (retries (mfields m))) (unat (max_retries (mfields m)))"
    unfolding funpow using dead(5) step(2) less
    by (simp add: inc delay_for_default backoff_total_step word_less_nat_alt
        del: delay_for.simps run_on_error.simps)
  with dead same_task_trans [OF same dead(2)] show ?case unfolding funpow by blast
qed

end


subsection \<open>Outcome of a success\<close>

lemma finish_group_member_frame [worker_simps]:
  "w_app (finish_group_member W R m v w) = w_app w"
  "w_clock (finish_group_member W R m v w) = w_clock w"
  "w_now (finish_group_member W R m v w) = w_now w"
  "w_drawn (finish_group_member W R m v w) = w_drawn w"
  using on_backend_sel [of "r_complete_group_member R (the (group_id (mfields m))) (msg_id m) v" w]
  by (auto simp: finish_group_member_def Let_def on_broker_sel on_backend_sel case_prod_beta
      split: option.split sum.split prod.splits)

lemma finish_group_member_no_group [simp]:
  "group_id (mfields m) = None \<Longrightarrow> finish_group_member W R m v w = w"
  by (simp add: finish_group_member_def)

lemma continue_chain_frame [worker_simps]:
  "w_app (continue_chain W m v w) = w_app w"
  "w_clock (continue_chain W m v w) = w_clock w"
  "w_now (continue_chain W m v w) = w_now w"
  "w_backend (continue_chain W m v w) = w_backend w"
  by (simp_all add: continue_chain_def worker_simps split: option.split sum.split list.split)

lemma continue_chain_end [simp]:
  "headers (mfields m) ''kojin.chain_next'' = None \<Longrightarrow> continue_chain W m v w = w"
  by (simp add: continue_chain_def)

lemma handle_success_frame [worker_simps]:
  "w_app (handle_success W m v w) = w_app w"
  "w_clock (handle_success W m v w) = w_clock w"
  "w_now (handle_success W m v w) = w_now w"
  by (simp_all add: handle_success_def Let_def worker_simps split: option.split)

lemma run_task_succeeds:
  assumes "\<forall>M\<in>set (wk_middlewares W). observer M"
    and "dispatch (wk_registry W) (task_name (mfields m)) (payload (mfields m)) (wk_context W)
           (w_app w) = (Inr v, x)"
  obtains w' where "run_task W m w = handle_success W m v w'"
    and "w_broker w' = w_broker w" "w_backend w' = w_backend w" "w_app w' = x"
    "w_clock w' = w_clock w" "w_now w' = w_now w" "w_drawn w' = w_drawn w"
proof -
  obtain r w1 where before: "run_before (wk_middlewares W) m w = (r, w1)" by fastforce
  then have "r = Inr ()" using run_before_observers [OF assms(1), of m w] by simp
  moreover note sel = run_before_sel [of "wk_middlewares W" m w, unfolded before]
  ultimately have "run_task W m w = handle_success W m v (w1\<lparr>w_app := x\<rparr>)"
    using before assms(2) by (simp add: run_task_def)
  then show ?thesis by (rule that) (use sel in simp_all)
qed

subsection \<open>A chain\<close>

text \<open>
  The tasks of the signatures run one after the other on the application state, as long as
  they succeed; the values and the final state.
\<close>

fun run_sigs :: "('v, 'c, 'x) TaskRegistry \<Rightarrow> 'c \<Rightarrow> 'v Signature list \<Rightarrow> 'x \<Rightarrow>
    ('v list \<times> 'x) option" where
  "run_sigs reg ctx [] x = Some ([], x)"
| "run_sigs reg ctx (s # ss) x =
     (case dispatch reg (sig_task_name s) (sig_payload s) ctx x of
        (Inl e, y) \<Rightarrow> None
      | (Inr v, y) \<Rightarrow> map_option (\<lambda>(vs, z). (v # vs, z)) (run_sigs reg ctx ss y))"

text \<open>The serializer prints the rest of a chain so that it reads it back.\<close>

fun chain_serde :: "'v serde_api \<Rightarrow> 'v Signature list \<Rightarrow> bool" where
  "chain_serde S [] \<longleftrightarrow> True"
| "chain_serde S (s # ss) \<longleftrightarrow>
     (case sigs_to_str S (s # ss) of
        Inl e \<Rightarrow> False
      | Inr json \<Rightarrow> (case sigs_from_str S json of Inl e \<Rightarrow> False | Inr xs \<Rightarrow> xs = s # ss)) \<and>
     chain_serde S ss"

text \<open>A signature a chain can run at once: due, on a polled queue, without a chain of its own.\<close>

definition chain_step_ok :: "string list \<Rightarrow> 'v Signature \<Rightarrow> bool" where
  "chain_step_ok qs s \<longleftrightarrow>
     sig_queue s \<in> set qs \<and> sig_eta s = None \<and> sig_headers s ''kojin.chain_next'' = None"

definition chain_message :: "'v serde_api \<Rightarrow> 'v Signature \<Rightarrow> 'v Signature list \<Rightarrow> 'v TaskMessage \<Rightarrow> bool"
where
  "chain_message S s rest m \<longleftrightarrow>
     task_name (mfields m) = sig_task_name s \<and> payload (mfields m) = sig_payload s \<and>
     msg_queue m = sig_queue s \<and> eta (mfields m) = None \<and> group_id (mfields m) = None \<and>
     headers (mfields m) ''kojin.chain_next'' =
       (if rest = [] then None
        else case sigs_to_str S rest of Inr json \<Rightarrow> Some json | Inl e \<Rightarrow> None)"

lemma next_chain_message_corr:
  "correlation_id (mfields (next_chain_message S u now c v s rest)) = c"
  by (auto simp: next_chain_message_def Let_def message_simps split: sum.split option.split)

lemma next_chain_message_ok:
  assumes "chain_step_ok qs s" and "chain_serde S rest"
  shows "chain_message S s rest (next_chain_message S u now corr v s rest)"
  using assms
  by (cases rest)
     (auto simp: chain_step_ok_def chain_message_def next_chain_message_def Let_def message_simps
        split: sum.split option.split sum.splits)

context task_broker
begin

lemma successful_round:
  assumes W: "wk_broker W = B" "\<forall>M\<in>set (wk_middlewares W). observer M"
    and q: "q \<in> set (wc_queues (wk_config W))" and eta: "eta (mfields m) = None"
    and abs: "abs (w_broker w) = queued_with q (m # ms) d"
    and disp: "dispatch (wk_registry W) (task_name (mfields m)) (payload (mfields m))
      (wk_context W) (w_app w) = (Inr v, x)"
  obtains w' where "worker_round W w = handle_success W (started m) v w'"
    and "abs (w_broker w') =
      \<lparr>a_queued = (\<lambda>_. [])(q := ms), a_flight = [msg_id m \<mapsto> m], a_dead = d\<rparr>"
    and "w_backend w' = w_backend w" "w_app w' = x" "w_clock w' = w_clock w" "w_now w' = w_now w"
      "w_drawn w' = w_drawn w"
proof -
  obtain w1 where round: "worker_round W w = run_task W (started m) w1"
    and w1: "abs (w_broker w1) =
        \<lparr>a_queued = (\<lambda>_. [])(q := ms), a_flight = [msg_id m \<mapsto> m], a_dead = d\<rparr>"
      "w_clock w1 = w_clock w" "w_now w1 = w_now w" "w_app w1 = w_app w" "w_drawn w1 = w_drawn w"
      "w_backend w1 = w_backend w"
    using round_pops [OF W(1) q eta abs] by metis
  show ?thesis
    by (rule run_task_succeeds [OF W(2), of "started m" w1 v x])
       (use disp round w1 that in auto)
qed

end

context single_task_broker
begin

lemma chain_round:
  assumes W: "wk_broker W = B" "wk_result_backend W = Some R"
      "\<forall>M\<in>set (wk_middlewares W). observer M"
    and m: "chain_message (wk_serde W) s rest m" "chain_serde (wk_serde W) rest"
      "chain_step_ok (wc_queues (wk_config W)) s"
    and good_next: "\<And>u n t ts. rest = t # ts \<Longrightarrow>
      good (next_chain_message (wk_serde W) u n (correlation_id (mfields m)) v t ts)"
    and disp: "dispatch (wk_registry W) (sig_task_name s) (sig_payload s) (wk_context W) (w_app w)
      = (Inr v, x)"
    and held: "holds m d (w_broker w)"
  shows "w_app (worker_round W w) = x" "w_clock (worker_round W w) = w_clock w"
    "case rest of
       [] \<Rightarrow> vacant d (w_broker (worker_round W w))
     | t # ts \<Rightarrow> holds (next_chain_message (wk_serde W) (wk_now_v7 W (w_drawn w)) (w_now w)
                   (correlation_id (mfields m)) v t ts) d (w_broker (worker_round W w))"
proof -
  have q: "msg_queue m \<in> set (wc_queues (wk_config W))" and eta: "eta (mfields m) = None"
    and grp: "group_id (mfields m) = None"
    using m by (simp_all add: chain_message_def chain_step_ok_def)
  obtain w1 where round: "worker_round W w = run_task W (started m) w1"
    and w1: "flying m d (w_broker w1)" "w_app w1 = w_app w" "w_clock w1 = w_clock w"
      "w_now w1 = w_now w" "w_drawn w1 = w_drawn w"
    using round_takes [OF W(1) q eta held] by metis
  obtain w2 where run: "worker_round W w = handle_success W (started m) v w2"
    and w2: "w_broker w2 = w_broker w1" "w_app w2 = x" "w_clock w2 = w_clock w" "w_now w2 = w_now w"
      "w_drawn w2 = w_drawn w"
    by (rule run_task_succeeds [OF W(3), of "started m" w1 v x])
       (use disp m(1) round w1 in \<open>auto simp: chain_message_def\<close>)
  show "w_app (worker_round W w) = x" "w_clock (worker_round W w) = w_clock w"
    by (simp_all add: run worker_simps w2)
  have vacant: "vacant d (snd (b_ack B (msg_id m) (w_broker w1)))" by (rule ack_vacant [OF w1(1)])
  show "case rest of
       [] \<Rightarrow> vacant d (w_broker (worker_round W w))
     | t # ts \<Rightarrow> holds (next_chain_message (wk_serde W) (wk_now_v7 W (w_drawn w)) (w_now w)
                   (correlation_id (mfields m)) v t ts) d (w_broker (worker_round W w))"
  proof (cases rest)
    case Nil
    then have "headers (mfields m) ''kojin.chain_next'' = None"
      using m(1) by (simp add: chain_message_def)
    with Nil vacant show ?thesis
      by (simp add: run handle_success_def Let_def W grp worker_simps w2)
  next
    case (Cons t ts)
    then obtain json where "headers (mfields m) ''kojin.chain_next'' = Some json"
      and "sigs_from_str (wk_serde W) json = Inr (t # ts)"
      using m(1,2) by (auto simp: chain_message_def split: sum.splits)
    with Cons enqueue_holds [OF vacant good_next] show ?thesis
      by (simp add: run handle_success_def Let_def W grp worker_simps w2 continue_chain_def)
  qed
qed

lemma chain_runs:
  assumes W: "wk_broker W = B" "wk_result_backend W = Some R"
      "\<forall>M\<in>set (wk_middlewares W). observer M"
    and good_next: "\<And>t ts u n v. suffix (t # ts) whole \<Longrightarrow>
      good (next_chain_message (wk_serde W) u n c v t ts)"
  shows "\<lbrakk>chain_message (wk_serde W) s rest m; correlation_id (mfields m) = c;
      chain_serde (wk_serde W) rest; suffix rest whole;
      list_all (chain_step_ok (wc_queues (wk_config W))) (s # rest);
      run_sigs (wk_registry W) (wk_context W) (s # rest) (w_app w) = Some (vs, y);
      holds m d (w_broker w)\<rbrakk> \<Longrightarrow>
    vacant d (w_broker ((worker_round W ^^ length (s # rest)) w)) \<and>
    w_app ((worker_round W ^^ length (s # rest)) w) = y"
proof (induction rest arbitrary: s m w vs)
  case Nil
  then obtain v where "dispatch (wk_registry W) (sig_task_name s) (sig_payload s) (wk_context W)
      (w_app w) = (Inr v, y)"
    by (auto split: prod.splits sum.splits)
  from chain_round [OF W Nil(1) _ _ _ this Nil(7)] Nil(5) show ?case by simp
next
  case (Cons t ts)
  from Cons.prems(6) obtain v x vs' where
    disp: "dispatch (wk_registry W) (sig_task_name s) (sig_payload s) (wk_context W) (w_app w)
      = (Inr v, x)" and rest: "run_sigs (wk_registry W) (wk_context W) (t # ts) x = Some (vs', y)"
    by (fastforce simp del: run_sigs.simps(2) simp: run_sigs.simps(2) [of _ _ s]
        split: prod.splits sum.splits)
  let ?w = "worker_round W w"
  have ok: "chain_step_ok (wc_queues (wk_config W)) s" "chain_step_ok (wc_queues (wk_config W)) t"
    using Cons.prems(5) by simp_all
  have good: "t # ts = t' # ts' \<Longrightarrow>
      good (next_chain_message (wk_serde W) u n (correlation_id (mfields m)) v t' ts')" for u n t' ts'
    using good_next Cons.prems(2,4) by simp
  note round = chain_round [OF W Cons.prems(1,3) ok(1) good disp Cons.prems(7)]
  have serde: "chain_serde (wk_serde W) ts" using Cons.prems(3) by simp
  have corr: "correlation_id (mfields (next_chain_message (wk_serde W) u n c v t ts)) = c" for u n
    by (simp add: next_chain_message_corr)
  have "vacant d (w_broker ((worker_round W ^^ length (t # ts)) ?w)) \<and>
      w_app ((worker_round W ^^ length (t # ts)) ?w) = y"
    by (rule Cons.IH [OF next_chain_message_ok [OF ok(2) serde] corr serde])
       (use Cons.prems(2,4,5) rest round in \<open>simp_all add: suffix_ConsD\<close>)
  then show ?case by (simp add: funpow_swap1)
qed

end

subsection \<open>Tasks with a time in the future\<close>

context immediate_broker
begin

lemma eta_round:
  assumes W: "wk_broker W = B" and eta: "eta (mfields m) = Some t" "w_now w < t"
    and q: "msg_queue m \<in> set (wc_queues (wk_config W))" and abs: "abs (w_broker w) = idle_with m d"
  shows "abs (w_broker (worker_round W w)) = idle_with m d \<and> w_app (worker_round W w) = w_app w \<and>
    w_mw (worker_round W w) = w_mw w \<and> w_now (worker_round W w) = w_now w \<and>
    w_clock (worker_round W w) = w_clock w"
proof -
  let ?w = "snd (on_broker (b_dequeue B (wc_queues (wk_config W)) (dequeue_timeout (wk_config W))) w)"
  have "fst (on_broker (b_dequeue B (wc_queues (wk_config W)) (dequeue_timeout (wk_config W))) w)
      = Inr (Some m)"
    by (simp add: worker_simps dequeue_ok abs a_pop_queued_with [OF q])
  moreover have "w_now ?w < t" using eta(2) by (simp add: worker_simps)
  ultimately have "worker_round W w = snd (on_broker (b_schedule B m t)
      (snd (on_broker (b_ack B (msg_id m)) ?w)))"
    by (simp add: worker_round_def execute_task_def W eta(1) case_prod_beta Let_def)
  then show ?thesis
    by (simp add: worker_simps broker_laws schedule_abs abs a_pop_queued_with [OF q] a_enqueue_def
        a_ack_def)
       (simp add: queued_with_def)
qed

lemma eta_rounds:
  assumes W: "wk_broker W = B" and eta: "eta (mfields m) = Some t" "w_now w < t"
    and q: "msg_queue m \<in> set (wc_queues (wk_config W))" and abs: "abs (w_broker w) = idle_with m d"
  shows "abs (w_broker ((worker_round W ^^ n) w)) = idle_with m d \<and>
    w_app ((worker_round W ^^ n) w) = w_app w \<and> w_mw ((worker_round W ^^ n) w) = w_mw w \<and>
    w_now ((worker_round W ^^ n) w) = w_now w \<and> w_clock ((worker_round W ^^ n) w) = w_clock w"
proof (induction n)
  case (Suc n)
  with eta_round [OF W eta(1) _ q, of "(worker_round W ^^ n) w" d] eta(2) show ?case by simp
qed (simp add: abs)

end

subsection \<open>Deduplication and retries\<close>

text \<open>
  With the deduplication middleware alone, a message whose key is live is not dispatched: it
  is handled as a failure, whatever its own history.
\<close>

lemma run_task_duplicate:
  assumes "wk_middlewares W = [dedup_mw]" and "dedup_key (mfields m) = Some k"
    and "key_live (w_clock w) k (w_mw w)"
  shows "run_task W m w = handle_failure W m (Duplicate k) w"
  using assms by (simp add: run_task_def dedup_mw_def dedup_before_cases)

lemma run_on_error_dedup: "run_on_error [dedup_mw] m e w = w"
  by (simp add: dedup_mw_def default_on_error_def)

context task_broker
begin

lemma duplicate_rounds:
  assumes W: "wk_broker W = B" "wk_middlewares W = [dedup_mw]"
  shows "\<lbrakk>n = unat (max_retries (mfields m)) - unat (retries (mfields m));
      retries (mfields m) \<le> max_retries (mfields m);
      msg_queue m \<in> set (wc_queues (wk_config W)); eta (mfields m) = None;
      dedup_key (mfields m) = Some k;
      key_live (w_clock w + backoff_total (unat (retries (mfields m))) (unat (max_retries (mfields m))))
        k (w_mw w);
      abs (w_broker w) = idle_with m d\<rbrakk> \<Longrightarrow>
    w_app ((worker_round W ^^ Suc n) w) = w_app w \<and>
    (\<exists>dead. abs (w_broker ((worker_round W ^^ Suc n) w))
             = idle (d(msg_queue m := d (msg_queue m) @ [dead])) \<and> same_task m dead)"
proof (induction n arbitrary: m w)
  case 0
  then have eq: "\<not> retries (mfields m) < max_retries (mfields m)"
    by (simp add: word_less_nat_alt word_le_nat_alt)
  have live: "key_live (w_clock w) k (w_mw w)" using 0(6) by (rule key_live_mono) simp
  obtain w1 where round: "worker_round W w = run_task W (started m) w1"
    and w1: "abs (w_broker w1) =
        \<lparr>a_queued = (\<lambda>_. [])(msg_queue m := []), a_flight = [msg_id m \<mapsto> m], a_dead = d\<rparr>"
      "w_app w1 = w_app w" "w_mw w1 = w_mw w" "w_clock w1 = w_clock w"
    using round_pops [OF W(1) 0(3,4,7)] by metis
  have "worker_round W w = handle_failure W (started m) (Duplicate k) w1"
    using run_task_duplicate [OF W(2), of "started m" k w1] 0(5) live round w1 by simp
  then show ?case
    using failed_round_abs [OF W(1) w1(1), of "Duplicate k"] eq w1(2)
    by (auto simp: worker_simps fun_upd_def intro!: exI [of _ "mark_dead (w_now w1) (started m)"]
        intro: same_task_trans [of m "started m"])
next
  case (Suc n)
  from Suc.prems(1) have less: "retries (mfields m) < max_retries (mfields m)"
    by (simp add: word_less_nat_alt)
  note inc = unat_Suc_less [OF less]
  have live: "key_live (w_clock w) k (w_mw w)" using Suc.prems(6) by (rule key_live_mono) simp
  obtain w1 where round: "worker_round W w = run_task W (started m) w1"
    and w1: "abs (w_broker w1) =
        \<lparr>a_queued = (\<lambda>_. [])(msg_queue m := []), a_flight = [msg_id m \<mapsto> m], a_dead = d\<rparr>"
      "w_app w1 = w_app w" "w_mw w1 = w_mw w" "w_clock w1 = w_clock w"
    using round_pops [OF W(1) Suc.prems(3,4,7)] by metis
  let ?m = "mark_retry (w_now w1) (started m)" and ?w = "worker_round W w"
  have eq: "?w = handle_failure W (started m) (Duplicate k) w1"
    using run_task_duplicate [OF W(2), of "started m" k w1] Suc.prems(5) live round w1 by simp
  have w': "abs (w_broker ?w) = idle_with ?m d" "w_app ?w = w_app w" "w_mw ?w = w_mw w"
    "w_clock ?w = w_clock w + delay_for backoff_default (retries (mfields m))"
    using failed_round_abs [OF W(1) w1(1), of "Duplicate k"] less w1
    by (simp_all add: eq worker_simps W(2) run_on_error_dedup del: delay_for.simps run_on_error.simps)
  have same: "same_task m ?m" by (auto intro: same_task_trans [of m "started m"])
  have "w_app ((worker_round W ^^ Suc n) ?w) = w_app ?w \<and>
      (\<exists>dead. abs (w_broker ((worker_round W ^^ Suc n) ?w))
         = idle (d(msg_queue ?m := d (msg_queue ?m) @ [dead])) \<and> same_task ?m dead)"
  proof (rule Suc.IH)
    show "n = unat (max_retries (mfields ?m)) - unat (retries (mfields ?m))"
      "retries (mfields ?m) \<le> max_retries (mfields ?m)"
      using Suc.prems(1) less by (simp_all add: inc word_le_nat_alt word_less_nat_alt)
    show "key_live (w_clock ?w + backoff_total (unat (retries (mfields ?m)))
        (unat (max_retries (mfields ?m)))) k (w_mw ?w)"
      using Suc.prems(6) less
      by (simp add: w' inc delay_for_default backoff_total_step word_less_nat_alt add.assoc
          del: delay_for.simps run_on_error.simps)
  qed (use Suc.prems same w'(1) in \<open>simp_all add: same_task_def\<close>)
  moreover have "(worker_round W ^^ Suc (Suc n)) w = (worker_round W ^^ Suc n) ?w"
    by (simp add: funpow_swap1)
  ultimately show ?case using w'(2) same_task_trans [OF same]
    by (auto simp: fun_upd_def simp del: funpow.simps)
qed

lemma dedup_failing_task:
  assumes W: "wk_broker W = B" "wk_middlewares W = [dedup_mw]"
    and m: "retries (mfields m) < max_retries (mfields m)"
      "msg_queue m \<in> set (wc_queues (wk_config W))" "eta (mfields m) = None"
      "dedup_key (mfields m) = Some k"
    and fresh: "\<not> key_live (w_clock w) k (w_mw w)"
    and short: "backoff_total (unat (retries (mfields m))) (unat (max_retries (mfields m))) < ttl (w_mw w)"
    and disp: "dispatch (wk_registry W) (task_name (mfields m)) (payload (mfields m)) (wk_context W)
      (w_app w) = (Inl e, y)"
    and abs: "abs (w_broker w) = idle_with m d"
    and n: "n = unat (max_retries (mfields m)) - unat (retries (mfields m))"
  shows "w_app ((worker_round W ^^ Suc n) w) = y \<and>
    (\<exists>dead. abs (w_broker ((worker_round W ^^ Suc n) w))
             = idle (d(msg_queue m := d (msg_queue m) @ [dead])) \<and> same_task m dead)"
proof -
  obtain w1 where round: "worker_round W w = run_task W (started m) w1"
    and w1: "abs (w_broker w1) =
        \<lparr>a_queued = (\<lambda>_. [])(msg_queue m := []), a_flight = [msg_id m \<mapsto> m], a_dead = d\<rparr>"
      "w_app w1 = w_app w" "w_mw w1 = w_mw w" "w_clock w1 = w_clock w"
    using round_pops [OF W(1) m(2,3) abs] by metis
  define v where "v = w1\<lparr>w_mw := (w_mw w)\<lparr>seen := (seen (w_mw w))(k \<mapsto> w_clock w)\<rparr>, w_app := y\<rparr>"
  let ?w = "worker_round W w" and ?m = "mark_retry (w_now w1) (started m)"
  have eq: "?w = handle_failure W (started m) e v"
    using m(4) fresh disp
    by (simp add: round run_task_def W(2) dedup_mw_def dedup_before_cases w1 v_def)
  have v: "abs (w_broker v) =
      \<lparr>a_queued = (\<lambda>_. [])(msg_queue m := []), a_flight = [msg_id m \<mapsto> m], a_dead = d\<rparr>"
    "w_now v = w_now w1" "w_clock v = w_clock w" "w_app v = y"
    by (simp_all add: v_def w1)
  have w': "abs (w_broker ?w) = idle_with ?m d" "w_app ?w = y" "w_mw ?w = w_mw v"
    "w_clock ?w = w_clock w + delay_for backoff_default (retries (mfields m))"
    using failed_round_abs [OF W(1) v(1), of e] m(1)
    by (simp_all add: eq worker_simps W(2) run_on_error_dedup v del: delay_for.simps run_on_error.simps)
  note inc = unat_Suc_less [OF m(1)]
  have same: "same_task m ?m" by (auto intro: same_task_trans [of m "started m"])
  from n m(1) obtain n' where n': "n = Suc n'" "n' = unat (max_retries (mfields m)) - Suc (unat (retries (mfields m)))"
    by (cases n) (auto simp: word_less_nat_alt)
  have "w_app ((worker_round W ^^ Suc n') ?w) = w_app ?w \<and>
      (\<exists>dead. abs (w_broker ((worker_round W ^^ Suc n') ?w))
         = idle (d(msg_queue ?m := d (msg_queue ?m) @ [dead])) \<and> same_task ?m dead)"
  proof (rule duplicate_rounds [OF W])
    show "n' = unat (max_retries (mfields ?m)) - unat (retries (mfields ?m))"
      "retries (mfields ?m) \<le> max_retries (mfields ?m)"
      using n'(2) m(1) by (simp_all add: inc word_le_nat_alt word_less_nat_alt)
    show "key_live (w_clock ?w + backoff_total (unat (retries (mfields ?m)))
        (unat (max_retries (mfields ?m)))) k (w_mw ?w)"
      using short m(1)
      by (simp add: w' v_def inc delay_for_default backoff_total_step word_less_nat_alt key_live_def
          saturating_duration_since_def del: delay_for.simps run_on_error.simps)
  qed (use m same w'(1) in \<open>simp_all add: same_task_def\<close>)
  moreover have "(worker_round W ^^ Suc n) w = (worker_round W ^^ Suc n') ?w"
    by (simp add: n'(1) funpow_swap1)
  ultimately show ?thesis using w'(2) same_task_trans [OF same]
    by (auto simp: fun_upd_def simp del: funpow.simps)
qed

end

end
