(* ===== verification/Kojin_Canvas.thy ===== *)
theory Kojin_Canvas
  imports Kojin_Worker_Correct
begin

text \<open>
  Workflows (\<open>canvas.rs\<close>): the canvas type, its submission to a broker and a result
  backend, and the runs of the submitted workflows by a worker. A submission draws UUIDs and
  reads the clock; the \<open>k\<close>-th draw gives \<open>se_now_v7 E k\<close> and happens at \<open>se_now E k\<close>.
\<close>

subsection \<open>Canvas\<close>

datatype (dead 'v) Canvas =
  Single "'v Signature"
| Chain "'v Canvas list"
| Group "'v Canvas list"
| Chord "'v Canvas list" "'v Canvas"

record WorkflowHandle =
  wh_id :: string
  wh_task_ids :: "TaskId list"

definition chain_macro :: "'v Signature list \<Rightarrow> 'v Canvas" where
  "chain_macro sigs = Chain (map Single sigs)"

definition group_macro :: "'v Signature list \<Rightarrow> 'v Canvas" where
  "group_macro sigs = Group (map Single sigs)"

definition chord :: "'v Signature list \<Rightarrow> 'v Signature \<Rightarrow> 'v Canvas" where
  "chord group_items callback = Chord (map Single group_items) (Single callback)"

definition sig_bitor :: "'v Signature \<Rightarrow> 'v Signature \<Rightarrow> 'v Canvas" where
  "sig_bitor self rhs = Chain [Single self, Single rhs]"

definition canvas_from :: "'v Signature \<Rightarrow> 'v Canvas" where
  "canvas_from sig = Single sig"

text \<open>Groups and chords nested in a chain, and anything nested in a group, are skipped.\<close>

fun flatten_chain :: "'v Canvas list \<Rightarrow> 'v Signature list" where
  "flatten_chain [] = []"
| "flatten_chain (Single sig # steps) = sig # flatten_chain steps"
| "flatten_chain (Chain inner # steps) = flatten_chain inner @ flatten_chain steps"
| "flatten_chain (Group ms # steps) = flatten_chain steps"
| "flatten_chain (Chord ms cb # steps) = flatten_chain steps"

fun flatten_group :: "'v Canvas list \<Rightarrow> 'v Signature list" where
  "flatten_group [] = []"
| "flatten_group (Single sig # ms) = sig # flatten_group ms"
| "flatten_group (Chain inner # ms) = flatten_group ms"
| "flatten_group (Group inner # ms) = flatten_group ms"
| "flatten_group (Chord inner cb # ms) = flatten_group ms"

lemma flatten_chain_Single [simp]: "flatten_chain (map Single sigs) = sigs"
  by (induction sigs) simp_all

lemma flatten_group_Single [simp]: "flatten_group (map Single sigs) = sigs"
  by (induction sigs) simp_all

lemma flatten_chain_append: "flatten_chain (xs @ ys) = flatten_chain xs @ flatten_chain ys"
  by (induction xs rule: flatten_chain.induct) simp_all

subsection \<open>Submission\<close>

record ('b, 'r, 'v) submit_env =
  se_broker :: "('b, 'v) Broker"
  se_backend :: "('r, 'v) ResultBackend"
  se_serde :: "'v serde_api"
  se_now_v7 :: "nat \<Rightarrow> uuid"
  se_now :: "nat \<Rightarrow> DateTime"
  se_uuid_fmt :: "uuid \<Rightarrow> string"

record ('b, 'r) submission =
  sub_broker :: 'b
  sub_backend :: 'r
  sub_drawn :: nat
  sub_task_ids :: "TaskId list"

definition draw_message :: "('b, 'r, 'v) submit_env \<Rightarrow> 'v Signature \<Rightarrow> ('b, 'r) submission \<Rightarrow>
    'v TaskMessage \<times> ('b, 'r) submission" where
  "draw_message E sig s =
     (into_message (se_now_v7 E (sub_drawn s)) (se_now E (sub_drawn s)) sig,
      s\<lparr>sub_drawn := Suc (sub_drawn s)\<rparr>)"

definition draw_group_id :: "('b, 'r, 'v) submit_env \<Rightarrow> ('b, 'r) submission \<Rightarrow>
    string \<times> ('b, 'r) submission" where
  "draw_group_id E s =
     (se_uuid_fmt E (se_now_v7 E (sub_drawn s)), s\<lparr>sub_drawn := Suc (sub_drawn s)\<rparr>)"

text \<open>\<open>task_ids.push(msg.id); broker.enqueue(msg).await?\<close>\<close>

definition submit_message :: "('b, 'r, 'v) submit_env \<Rightarrow> 'v TaskMessage \<Rightarrow> ('b, 'r) submission \<Rightarrow>
    unit TaskResult \<times> ('b, 'r) submission" where
  "submit_message E m s =
     (let (r, b) = b_enqueue (se_broker E) m (sub_broker s)
      in (r, s\<lparr>sub_broker := b, sub_task_ids := sub_task_ids s @ [msg_id m]\<rparr>))"

definition group_member :: "string \<Rightarrow> string \<Rightarrow> u32 \<Rightarrow> 'v TaskMessage option \<Rightarrow> 'v TaskMessage \<Rightarrow>
    'v TaskMessage" where
  "group_member corr g n cb m =
     (let m1 = with_group g n (with_correlation_id corr m)
      in case cb of None \<Rightarrow> m1 | Some c \<Rightarrow> with_chord_callback c m1)"

fun submit_members :: "('b, 'r, 'v) submit_env \<Rightarrow> string \<Rightarrow> string \<Rightarrow> u32 \<Rightarrow> 'v TaskMessage option \<Rightarrow>
    'v Signature list \<Rightarrow> ('b, 'r) submission \<Rightarrow> unit TaskResult \<times> ('b, 'r) submission" where
  "submit_members E corr g n cb [] s = (Inr (), s)"
| "submit_members E corr g n cb (sig # sigs) s =
     (let (m, s1) = draw_message E sig s
      in case submit_message E (group_member corr g n cb m) s1 of
           (Inl e, s2) \<Rightarrow> (Inl e, s2)
         | (Inr _, s2) \<Rightarrow> submit_members E corr g n cb sigs s2)"

text \<open>A chain whose rest does not serialize panics: \<open>None\<close>.\<close>

definition chain_head :: "'v serde_api \<Rightarrow> string \<Rightarrow> 'v Signature list \<Rightarrow> 'v TaskMessage \<Rightarrow>
    'v TaskMessage option" where
  "chain_head S corr rest m =
     (let m1 = with_correlation_id corr m
      in if rest = [] then Some m1
         else case sigs_to_str S rest of
                Inl e \<Rightarrow> None
              | Inr json \<Rightarrow> Some (with_header ''kojin.chain_next'' json m1))"

definition init_group_sub :: "('b, 'r, 'v) submit_env \<Rightarrow> string \<Rightarrow> u32 \<Rightarrow> ('b, 'r) submission \<Rightarrow>
    unit TaskResult \<times> ('b, 'r) submission" where
  "init_group_sub E g n s =
     (let (r, x) = r_init_group (se_backend E) g n (sub_backend s) in (r, s\<lparr>sub_backend := x\<rparr>))"

fun apply_inner :: "('b, 'r, 'v) submit_env \<Rightarrow> string \<Rightarrow> 'v Canvas \<Rightarrow> ('b, 'r) submission \<Rightarrow>
    (unit TaskResult \<times> ('b, 'r) submission) option" where
  "apply_inner E corr (Single sig) s =
     (let (m, s1) = draw_message E sig s
      in Some (submit_message E (with_correlation_id corr m) s1))"
| "apply_inner E corr (Chain steps) s =
     (case flatten_chain steps of
        [] \<Rightarrow> Some (Inr (), s)
      | sig # rest \<Rightarrow>
          (let (m, s1) = draw_message E sig s
           in case chain_head (se_serde E) corr rest m of
                None \<Rightarrow> None
              | Some first \<Rightarrow> Some (submit_message E first s1)))"
| "apply_inner E corr (Group members) s =
     (let (g, s1) = draw_group_id E s;
          sigs = flatten_group members;
          n = of_nat (length sigs)
      in case init_group_sub E g n s1 of
           (Inl e, s2) \<Rightarrow> Some (Inl e, s2)
         | (Inr _, s2) \<Rightarrow> Some (submit_members E corr g n None sigs s2))"
| "apply_inner E corr (Chord members callback) s =
     (let (g, s1) = draw_group_id E s;
          sigs = flatten_group members;
          n = of_nat (length sigs)
      in case init_group_sub E g n s1 of
           (Inl e, s2) \<Rightarrow> Some (Inl e, s2)
         | (Inr _, s2) \<Rightarrow>
             (case flatten_chain [callback] of
                [] \<Rightarrow> Some (Inr (), s2)
              | csig # _ \<Rightarrow>
                  (let (cb, s3) = draw_message E csig s2
                   in Some (submit_members E corr g n (Some cb) sigs s3))))"

definition canvas_apply :: "('b, 'r, 'v) submit_env \<Rightarrow> 'v Canvas \<Rightarrow> ('b, 'r) submission \<Rightarrow>
    (WorkflowHandle TaskResult \<times> ('b, 'r) submission) option" where
  "canvas_apply E canvas s =
     (let (corr, s1) = draw_group_id E s
      in case apply_inner E corr canvas (s1\<lparr>sub_task_ids := []\<rparr>) of
           None \<Rightarrow> None
         | Some (Inl e, s2) \<Rightarrow> Some (Inl e, s2)
         | Some (Inr _, s2) \<Rightarrow> Some (Inr \<lparr>wh_id = corr, wh_task_ids = sub_task_ids s2\<rparr>, s2))"

subsection \<open>Workers over a broker and a group store\<close>

text \<open>Storing a result does not touch the groups.\<close>

locale workflow =
  task_broker B abs +
  group_store "r_init_group R" "r_complete_group_member R" "r_get_group_results R" fresh grp
  for B :: "('b, 'v) Broker" and abs :: "'b \<Rightarrow> 'v abstract_broker"
    and R :: "('r, 'v) ResultBackend" and fresh :: "string \<Rightarrow> 'r \<Rightarrow> bool"
    and grp :: "string \<Rightarrow> (TaskId \<times> 'v) list \<Rightarrow> 'r \<Rightarrow> bool" +
  assumes store_grp: "grp g xs s \<Longrightarrow> grp g xs (snd (r_store R i v s))"

interpretation memory_workflow: workflow "memory_broker enum" mb_abs "memory_result_backend f"
  "\<lambda>g s. True" mr_grp
  by unfold_locales
     (auto simp: backend_simps mr_store_def mr_grp_def mr_init_group_def
        mr_complete_group_member_def mr_get_group_results_def split: option.splits)

text \<open>A member of a chord of \<open>n\<close> tasks on queue \<open>q\<close>, ready to run.\<close>

definition chord_member :: "string \<Rightarrow> nat \<Rightarrow> 'v TaskMessage \<Rightarrow> string \<Rightarrow> 'v TaskMessage \<Rightarrow> bool" where
  "chord_member g n cb q m \<longleftrightarrow>
     group_id (mfields m) = Some g \<and> group_total (mfields m) = Some (of_nat n) \<and>
     chord_callback m = Some cb \<and> msg_queue m = q \<and> eta (mfields m) = None \<and>
     headers (mfields m) ''kojin.chain_next'' = None"

text \<open>The messages of the members of a group, drawn from the \<open>k\<close>-th UUID on.\<close>

fun member_messages :: "('b, 'r, 'v) submit_env \<Rightarrow> string \<Rightarrow> string \<Rightarrow> u32 \<Rightarrow> 'v TaskMessage option \<Rightarrow>
    nat \<Rightarrow> 'v Signature list \<Rightarrow> 'v TaskMessage list" where
  "member_messages E corr g n cb k [] = []"
| "member_messages E corr g n cb k (sig # sigs) =
     group_member corr g n cb (into_message (se_now_v7 E k) (se_now E k) sig) #
     member_messages E corr g n cb (Suc k) sigs"

lemma length_member_messages [simp]:
  "length (member_messages E corr g n cb k sigs) = length sigs"
  by (induction sigs arbitrary: k) simp_all

lemma group_member_sel [simp]:
  "msg_id (group_member corr g n cb m) = msg_id m"
  "msg_queue (group_member corr g n cb m) = msg_queue m"
  "signature_of (group_member corr g n cb m) = signature_of m"
  by (cases cb; simp add: group_member_def signature_of_def message_simps)+

lemma signature_of_into_message [simp]: "signature_of (into_message u t sig) = sig"
  by (simp add: signature_of_def into_message_fields)

lemma member_messages_signatures [simp]:
  "map signature_of (member_messages E corr g n cb k sigs) = sigs"
  by (induction sigs arbitrary: k) simp_all

lemma member_messages_ids:
  "map msg_id (member_messages E corr g n cb k sigs) = map (TaskId \<circ> se_now_v7 E) [k ..< k + length sigs]"
proof (induction sigs arbitrary: k)
  case (Cons sig sigs)
  have "[k ..< k + length (sig # sigs)] = k # [Suc k ..< Suc k + length sigs]"
    by (subst upt_conv_Cons) simp_all
  with Cons [of "Suc k"] show ?case by (simp add: into_message_fields del: upt_Suc)
qed simp

lemma member_messages_chord:
  assumes "list_all (\<lambda>s. chain_step_ok [q] s) sigs"
  shows "list_all (chord_member g n cb q) (member_messages E corr g (of_nat n) (Some cb) k sigs)"
  using assms
  by (induction sigs arbitrary: k)
     (simp_all add: chord_member_def chain_step_ok_def group_member_def message_simps)

lemma fold_enqueue_queued:
  "\<forall>m\<in>set ms. msg_queue m = q \<Longrightarrow> fold a_enqueue ms (queued_with q ns d) = queued_with q (ns @ ms) d"
  by (induction ms arbitrary: ns) (simp_all add: a_enqueue_def queued_with_def)

context workflow
begin

lemma finish_chord_member:
  assumes W: "wk_broker W = B"
    and m: "chord_member g n cb q m" and grp: "grp g xs (w_backend w)"
    and new: "msg_id m \<notin> fst ` set xs" and n: "Suc (length xs) \<le> n" "n < 2 ^ 32"
  shows "Suc (length xs) < n \<Longrightarrow> finish_group_member W R m v w =
           snd (on_backend (r_complete_group_member R g (msg_id m) v) w)" (is "_ \<Longrightarrow> ?early")
    and "Suc (length xs) = n \<Longrightarrow> \<exists>vs. mset vs = mset (map snd xs @ [v]) \<and>
           abs (w_broker (finish_group_member W R m v w)) =
             a_enqueue (inject_group_results (wk_serde W) (Inr vs) cb) (abs (w_broker w))"
      (is "_ \<Longrightarrow> ?last")
proof -
  obtain r w1 where call: "on_backend (r_complete_group_member R g (msg_id m) v) w = (r, w1)"
    by fastforce
  have r: "r = Inr (of_nat (Suc (length xs)))"
    using on_backend_sel(1) [of "r_complete_group_member R g (msg_id m) v" w] call
      complete_ok [OF grp new, of v] by simp
  have w1: "grp g (xs @ [(msg_id m, v)]) (w_backend w1)" "w_broker w1 = w_broker w"
    using on_backend_sel(2,3) [of "r_complete_group_member R g (msg_id m) v" w] call
      complete_grp [OF grp new, of v] by simp_all
  have eq: "(of_nat (Suc (length xs)) :: u32) = of_nat n \<longleftrightarrow> Suc (length xs) = n"
    using n by (intro of_nat_u32_inject) simp_all
  show ?early if "Suc (length xs) < n"
    using m that eq call r by (simp add: finish_group_member_def chord_member_def del: of_nat_Suc)
  from results_grp [OF w1(1)] obtain vs where
    vs: "fst (r_get_group_results R g (w_backend w1)) = Inr vs" "mset vs = mset (map snd xs @ [v])"
    by auto
  show ?last if "Suc (length xs) = n"
  proof (intro exI conjI)
    show "mset vs = mset (map snd xs @ [v])" by (rule vs(2))
    show "abs (w_broker (finish_group_member W R m v w)) =
        a_enqueue (inject_group_results (wk_serde W) (Inr vs) cb) (abs (w_broker w))"
      using m that call r vs(1) w1(2)
      by (simp add: finish_group_member_def chord_member_def case_prod_beta W worker_simps
          enqueue_abs del: of_nat_Suc)
  qed
qed

lemma chord_round:
  assumes W: "wk_broker W = B" "wk_result_backend W = Some R"
      "\<forall>M\<in>set (wk_middlewares W). observer M" "q \<in> set (wc_queues (wk_config W))"
    and m: "chord_member g n cb q m"
    and abs: "abs (w_broker w) = queued_with q (m # ms) d"
    and grp: "grp g xs (w_backend w)" and new: "msg_id m \<notin> fst ` set xs"
    and n: "Suc (length xs) \<le> n" "n < 2 ^ 32"
    and disp: "dispatch (wk_registry W) (task_name (mfields m)) (payload (mfields m))
      (wk_context W) (w_app w) = (Inr v, x)"
  shows "w_app (worker_round W w) = x"
    and "Suc (length xs) < n \<Longrightarrow> abs (w_broker (worker_round W w)) = queued_with q ms d \<and>
      grp g (xs @ [(msg_id m, v)]) (w_backend (worker_round W w))"
    and "Suc (length xs) = n \<Longrightarrow> \<exists>vs. mset vs = mset (map snd xs @ [v]) \<and>
      abs (w_broker (worker_round W w)) =
        a_enqueue (inject_group_results (wk_serde W) (Inr vs) cb) (queued_with q ms d)"
proof -
  have eta: "eta (mfields m) = None" using m by (simp add: chord_member_def)
  obtain w2 where run: "worker_round W w = handle_success W (started m) v w2"
    and w2: "abs (w_broker w2) =
        \<lparr>a_queued = (\<lambda>_. [])(q := ms), a_flight = [msg_id m \<mapsto> m], a_dead = d\<rparr>"
      "w_app w2 = x" "w_backend w2 = w_backend w"
    using successful_round [OF W(1,3,4) eta abs disp] by metis
  show "w_app (worker_round W w) = x" by (simp add: run worker_simps w2)
  define m' where "m' = update_fields (\<lambda>f. f\<lparr>state := Success\<rparr>) (started m)"
  define w3 where "w3 = snd (on_backend (r_store R (msg_id m) v)
    (snd (on_broker (b_ack B (msg_id m)) (run_after (wk_middlewares W) (started m) v w2))))"
  have m': "chord_member g n cb q m'" "msg_id m' = msg_id m"
    using m by (simp_all add: m'_def chord_member_def)
  have "headers (mfields m') ''kojin.chain_next'' = None"
    using m'(1) by (simp add: chord_member_def)
  then have round: "worker_round W w = finish_group_member W R m' v w3"
    by (simp add: run handle_success_def Let_def W w3_def m'_def)
  have w3: "grp g xs (w_backend w3)" "abs (w_broker w3) = queued_with q ms d"
    using grp by (simp_all add: w3_def worker_simps w2 store_grp ack_abs a_ack_def queued_with_def)
  have new': "msg_id m' \<notin> fst ` set xs" using new m'(2) by simp
  note fin = finish_chord_member [OF W(1) m'(1) w3(1) new' n, of v]
  show "abs (w_broker (worker_round W w)) = queued_with q ms d \<and>
      grp g (xs @ [(msg_id m, v)]) (w_backend (worker_round W w))" if "Suc (length xs) < n"
    using fin(1) [OF that] w3 complete_grp [OF w3(1) new', of v] m'(2)
    by (simp add: round worker_simps)
  show "\<exists>vs. mset vs = mset (map snd xs @ [v]) \<and> abs (w_broker (worker_round W w)) =
      a_enqueue (inject_group_results (wk_serde W) (Inr vs) cb) (queued_with q ms d)"
    if "Suc (length xs) = n"
    using fin(2) [OF that] by (simp add: round w3)
qed

lemma chord_runs:
  assumes W: "wk_broker W = B" "wk_result_backend W = Some R"
      "\<forall>M\<in>set (wk_middlewares W). observer M" "q \<in> set (wc_queues (wk_config W))"
    and n: "n < 2 ^ 32"
  shows "\<lbrakk>ms \<noteq> []; list_all (chord_member g n cb q) ms; length xs + length ms = n;
      distinct (map fst xs @ map msg_id ms); grp g xs (w_backend w);
      abs (w_broker w) = queued_with q ms d;
      run_sigs (wk_registry W) (wk_context W) (map signature_of ms) (w_app w) = Some (vs, y)\<rbrakk> \<Longrightarrow>
    (\<forall>k<length ms. abs (w_broker ((worker_round W ^^ k) w)) = queued_with q (drop k ms) d) \<and>
    (\<exists>us. mset us = mset (map snd xs @ vs) \<and>
      abs (w_broker ((worker_round W ^^ length ms) w)) =
        a_enqueue (inject_group_results (wk_serde W) (Inr us) cb) (idle d)) \<and>
    w_app ((worker_round W ^^ length ms) w) = y"
proof (induction ms arbitrary: xs w vs)
  case Nil
  then show ?case by simp
next
  case (Cons m ms)
  from Cons.prems(7) obtain v x vs' where
    disp: "dispatch (wk_registry W) (task_name (mfields m)) (payload (mfields m)) (wk_context W)
      (w_app w) = (Inr v, x)"
    and rest: "run_sigs (wk_registry W) (wk_context W) (map signature_of ms) x = Some (vs', y)"
    and vs: "vs = v # vs'"
    by (auto split: prod.splits sum.splits)
  have m: "chord_member g n cb q m" "msg_id m \<notin> fst ` set xs" "Suc (length xs) \<le> n"
    using Cons.prems(2-4) by auto
  let ?w = "worker_round W w"
  note round = chord_round [OF W m(1) Cons.prems(6,5) m(2,3) n disp]
  show ?case
  proof (cases "ms = []")
    case True
    then have "Suc (length xs) = n" using Cons.prems(3) by simp
    from round(1) round(3) [OF this] rest Cons.prems(6) True show ?thesis
      by (auto simp: vs queued_with_Nil)
  next
    case False
    then have "Suc (length xs) < n" using Cons.prems(3) by (cases ms) simp_all
    note next_round = round(2) [OF this]
    have IH: "(\<forall>k<length ms. abs (w_broker ((worker_round W ^^ k) ?w)) = queued_with q (drop k ms) d) \<and>
        (\<exists>us. mset us = mset (map snd (xs @ [(msg_id m, v)]) @ vs') \<and>
          abs (w_broker ((worker_round W ^^ length ms) ?w)) =
            a_enqueue (inject_group_results (wk_serde W) (Inr us) cb) (idle d)) \<and>
        w_app ((worker_round W ^^ length ms) ?w) = y"
      by (rule Cons.IH [OF False])
         (use Cons.prems(2-4) next_round rest round(1) in auto)
    have "abs (w_broker ((worker_round W ^^ k) w)) = queued_with q (drop k (m # ms)) d"
      if "k < length (m # ms)" for k
      using that IH Cons.prems(6) by (cases k) (simp_all add: funpow_swap1)
    with IH show ?thesis by (auto simp: vs funpow_swap1)
  qed
qed

subsection \<open>What a submission leaves in the broker\<close>

lemma submit_message_sel:
  assumes "se_broker E = B"
  shows "fst (submit_message E m s) = Inr ()"
    "abs (sub_broker (snd (submit_message E m s))) = a_enqueue m (abs (sub_broker s))"
    "sub_backend (snd (submit_message E m s)) = sub_backend s"
    "sub_drawn (snd (submit_message E m s)) = sub_drawn s"
    "sub_task_ids (snd (submit_message E m s)) = sub_task_ids s @ [msg_id m]"
  using assms enqueue_ok [of m "sub_broker s"] enqueue_abs [of m "sub_broker s"]
  by (simp_all add: submit_message_def case_prod_beta Let_def)

lemma submit_members_abs:
  assumes "se_broker E = B"
  shows "fst (submit_members E corr g n cb sigs s) = Inr () \<and>
    abs (sub_broker (snd (submit_members E corr g n cb sigs s))) =
      fold a_enqueue (member_messages E corr g n cb (sub_drawn s) sigs) (abs (sub_broker s)) \<and>
    sub_backend (snd (submit_members E corr g n cb sigs s)) = sub_backend s \<and>
    sub_task_ids (snd (submit_members E corr g n cb sigs s)) =
      sub_task_ids s @ map msg_id (member_messages E corr g n cb (sub_drawn s) sigs)"
proof (induction sigs arbitrary: s)
  case Nil
  then show ?case by simp
next
  case (Cons sig sigs)
  let ?m = "group_member corr g n cb (into_message (se_now_v7 E (sub_drawn s)) (se_now E (sub_drawn s)) sig)"
  let ?s = "s\<lparr>sub_drawn := Suc (sub_drawn s)\<rparr>"
  obtain r s2 where sub: "submit_message E ?m ?s = (r, s2)" by fastforce
  note sel = submit_message_sel [OF assms, of ?m ?s, unfolded sub fst_conv snd_conv]
  have "submit_members E corr g n cb (sig # sigs) s = submit_members E corr g n cb sigs s2"
    using sel(1) sub by (simp add: draw_message_def)
  with Cons.IH [of s2] sel show ?case by simp
qed

lemma apply_chain:
  assumes E: "se_broker E = B" and steps: "flatten_chain steps = sig # rest"
    and ok: "chain_step_ok qs sig" "chain_serde (se_serde E) rest"
  shows "\<exists>m s'. canvas_apply E (Chain steps) s =
      Some (Inr \<lparr>wh_id = se_uuid_fmt E (se_now_v7 E (sub_drawn s)), wh_task_ids = [msg_id m]\<rparr>, s') \<and>
    abs (sub_broker s') = a_enqueue m (abs (sub_broker s)) \<and> sub_backend s' = sub_backend s \<and>
    chain_message (se_serde E) sig rest m \<and>
    correlation_id (mfields m) = Some (se_uuid_fmt E (se_now_v7 E (sub_drawn s)))"
proof -
  let ?corr = "se_uuid_fmt E (se_now_v7 E (sub_drawn s))" and ?k = "Suc (sub_drawn s)"
  let ?m0 = "into_message (se_now_v7 E ?k) (se_now E ?k) sig"
  obtain m where head: "chain_head (se_serde E) ?corr rest ?m0 = Some m"
    and m: "chain_message (se_serde E) sig rest m" "correlation_id (mfields m) = Some ?corr"
    using ok
    by (cases rest)
       (auto simp: chain_head_def Let_def chain_message_def chain_step_ok_def message_simps
          split: sum.splits)
  let ?s = "s\<lparr>sub_task_ids := [], sub_drawn := Suc ?k\<rparr>"
  obtain r s' where sub: "submit_message E m ?s = (r, s')" by fastforce
  note sel = submit_message_sel [OF E, of m ?s, unfolded sub fst_conv snd_conv]
  have "canvas_apply E (Chain steps) s = Some (Inr \<lparr>wh_id = ?corr, wh_task_ids = [msg_id m]\<rparr>, s')"
    using sub head sel
    by (simp add: canvas_apply_def draw_group_id_def draw_message_def steps)
  with m sel show ?thesis by auto
qed

lemma apply_chord:
  fixes E :: "('b, 'r, 'v) submit_env" and sigs :: "'v Signature list"
    and csig :: "'v Signature"
  assumes E: "se_broker E = B" "se_backend E = R"
    and fresh: "fresh (se_uuid_fmt E (se_now_v7 E (Suc (sub_drawn s)))) (sub_backend s)"
  defines "corr \<equiv> se_uuid_fmt E (se_now_v7 E (sub_drawn s))"
    and "g \<equiv> se_uuid_fmt E (se_now_v7 E (Suc (sub_drawn s)))"
    and "cb \<equiv> into_message (se_now_v7 E (Suc (Suc (sub_drawn s)))) (se_now E (Suc (Suc (sub_drawn s)))) csig"
  defines "ms \<equiv> member_messages E corr g (of_nat (length sigs)) (Some cb) (Suc (Suc (Suc (sub_drawn s)))) sigs"
  shows "\<exists>s'. canvas_apply E (chord sigs csig) s =
      Some (Inr \<lparr>wh_id = corr, wh_task_ids = map msg_id ms\<rparr>, s') \<and>
    abs (sub_broker s') = fold a_enqueue ms (abs (sub_broker s)) \<and> grp g [] (sub_backend s')"
proof -
  let ?k = "sub_drawn s" and ?n = "of_nat (length sigs) :: u32"
  obtain r x where init: "r_init_group R g ?n (sub_backend s) = (r, x)" by fastforce
  then have r: "r = Inr ()" and x: "grp g [] x"
    using init_ok [of g "sub_backend s" ?n] init_grp [of g "sub_backend s" ?n] fresh
    by (simp_all add: g_def)
  let ?s = "s\<lparr>sub_task_ids := [], sub_backend := x, sub_drawn := Suc (Suc (Suc ?k))\<rparr>"
  obtain q s' where sub: "submit_members E corr g ?n (Some cb) sigs ?s = (q, s')" by fastforce
  note sel = submit_members_abs [OF E(1), of corr g ?n "Some cb" sigs ?s, unfolded sub fst_conv snd_conv]
  have "canvas_apply E (chord sigs csig) s =
      Some (Inr \<lparr>wh_id = corr, wh_task_ids = sub_task_ids s'\<rparr>, s')"
    using sub sel init r
    by (simp add: canvas_apply_def draw_group_id_def draw_message_def chord_def init_group_sub_def
        E flip: corr_def g_def cb_def)
  with sel x show ?thesis by (simp add: ms_def)
qed

end

end
