(* ===== verification/Kojin_Task_Steps.thy ===== *)
theory Kojin_Task_Steps
  imports Kojin_Worker_Correct
begin

text \<open>
  A spawned task, await point by await point (\<open>worker.rs\<close>: \<open>execute_task\<close>, \<open>handle_failure\<close>).

  \<open>execute_task\<close> is an async function: between two of its awaited calls other tasks run. A \<open>stage\<close>
  is the point at which a task is suspended, and \<open>task_step\<close> does what the task does up to the
  end of its next awaited call. The calls themselves (of a middleware, a handler, a broker, a
  result backend) are atomic. A task that is alone goes through its stages to the end
  with the effect of \<open>execute_task\<close>.
\<close>

subsection \<open>Stages\<close>

datatype 'v stage =
  Spawned "'v TaskMessage"
| Rescheduling "'v TaskMessage" DateTime
| InBefore "'v TaskMessage" nat
| InAfter "'v TaskMessage" 'v nat
| Storing "'v TaskMessage" 'v
| Grouping "'v TaskMessage" 'v
| Collecting "'v TaskMessage" 'v string "'v TaskMessage"
| Firing "'v TaskMessage" 'v "'v TaskMessage"
| Chaining "'v TaskMessage" 'v
| InError "'v TaskMessage" KojinError nat
| Sleeping "'v TaskMessage" Instant
| Nacking "'v TaskMessage"

fun stage_message :: "'v stage \<Rightarrow> 'v TaskMessage" where
  "stage_message (Spawned m) = m"
| "stage_message (Rescheduling m t) = m"
| "stage_message (InBefore m k) = m"
| "stage_message (InAfter m v k) = m"
| "stage_message (Storing m v) = m"
| "stage_message (Grouping m v) = m"
| "stage_message (Collecting m v g cb) = m"
| "stage_message (Firing m v cb) = m"
| "stage_message (Chaining m v) = m"
| "stage_message (InError m e k) = m"
| "stage_message (Sleeping m t) = m"
| "stage_message (Nacking m) = m"

abbreviation stage_id :: "'v stage \<Rightarrow> TaskId" where
  "stage_id st \<equiv> msg_id (stage_message st)"

text \<open>
  The counters of \<open>InBefore\<close>, \<open>InAfter\<close> and \<open>InError\<close> say how many middlewares have been called;
  when all have, \<open>InBefore\<close> dispatches, \<open>InAfter\<close> acknowledges, \<open>InError\<close> decides about the retry.
  A task that sleeps is woken when the clock has reached its time: if it has not, time passes.
\<close>

definition before_step :: "('b, 'r, 'm, 'x, 'v, 'c) Worker \<Rightarrow> 'v TaskMessage \<Rightarrow> nat \<Rightarrow>
    ('b, 'r, 'm, 'x) world \<Rightarrow> 'v stage option \<times> ('b, 'r, 'm, 'x) world" where
  "before_step W m k w =
     (if k < length (wk_middlewares W) then
        (case mw_before (wk_middlewares W ! k) (w_clock w) m (w_mw w) of
           (Inl e, s) \<Rightarrow> (Some (InError m e 0), w\<lparr>w_mw := s\<rparr>)
         | (Inr _, s) \<Rightarrow> (Some (InBefore m (Suc k)), w\<lparr>w_mw := s\<rparr>))
      else
        (case dispatch (wk_registry W) (task_name (mfields m)) (payload (mfields m))
                (wk_context W) (w_app w) of
           (Inr v, x) \<Rightarrow> (Some (InAfter m v 0), w\<lparr>w_app := x\<rparr>)
         | (Inl e, x) \<Rightarrow> (Some (InError m e 0), w\<lparr>w_app := x\<rparr>)))"

definition after_step :: "('b, 'r, 'm, 'x, 'v, 'c) Worker \<Rightarrow> 'v TaskMessage \<Rightarrow> 'v \<Rightarrow> nat \<Rightarrow>
    ('b, 'r, 'm, 'x) world \<Rightarrow> 'v stage option \<times> ('b, 'r, 'm, 'x) world" where
  "after_step W m v k w =
     (if k < length (wk_middlewares W) then
        (Some (InAfter m v (Suc k)),
         w\<lparr>w_mw := snd (mw_after (wk_middlewares W ! k) (w_clock w) m v (w_mw w))\<rparr>)
      else
        (let m' = update_fields (\<lambda>f. f\<lparr>state := Success\<rparr>) m;
             w' = snd (on_broker (b_ack (wk_broker W) (msg_id m)) w)
         in (case wk_result_backend W of None \<Rightarrow> None | Some _ \<Rightarrow> Some (Storing m' v), w')))"

definition error_step :: "('b, 'r, 'm, 'x, 'v, 'c) Worker \<Rightarrow> 'v TaskMessage \<Rightarrow> KojinError \<Rightarrow> nat \<Rightarrow>
    ('b, 'r, 'm, 'x) world \<Rightarrow> 'v stage option \<times> ('b, 'r, 'm, 'x) world" where
  "error_step W m e k w =
     (if k < length (wk_middlewares W) then
        (Some (InError m e (Suc k)),
         w\<lparr>w_mw := snd (mw_on_error (wk_middlewares W ! k) (w_clock w) m e (w_mw w))\<rparr>)
      else if retries (mfields m) < max_retries (mfields m) then
        (let m' = mark_retry (w_now w) m
         in (Some (Sleeping m' (w_clock w + delay_for backoff_default (retries (mfields m') - 1))), w))
      else (None, snd (on_broker (b_dead_letter (wk_broker W) (mark_dead (w_now w) m)) w)))"

definition group_step :: "('r, 'v) ResultBackend \<Rightarrow> 'v TaskMessage \<Rightarrow> 'v \<Rightarrow>
    ('b, 'r, 'm, 'x) world \<Rightarrow> 'v stage option \<times> ('b, 'r, 'm, 'x) world" where
  "group_step R m v w =
     (case group_id (mfields m) of
        None \<Rightarrow> (Some (Chaining m v), w)
      | Some g \<Rightarrow>
          (case on_backend (r_complete_group_member R g (msg_id m) v) w of
             (Inl _, w1) \<Rightarrow> (Some (Chaining m v), w1)
           | (Inr completed, w1) \<Rightarrow>
               (if completed = (case group_total (mfields m) of None \<Rightarrow> 0 | Some n \<Rightarrow> n) then
                  (case chord_callback m of
                     None \<Rightarrow> (Some (Chaining m v), w1)
                   | Some cb \<Rightarrow> (Some (Collecting m v g cb), w1))
                else (Some (Chaining m v), w1))))"

fun backend_step :: "('b, 'r, 'm, 'x, 'v, 'c) Worker \<Rightarrow> ('r, 'v) ResultBackend \<Rightarrow> 'v stage \<Rightarrow>
    ('b, 'r, 'm, 'x) world \<Rightarrow> 'v stage option \<times> ('b, 'r, 'm, 'x) world" where
  "backend_step W R (Storing m v) w =
     (Some (Grouping m v), snd (on_backend (r_store R (msg_id m) v) w))"
| "backend_step W R (Grouping m v) w = group_step R m v w"
| "backend_step W R (Collecting m v g cb) w =
     (let (gr, w') = on_backend (r_get_group_results R g) w
      in (Some (Firing m v (inject_group_results (wk_serde W) gr cb)), w'))"
| "backend_step W R (Firing m v cb) w =
     (Some (Chaining m v), snd (on_broker (b_enqueue (wk_broker W) cb) w))"
| "backend_step W R (Chaining m v) w = (None, continue_chain W m v w)"
| "backend_step W R st w = (None, w)"

fun task_step :: "('b, 'r, 'm, 'x, 'v, 'c) Worker \<Rightarrow> 'v stage \<Rightarrow>
    ('b, 'r, 'm, 'x) world \<Rightarrow> 'v stage option \<times> ('b, 'r, 'm, 'x) world" where
  "task_step W (Spawned m) w =
     (case eta (mfields m) of
        Some t \<Rightarrow>
          if t > w_now w then
            (Some (Rescheduling m t), snd (on_broker (b_ack (wk_broker W) (msg_id m)) w))
          else (Some (InBefore (started m) 0), w)
      | None \<Rightarrow> (Some (InBefore (started m) 0), w))"
| "task_step W (Rescheduling m t) w = (None, snd (on_broker (b_schedule (wk_broker W) m t) w))"
| "task_step W (InBefore m k) w = before_step W m k w"
| "task_step W (InAfter m v k) w = after_step W m v k w"
| "task_step W (InError m e k) w = error_step W m e k w"
| "task_step W (Sleeping m t) w = (Some (Nacking m), sleep (t - w_clock w) w)"
| "task_step W (Nacking m) w = (None, snd (on_broker (b_nack (wk_broker W) m) w))"
| "task_step W st w =
     (case wk_result_backend W of None \<Rightarrow> (None, w) | Some R \<Rightarrow> backend_step W R st w)"

text \<open>The number of steps a task may still make.\<close>

fun steps_left :: "nat \<Rightarrow> 'v stage \<Rightarrow> nat" where
  "steps_left n (Spawned m) = 2 * n + 11"
| "steps_left n (Rescheduling m t) = 1"
| "steps_left n (InBefore m k) = (n - k) + n + 10"
| "steps_left n (InAfter m v k) = (n - k) + 8"
| "steps_left n (InError m e k) = (n - k) + 8"
| "steps_left n (Storing m v) = 6"
| "steps_left n (Grouping m v) = 5"
| "steps_left n (Collecting m v g cb) = 4"
| "steps_left n (Firing m v cb) = 3"
| "steps_left n (Chaining m v) = 2"
| "steps_left n (Sleeping m t) = 2"
| "steps_left n (Nacking m) = 1"

lemma group_step_decreases:
  "group_step R m v w = (Some st', w') \<Longrightarrow> steps_left n st' < 5"
  by (auto simp: group_step_def split: option.splits prod.splits sum.splits if_splits)

lemma task_step_decreases:
  "task_step W st w = (Some st', w') \<Longrightarrow>
     steps_left (length (wk_middlewares W)) st' < steps_left (length (wk_middlewares W)) st"
  by (cases st)
     (auto simp: before_step_def after_step_def error_step_def Let_def group_step_decreases
        split: if_splits prod.splits sum.splits option.splits)

function run_stages :: "('b, 'r, 'm, 'x, 'v, 'c) Worker \<Rightarrow> 'v stage \<Rightarrow>
    ('b, 'r, 'm, 'x) world \<Rightarrow> ('b, 'r, 'm, 'x) world" where
  "run_stages W st w =
     (case task_step W st w of (None, w') \<Rightarrow> w' | (Some st', w') \<Rightarrow> run_stages W st' w')"
  by pat_completeness auto
termination
  by (relation "measure (\<lambda>(W, st, w). steps_left (length (wk_middlewares W)) st)")
     (auto dest: task_step_decreases [OF sym])

declare run_stages.simps [simp del]

subsection \<open>Alone, a task has the effect of execute\_task\<close>

text \<open>
  What is left to do at a stage when nobody interferes. The middlewares already called are
  dropped from the list.
\<close>

abbreviation without :: "nat \<Rightarrow> ('b, 'r, 'm, 'x, 'v, 'c) Worker \<Rightarrow> ('b, 'r, 'm, 'x, 'v, 'c) Worker" where
  "without k W \<equiv> W\<lparr>wk_middlewares := drop k (wk_middlewares W)\<rparr>"

lemma success_ignores_middlewares:
  "finish_group_member (W\<lparr>wk_middlewares := Ms\<rparr>) R m v w = finish_group_member W R m v w"
  "continue_chain (W\<lparr>wk_middlewares := Ms\<rparr>) m v w = continue_chain W m v w"
  by (simp_all add: finish_group_member_def continue_chain_def split: option.split prod.split sum.split list.split)

lemma run_stages_chain:
  "wk_result_backend W = Some R \<Longrightarrow> run_stages W (Chaining m v) w = continue_chain W m v w"
  by (simp add: run_stages.simps)

lemma run_stages_group:
  "wk_result_backend W = Some R \<Longrightarrow>
     run_stages W (Grouping m v) w = continue_chain W m v (finish_group_member W R m v w)"
  by (subst run_stages.simps)
     (auto simp: group_step_def finish_group_member_def run_stages_chain run_stages.simps [of W "Collecting _ _ _ _"]
        run_stages.simps [of W "Firing _ _ _"] split: option.split prod.split sum.split)

lemma run_stages_store:
  "wk_result_backend W = Some R \<Longrightarrow>
     run_stages W (Storing m v) w =
       continue_chain W m v (finish_group_member W R m v (snd (on_backend (r_store R (msg_id m) v) w)))"
  by (subst run_stages.simps) (simp add: run_stages_group)

lemma run_stages_sleep:
  "run_stages W (Sleeping m (w_clock w + d)) w = snd (on_broker (b_nack (wk_broker W) m) (sleep d w))"
  by (subst run_stages.simps) (simp add: run_stages.simps)

lemma run_stages_error:
  "run_stages W (InError m e k) w = handle_failure (without k W) m e w"
proof (induction "length (wk_middlewares W) - k" arbitrary: k w)
  case 0
  then show ?case
    by (subst run_stages.simps) (simp add: error_step_def handle_failure_def Let_def run_stages_sleep)
next
  case (Suc n)
  then have k: "k < length (wk_middlewares W)" "n = length (wk_middlewares W) - Suc k" by simp_all
  from k(1) Suc.hyps(1) [OF k(2)] show ?case
    by (subst run_stages.simps)
       (simp add: error_step_def handle_failure_def Let_def Cons_nth_drop_Suc [symmetric] del: Cons_nth_drop_Suc)
qed

lemma run_stages_after:
  "run_stages W (InAfter m v k) w = handle_success (without k W) m v w"
proof (induction "length (wk_middlewares W) - k" arbitrary: k w)
  case 0
  then show ?case
    by (subst run_stages.simps)
       (auto simp: after_step_def handle_success_def Let_def run_stages_store success_ignores_middlewares
          split: option.split)
next
  case (Suc n)
  then have k: "k < length (wk_middlewares W)" "n = length (wk_middlewares W) - Suc k" by simp_all
  from k(1) Suc.hyps(1) [OF k(2)] show ?case
    by (subst run_stages.simps)
       (simp add: after_step_def handle_success_def Let_def success_ignores_middlewares
          Cons_nth_drop_Suc [symmetric] del: Cons_nth_drop_Suc split: option.split)
qed

lemma run_stages_before:
  "run_stages W (InBefore m k) w =
     (case run_before (drop k (wk_middlewares W)) m w of
        (Inl e, w1) \<Rightarrow> handle_failure W m e w1
      | (Inr _, w1) \<Rightarrow>
          (case dispatch (wk_registry W) (task_name (mfields m)) (payload (mfields m))
                  (wk_context W) (w_app w1) of
             (Inr v, x) \<Rightarrow> handle_success W m v (w1\<lparr>w_app := x\<rparr>)
           | (Inl e, x) \<Rightarrow> handle_failure W m e (w1\<lparr>w_app := x\<rparr>)))"
proof (induction "length (wk_middlewares W) - k" arbitrary: k w)
  case 0
  then show ?case
    by (subst run_stages.simps)
       (auto simp: before_step_def run_stages_error run_stages_after split: prod.split sum.split)
next
  case (Suc n)
  then have k: "k < length (wk_middlewares W)" "n = length (wk_middlewares W) - Suc k" by simp_all
  from k(1) Suc.hyps(1) [OF k(2)] show ?case
    by (subst run_stages.simps)
       (auto simp: before_step_def run_stages_error Cons_nth_drop_Suc [symmetric]
          simp del: Cons_nth_drop_Suc split: prod.split sum.split)
qed

lemma run_stages_execute: "run_stages W (Spawned m) w = execute_task W m w"
  by (subst run_stages.simps)
     (auto simp: execute_task_def run_task_def run_stages_before run_stages.simps [of W "Rescheduling _ _"]
        split: option.split)


subsection \<open>What single steps keep\<close>

lemma stage_id_step:
  assumes "task_step W st w = (Some st', w')"
  shows "stage_id st' = stage_id st"
  using assms
  by (cases st)
     (auto simp: before_step_def after_step_def error_step_def group_step_def Let_def mark_retry_def message_simps
        split: if_splits prod.splits sum.splits option.splits)

lemma group_step_broker: "w_broker (snd (group_step R m v w)) = w_broker w"
  by (auto simp: group_step_def worker_simps case_prod_beta split: option.split sum.split)

lemma group_step_clock: "w_clock (snd (group_step R m v w)) = w_clock w"
  by (auto simp: group_step_def worker_simps case_prod_beta split: option.split sum.split)

lemma continue_chain_clock: "w_clock (continue_chain W m v w) = w_clock w"
  by (auto simp: continue_chain_def worker_simps split: option.split sum.split list.split)

lemma task_step_clock: "w_clock w \<le> w_clock (snd (task_step W st w))"
  by (cases st)
     (auto simp: before_step_def after_step_def error_step_def Let_def worker_simps case_prod_beta
        group_step_clock continue_chain_clock split: sum.split option.split)

text \<open>
  A step takes a task from the broker only when it acknowledges it: after its handler
  succeeded, or to schedule it again.
\<close>

fun acknowledges :: "('b, 'r, 'm, 'x, 'v, 'c) Worker \<Rightarrow> TaskId \<Rightarrow> 'v stage \<Rightarrow> bool" where
  "acknowledges W i (InAfter m v k) \<longleftrightarrow> msg_id m = i \<and> length (wk_middlewares W) \<le> k"
| "acknowledges W i _ \<longleftrightarrow> False"

fun rescheduling :: "TaskId \<Rightarrow> 'v stage \<Rightarrow> bool" where
  "rescheduling i (Rescheduling m t) \<longleftrightarrow> msg_id m = i"
| "rescheduling i _ \<longleftrightarrow> False"

context immediate_broker
begin

lemma continue_chain_keeps:
  "wk_broker W = B \<Longrightarrow> a_has i (abs (w_broker w)) \<Longrightarrow> a_has i (abs (w_broker (continue_chain W m v w)))"
  by (auto simp: continue_chain_def worker_simps enqueue_abs a_has_enqueue
      split: option.split sum.split list.split)

lemma ack_keeps: "a_has i (abs b) \<Longrightarrow> i \<noteq> j \<Longrightarrow> a_has i (abs (snd (b_ack B j b)))"
  using a_has_ack [of i "abs b" j] by (simp add: ack_abs)

lemma task_step_keeps:
  assumes W: "wk_broker W = B" and has: "a_has i (abs (w_broker w))"
  shows "a_has i (abs (w_broker (snd (task_step W st w)))) \<or> acknowledges W i st \<or>
    (\<exists>st'. fst (task_step W st w) = Some st' \<and> rescheduling i st')"
proof (cases st)
  case (Spawned m)
  then show ?thesis using has ack_keeps [OF has, of "msg_id m"] W
    by (auto simp: worker_simps split: option.split)
next
  case (InAfter m v k)
  then show ?thesis using has ack_keeps [OF has, of "msg_id m"] W
    by (auto simp: after_step_def Let_def worker_simps)
next
  case (InError m e k)
  then show ?thesis using has W
    by (auto simp: error_step_def Let_def worker_simps dead_letter_abs a_has_dead_letter)
qed (use has W in \<open>auto simp: before_step_def worker_simps schedule_abs a_has_enqueue nack_abs a_has_nack
       group_step_broker enqueue_abs continue_chain_keeps case_prod_beta split: sum.split option.split\<close>)

lemma reschedule_restores:
  "wk_broker W = B \<Longrightarrow> rescheduling i st \<Longrightarrow> a_has i (abs (w_broker (snd (task_step W st w))))"
  by (cases st) (auto simp: worker_simps schedule_abs a_has_enqueue)

end

end
