(* ===== verification/Kojin_Worker_Loop.thy ===== *)
theory Kojin_Worker_Loop
  imports Kojin_Task_Steps
begin

text \<open>
  The worker loop (\<open>worker.rs\<close>: \<open>Worker::run\<close>) as a labelled transition system.

  The loop and the tasks it spawned run concurrently. An event is a step of the loop (checking
  the token, acquiring a permit, dequeuing, the drain loop), a step of one of the spawned tasks
  (\<open>Resume\<close>), the panic of user code in a task, the cancellation of the token, the passing of
  time, or a change that another process (a producer, the cron scheduler, another worker)
  makes to the broker and the result backend. \<open>AbortDequeue b\<close> drops the pending call of
  \<open>dequeue\<close>; \<open>b\<close> is the broker as the call left it. When the worker has stopped, the process may
  exit, which drops the tasks still running where they are (\<open>Abort\<close>). \<open>run_step\<close> returns \<open>None\<close>
  where an event is not possible.
\<close>

subsection \<open>States and steps\<close>

datatype run_phase =
  LoopTop | Acquiring | Dequeuing | ErrorPause | Draining Instant | DrainPause Instant | Stopped

record ('b, 'r, 'm, 'x, 'v) run_state =
  rs_phase :: run_phase
  rs_permits :: nat
  rs_running :: "'v stage list"
  rs_cancelled :: bool
  rs_world :: "('b, 'r, 'm, 'x) world"

datatype ('b, 'r, 'x) run_event =
  Cancel
| Tick Duration
| CheckToken
| Acquire
| AbortAcquire
| Dequeue
| AbortDequeue 'b
| PauseOver
| DrainCheck
| DrainWake
| Resume nat
| Panic nat 'x
| Abort nat
| External 'b 'r

definition run_init :: "('b, 'r, 'm, 'x, 'v, 'c) Worker \<Rightarrow> ('b, 'r, 'm, 'x) world \<Rightarrow>
    ('b, 'r, 'm, 'x, 'v) run_state" where
  "run_init W w =
     \<lparr>rs_phase = LoopTop, rs_permits = concurrency (wk_config W), rs_running = [],
      rs_cancelled = False, rs_world = w\<rparr>"

definition start_drain :: "('b, 'r, 'm, 'x, 'v, 'c) Worker \<Rightarrow> ('b, 'r, 'm, 'x, 'v) run_state \<Rightarrow>
    ('b, 'r, 'm, 'x, 'v) run_state" where
  "start_drain W s =
     s\<lparr>rs_phase := Draining (w_clock (rs_world s) + shutdown_timeout (wk_config W))\<rparr>"

definition release_permit :: "('b, 'r, 'm, 'x, 'v) run_state \<Rightarrow> ('b, 'r, 'm, 'x, 'v) run_state" where
  "release_permit s = s\<lparr>rs_permits := Suc (rs_permits s)\<rparr>"

definition dequeue_step :: "('b, 'r, 'm, 'x, 'v, 'c) Worker \<Rightarrow> ('b, 'r, 'm, 'x, 'v) run_state \<Rightarrow>
    ('b, 'r, 'm, 'x, 'v) run_state" where
  "dequeue_step W s =
     (case on_broker (b_dequeue (wk_broker W) (wc_queues (wk_config W))
             (dequeue_timeout (wk_config W))) (rs_world s) of
        (Inr (Some m), w) \<Rightarrow>
          s\<lparr>rs_world := w, rs_running := rs_running s @ [Spawned m], rs_phase := LoopTop\<rparr>
      | (Inr None, w) \<Rightarrow> release_permit (s\<lparr>rs_world := w, rs_phase := LoopTop\<rparr>)
      | (Inl e, w) \<Rightarrow> release_permit (s\<lparr>rs_world := w, rs_phase := ErrorPause\<rparr>))"

definition drain_check :: "('b, 'r, 'm, 'x, 'v, 'c) Worker \<Rightarrow> Instant \<Rightarrow>
    ('b, 'r, 'm, 'x, 'v) run_state \<Rightarrow> ('b, 'r, 'm, 'x, 'v) run_state" where
  "drain_check W deadline s =
     (if rs_permits s = concurrency (wk_config W) then s\<lparr>rs_phase := Stopped\<rparr>
      else if deadline \<le> w_clock (rs_world s) then s\<lparr>rs_phase := Stopped\<rparr>
      else s\<lparr>rs_phase := DrainPause deadline\<rparr>)"

text \<open>
  The code of the application, handlers and middlewares, may panic. The task ends where it
  is, with some state of the application, and drops its permit.
\<close>

fun may_panic :: "'v stage \<Rightarrow> bool" where
  "may_panic (InBefore m k) \<longleftrightarrow> True"
| "may_panic (InAfter m v k) \<longleftrightarrow> True"
| "may_panic (InError m e k) \<longleftrightarrow> True"
| "may_panic _ \<longleftrightarrow> False"

definition end_task :: "nat \<Rightarrow> ('b, 'r, 'm, 'x) world \<Rightarrow> ('b, 'r, 'm, 'x, 'v) run_state \<Rightarrow>
    ('b, 'r, 'm, 'x, 'v) run_state" where
  "end_task k w s =
     release_permit (s\<lparr>rs_running := remove_nth k (rs_running s), rs_world := w\<rparr>)"

definition resume_task :: "('b, 'r, 'm, 'x, 'v, 'c) Worker \<Rightarrow> nat \<Rightarrow> ('b, 'r, 'm, 'x, 'v) run_state \<Rightarrow>
    ('b, 'r, 'm, 'x, 'v) run_state" where
  "resume_task W k s =
     (case task_step W (rs_running s ! k) (rs_world s) of
        (None, w) \<Rightarrow> end_task k w s
      | (Some st, w) \<Rightarrow> s\<lparr>rs_running := (rs_running s)[k := st], rs_world := w\<rparr>)"

fun run_step :: "('b, 'r, 'm, 'x, 'v, 'c) Worker \<Rightarrow> ('b, 'r, 'x) run_event \<Rightarrow>
    ('b, 'r, 'm, 'x, 'v) run_state \<Rightarrow> ('b, 'r, 'm, 'x, 'v) run_state option" where
  "run_step W Cancel s = Some (s\<lparr>rs_cancelled := True\<rparr>)"
| "run_step W (Tick d) s = Some (s\<lparr>rs_world := sleep d (rs_world s)\<rparr>)"
| "run_step W CheckToken s =
     (if rs_phase s = LoopTop then
        Some (if rs_cancelled s then start_drain W s else s\<lparr>rs_phase := Acquiring\<rparr>)
      else None)"
| "run_step W Acquire s =
     (if rs_phase s = Acquiring \<and> 0 < rs_permits s then
        Some (s\<lparr>rs_phase := Dequeuing, rs_permits := rs_permits s - 1\<rparr>)
      else None)"
| "run_step W AbortAcquire s =
     (if rs_phase s = Acquiring \<and> rs_cancelled s then Some (start_drain W s) else None)"
| "run_step W Dequeue s = (if rs_phase s = Dequeuing then Some (dequeue_step W s) else None)"
| "run_step W (AbortDequeue b) s =
     (if rs_phase s = Dequeuing \<and> rs_cancelled s then
        Some (start_drain W (release_permit (s\<lparr>rs_world := (rs_world s)\<lparr>w_broker := b\<rparr>\<rparr>)))
      else None)"
| "run_step W PauseOver s =
     (if rs_phase s = ErrorPause then
        Some (s\<lparr>rs_phase := LoopTop, rs_world := sleep (duration_from_secs 1) (rs_world s)\<rparr>)
      else None)"
| "run_step W DrainCheck s =
     (case rs_phase s of Draining deadline \<Rightarrow> Some (drain_check W deadline s) | _ \<Rightarrow> None)"
| "run_step W DrainWake s =
     (case rs_phase s of
        DrainPause deadline \<Rightarrow>
          Some (s\<lparr>rs_phase := Draining deadline,
                  rs_world := sleep (duration_from_millis 100) (rs_world s)\<rparr>)
      | _ \<Rightarrow> None)"
| "run_step W (Resume k) s =
     (if k < length (rs_running s) then Some (resume_task W k s) else None)"
| "run_step W (Panic k x) s =
     (if k < length (rs_running s) \<and> may_panic (rs_running s ! k) then
        Some (end_task k ((rs_world s)\<lparr>w_app := x\<rparr>) s)
      else None)"
| "run_step W (Abort k) s =
     (if k < length (rs_running s) \<and> rs_phase s = Stopped then Some (end_task k (rs_world s) s)
      else None)"
| "run_step W (External b r) s =
     Some (s\<lparr>rs_world := (rs_world s)\<lparr>w_broker := b, w_backend := r\<rparr>\<rparr>)"

fun run_steps :: "('b, 'r, 'm, 'x, 'v, 'c) Worker \<Rightarrow> ('b, 'r, 'x) run_event list \<Rightarrow>
    ('b, 'r, 'm, 'x, 'v) run_state \<Rightarrow> ('b, 'r, 'm, 'x, 'v) run_state option" where
  "run_steps W [] s = Some s"
| "run_steps W (ev # evs) s =
     (case run_step W ev s of None \<Rightarrow> None | Some s' \<Rightarrow> run_steps W evs s')"

lemma run_steps_append:
  "run_steps W (evs @ evs') s = (case run_steps W evs s of None \<Rightarrow> None | Some t \<Rightarrow> run_steps W evs' t)"
  by (induction evs arbitrary: s) (auto split: option.split)

inductive run_reachable :: "('b, 'r, 'm, 'x, 'v, 'c) Worker \<Rightarrow> ('b, 'r, 'm, 'x) world \<Rightarrow>
    ('b, 'r, 'm, 'x, 'v) run_state \<Rightarrow> bool" for W w0 where
  init: "run_reachable W w0 (run_init W w0)"
| step: "run_reachable W w0 s \<Longrightarrow> run_step W ev s = Some s' \<Longrightarrow> run_reachable W w0 s'"

fun_cases run_step_SomeE: "run_step W ev s = Some s'"

subsection \<open>Permits\<close>

definition holds_permit :: "run_phase \<Rightarrow> nat" where
  "holds_permit p = (if p = Dequeuing then 1 else 0)"

text \<open>Every permit is free, held by the loop, or held by one running task.\<close>

definition permits_inv :: "('b, 'r, 'm, 'x, 'v, 'c) Worker \<Rightarrow> ('b, 'r, 'm, 'x, 'v) run_state \<Rightarrow> bool"
where
  "permits_inv W s \<longleftrightarrow>
     rs_permits s + holds_permit (rs_phase s) + length (rs_running s) = concurrency (wk_config W)"

lemma permits_inv_init: "permits_inv W (run_init W w)"
  by (simp add: permits_inv_def run_init_def holds_permit_def)

lemma permits_inv_end_task:
  "permits_inv W s \<Longrightarrow> k < length (rs_running s) \<Longrightarrow> permits_inv W (end_task k w s)"
  using length_remove_nth [of k "rs_running s"]
  by (simp add: permits_inv_def end_task_def release_permit_def)

lemma permits_inv_resume:
  "permits_inv W s \<Longrightarrow> k < length (rs_running s) \<Longrightarrow> permits_inv W (resume_task W k s)"
  using permits_inv_end_task [of W s k]
  by (auto simp: resume_task_def permits_inv_def split: prod.split option.split)

lemma permits_inv_dequeue:
  "permits_inv W s \<Longrightarrow> rs_phase s = Dequeuing \<Longrightarrow> permits_inv W (dequeue_step W s)"
  by (auto simp: permits_inv_def dequeue_step_def holds_permit_def release_permit_def
      split: prod.split sum.split option.split)

lemma permits_inv_step:
  assumes "permits_inv W s" and "run_step W ev s = Some s'"
  shows "permits_inv W s'"
proof (cases ev)
  case Dequeue
  with assms show ?thesis by (auto simp: permits_inv_dequeue split: if_splits)
next
  case (Resume k)
  with assms show ?thesis by (auto simp: permits_inv_resume split: if_splits)
next
  case (Panic k x)
  with assms permits_inv_end_task [of W s k] show ?thesis by (auto split: if_splits)
next
  case (Abort k)
  with assms permits_inv_end_task [of W s k] show ?thesis by (auto split: if_splits)
qed (use assms in \<open>auto simp: permits_inv_def start_drain_def holds_permit_def release_permit_def
       drain_check_def split: if_splits run_phase.splits\<close>)

lemma run_reachable_permits: "run_reachable W w0 s \<Longrightarrow> permits_inv W s"
  by (induction rule: run_reachable.induct) (auto intro: permits_inv_init permits_inv_step)

subsection \<open>Time\<close>

lemma resume_task_clock: "w_clock (rs_world s) \<le> w_clock (rs_world (resume_task W k s))"
  using task_step_clock [of "rs_world s" W "rs_running s ! k"]
  by (auto simp: resume_task_def end_task_def release_permit_def split: prod.splits option.splits)

lemma run_step_clock:
  "run_step W ev s = Some s' \<Longrightarrow> w_clock (rs_world s) \<le> w_clock (rs_world s')"
proof (cases ev)
  case Dequeue
  assume "run_step W ev s = Some s'"
  moreover obtain r u where "on_broker (b_dequeue (wk_broker W) (wc_queues (wk_config W))
      (dequeue_timeout (wk_config W))) (rs_world s) = (r, u)" by fastforce
  moreover from this have "w_clock u = w_clock (rs_world s)" by (metis on_broker_sel(7) snd_conv)
  ultimately show ?thesis using Dequeue
    by (auto simp: dequeue_step_def release_permit_def split: if_splits sum.splits option.splits)
qed (auto simp: end_task_def worker_simps resume_task_clock start_drain_def
       release_permit_def drain_check_def split: if_splits run_phase.splits)

subsection \<open>Shutdown\<close>

lemma resume_task_phase: "rs_phase (resume_task W k s) = rs_phase s"
  by (simp add: resume_task_def end_task_def release_permit_def split: prod.split option.split)

lemma drain_step:
  assumes "run_step W ev s = Some s'"
  shows "rs_phase s = Draining dl \<Longrightarrow>
      (if ev = DrainCheck
       then rs_phase s' = Stopped \<or>
            (rs_phase s' = DrainPause dl \<and> w_clock (rs_world s) < dl)
       else ev \<noteq> DrainWake \<and> rs_phase s' = Draining dl)"
    and "rs_phase s = DrainPause dl \<Longrightarrow>
      (if ev = DrainWake
       then rs_phase s' = Draining dl \<and>
            w_clock (rs_world s') = w_clock (rs_world s) + duration_from_millis 100
       else rs_phase s' = DrainPause dl)"
    and "rs_phase s = Stopped \<Longrightarrow> ev \<noteq> DrainWake \<and> rs_phase s' = Stopped"
  using assms
  by (cases ev; auto simp: end_task_def release_permit_def drain_check_def worker_simps resume_task_phase
        split: if_splits)+

text \<open>The drain loop sleeps only while the deadline has not passed.\<close>

lemma drain_wakes:
  fixes evs :: "('b, 'r, 'x) run_event list"
  assumes "run_steps W evs s = Some s'"
  defines "P \<equiv> duration_from_millis 100" and "n \<equiv> count_list evs DrainWake"
  shows "rs_phase s = Draining dl \<Longrightarrow> n = 0 \<or> w_clock (rs_world s) + (n - 1) * P < dl"
    and "rs_phase s = DrainPause dl \<Longrightarrow> n \<le> 1 \<or> w_clock (rs_world s) + (n - 1) * P < dl"
    and "rs_phase s = Stopped \<Longrightarrow> n = 0"
  using assms(1) unfolding n_def
proof (induction evs arbitrary: s)
  case Nil
  { case 1 then show ?case by simp
  next case 2 then show ?case by simp
  next case 3 then show ?case by simp }
next
  case (Cons ev evs)
  { case 1
    then obtain t where t: "run_step W ev s = Some t" "run_steps W evs t = Some s'"
      by (auto split: option.splits)
    note step = drain_step(1) [OF t(1) 1(1)]
    note IH = Cons.IH [OF _ t(2)]
    have clock: "w_clock (rs_world s) \<le> w_clock (rs_world t)" by (rule run_step_clock [OF t(1)])
    show ?case
    proof (cases "ev = DrainCheck")
      case False
      with step IH(1) clock show ?thesis by auto
    next
      case True
      with step consider "rs_phase t = Stopped"
        | "rs_phase t = DrainPause dl" "w_clock (rs_world s) < dl" by auto
      then show ?thesis
      proof cases
        case 1
        with IH(3) True show ?thesis by simp
      next
        case 2
        with IH(2) [OF 2(1)] clock True show ?thesis
          by (cases "count_list evs DrainWake") auto
      qed
    qed
  next
    case 2
    then obtain t where t: "run_step W ev s = Some t" "run_steps W evs t = Some s'"
      by (auto split: option.splits)
    note step = drain_step(2) [OF t(1) 2(1)]
    have clock: "w_clock (rs_world s) \<le> w_clock (rs_world t)" by (rule run_step_clock [OF t(1)])
    show ?case
    proof (cases "ev = DrainWake")
      case True
      with step Cons.IH(1) [OF _ t(2)] show ?thesis
        by (cases "count_list evs DrainWake") (auto simp: P_def)
    next
      case False
      with step Cons.IH(2) [OF _ t(2)] clock show ?thesis by auto
    qed
  next
    case 3
    then obtain t where t: "run_step W ev s = Some t" "run_steps W evs t = Some s'"
      by (auto split: option.splits)
    from drain_step(3) [OF t(1) 3(1)] Cons.IH(3) [OF _ t(2)] show ?case by simp }
qed

text \<open>Once the loop has ended, no message is taken any more: the running tasks only end.\<close>

definition shutting_down :: "run_phase \<Rightarrow> bool" where
  "shutting_down p \<longleftrightarrow> (case p of Draining _ \<Rightarrow> True | DrainPause _ \<Rightarrow> True | Stopped \<Rightarrow> True | _ \<Rightarrow> False)"

lemma resume_task_ids: "k < length (rs_running s) \<Longrightarrow>
    mset (map stage_id (rs_running (resume_task W k s))) \<subseteq># mset (map stage_id (rs_running s))"
  using stage_id_step [of W "rs_running s ! k" "rs_world s"]
  by (auto simp: resume_task_def end_task_def release_permit_def map_remove_nth map_update_same mset_remove_nth
      simp del: mset_map split: prod.split option.split)

lemma shutdown_step:
  assumes "run_step W ev s = Some s'" and "shutting_down (rs_phase s)"
  shows "shutting_down (rs_phase s') \<and> mset (map stage_id (rs_running s')) \<subseteq># mset (map stage_id (rs_running s))"
proof (cases ev)
  case (Resume k)
  with assms show ?thesis using resume_task_ids [of k s W] by (auto simp: resume_task_phase split: if_splits)
qed (use assms in \<open>auto simp: shutting_down_def end_task_def release_permit_def drain_check_def map_remove_nth
       mset_remove_nth simp del: mset_map split: if_splits run_phase.splits\<close>)

lemma run_steps_reachable:
  "run_steps W evs s = Some s' \<Longrightarrow> run_reachable W w0 s \<Longrightarrow> run_reachable W w0 s'"
  by (induction evs arbitrary: s) (auto split: option.splits intro: run_reachable.step)

lemma shutdown_steps:
  "run_steps W evs s = Some s' \<Longrightarrow> shutting_down (rs_phase s) \<Longrightarrow>
     shutting_down (rs_phase s') \<and> mset (map stage_id (rs_running s')) \<subseteq># mset (map stage_id (rs_running s))"
proof (induction evs arbitrary: s)
  case (Cons ev evs)
  then obtain t where t: "run_step W ev s = Some t" "run_steps W evs t = Some s'"
    by (auto split: option.splits)
  with Cons.IH [OF t(2)] shutdown_step [OF t(1) Cons.prems(2)] show ?case
    by (auto intro: subset_mset.order_trans)
qed simp

text \<open>The loop is left for good only when nothing runs any more or the deadline has passed.\<close>

lemma stop_reason:
  assumes "run_step W ev s = Some s'" and "rs_phase s' = Stopped" and "rs_phase s \<noteq> Stopped"
    and "permits_inv W s"
  shows "rs_running s' = [] \<or>
    (\<exists>dl. rs_phase s = Draining dl \<and> dl \<le> w_clock (rs_world s'))"
proof (cases ev)
  case Dequeue
  with assms(1,2) show ?thesis
    by (auto simp: dequeue_step_def release_permit_def split: if_splits prod.splits sum.splits option.splits)
qed (use assms in \<open>auto simp: permits_inv_def holds_permit_def start_drain_def end_task_def release_permit_def
       drain_check_def resume_task_phase split: if_splits run_phase.splits\<close>)

text \<open>Left alone, the drain loop ends.\<close>

lemma drain_alone_stops:
  "rs_phase s = Draining dl \<Longrightarrow>
     \<exists>n s'. run_steps W (concat (replicate n [DrainCheck, DrainWake]) @ [DrainCheck]) s = Some s' \<and>
       rs_phase s' = Stopped"
proof (induction "dl - w_clock (rs_world s)" arbitrary: s rule: less_induct)
  case less
  show ?case
  proof (cases "rs_permits s = concurrency (wk_config W) \<or> dl \<le> w_clock (rs_world s)")
    case True
    with less.prems show ?thesis by (intro exI [of _ 0]) (auto simp: drain_check_def)
  next
    case False
    let ?t = "s\<lparr>rs_phase := Draining dl, rs_world := sleep (duration_from_millis 100) (rs_world s)\<rparr>"
    have "0 < duration_from_millis 100" by (simp add: duration_from_millis_def)
    with False have "dl - w_clock (rs_world ?t) < dl - w_clock (rs_world s)"
      by (auto simp: worker_simps)
    from less.hyps [OF this] obtain n s' where
      n: "run_steps W (concat (replicate n [DrainCheck, DrainWake]) @ [DrainCheck]) ?t = Some s'"
        "rs_phase s' = Stopped" by auto
    with False less.prems show ?thesis
      by (intro exI [of _ "Suc n"]) (auto simp: drain_check_def)
  qed
qed

subsection \<open>Events of a run\<close>

text \<open>How often an event that satisfies \<open>P\<close> in the state in which it happens occurs in a run.\<close>

fun count_events :: "(('b, 'r, 'x) run_event \<Rightarrow> ('b, 'r, 'm, 'x, 'v) run_state \<Rightarrow> bool) \<Rightarrow>
    ('b, 'r, 'm, 'x, 'v, 'c) Worker \<Rightarrow> ('b, 'r, 'x) run_event list \<Rightarrow> ('b, 'r, 'm, 'x, 'v) run_state \<Rightarrow> nat"
where
  "count_events P W [] s = 0"
| "count_events P W (ev # evs) s =
     (if P ev s then 1 else 0) + (case run_step W ev s of None \<Rightarrow> 0 | Some t \<Rightarrow> count_events P W evs t)"

subsection \<open>No task is lost\<close>

text \<open>The step acknowledges a task whose handler succeeded.\<close>

definition completes :: "('b, 'r, 'm, 'x, 'v, 'c) Worker \<Rightarrow> TaskId \<Rightarrow> ('b, 'r, 'x) run_event \<Rightarrow>
    ('b, 'r, 'm, 'x, 'v) run_state \<Rightarrow> bool" where
  "completes W i ev s \<longleftrightarrow>
     (case ev of
        Resume k \<Rightarrow> k < length (rs_running s) \<and> acknowledges W i (rs_running s ! k)
      | _ \<Rightarrow> False)"

text \<open>
  Another process or a dropped call of \<open>dequeue\<close> takes the task from the broker, or the process
  exits while a worker is about to schedule it again.
\<close>

definition removes :: "('b \<Rightarrow> 'v abstract_broker) \<Rightarrow> TaskId \<Rightarrow> ('b, 'r, 'x) run_event \<Rightarrow>
    ('b, 'r, 'm, 'x, 'v) run_state \<Rightarrow> bool" where
  "removes view i ev s \<longleftrightarrow>
     (case ev of
        External b r \<Rightarrow> a_has i (view (w_broker (rs_world s))) \<and> \<not> a_has i (view b)
      | AbortDequeue b \<Rightarrow> a_has i (view (w_broker (rs_world s))) \<and> \<not> a_has i (view b)
      | Abort k \<Rightarrow> k < length (rs_running s) \<and> rescheduling i (rs_running s ! k)
      | _ \<Rightarrow> False)"

text \<open>The broker has the task, or a running task is about to schedule it again.\<close>

definition kept :: "('b \<Rightarrow> 'v abstract_broker) \<Rightarrow> TaskId \<Rightarrow> ('b, 'r, 'm, 'x, 'v) run_state \<Rightarrow> bool" where
  "kept view i s \<longleftrightarrow> a_has i (view (w_broker (rs_world s))) \<or> (\<exists>st\<in>set (rs_running s). rescheduling i st)"

lemma may_panic_not_rescheduling: "may_panic st \<Longrightarrow> \<not> rescheduling i st"
  by (cases st) simp_all

context immediate_broker
begin

lemma dequeue_step_kept:
  assumes "wk_broker W = B" and "kept abs i s"
  shows "kept abs i (dequeue_step W s)"
proof -
  obtain r w where deq: "on_broker (b_dequeue B (wc_queues (wk_config W))
      (dequeue_timeout (wk_config W))) (rs_world s) = (r, w)" by fastforce
  then have "w_broker w = snd (b_dequeue B (wc_queues (wk_config W))
      (dequeue_timeout (wk_config W)) (w_broker (rs_world s)))"
    by (metis on_broker_sel(2) snd_conv)
  then have "a_has i (abs (w_broker (rs_world s))) \<Longrightarrow> a_has i (abs (w_broker w))"
    by (simp add: dequeue_abs a_has_pop)
  with deq assms show ?thesis
    by (auto simp: kept_def dequeue_step_def release_permit_def split: sum.split option.split)
qed

lemma resume_task_kept:
  assumes W: "wk_broker W = B" and kept: "kept abs i s" and k: "k < length (rs_running s)"
    and ack: "\<not> acknowledges W i (rs_running s ! k)"
  shows "kept abs i (resume_task W k s)"
proof -
  let ?st = "rs_running s ! k"
  obtain r w where step: "task_step W ?st (rs_world s) = (r, w)" by fastforce
  have broker: "w_broker (rs_world (resume_task W k s)) = w_broker w"
    by (simp add: resume_task_def step end_task_def release_permit_def split: option.split)
  have running: "rs_running (resume_task W k s) =
      (case r of None \<Rightarrow> remove_nth k (rs_running s) | Some st \<Rightarrow> (rs_running s)[k := st])"
    by (simp add: resume_task_def step end_task_def release_permit_def split: option.split)
  consider "rescheduling i ?st" | "a_has i (abs (w_broker (rs_world s)))"
    | "\<exists>st\<in>set (rs_running s). rescheduling i st" "\<not> rescheduling i ?st"
    using kept by (auto simp: kept_def)
  then show ?thesis
  proof cases
    case 1
    with reschedule_restores [OF W, of i ?st "rs_world s"] step broker show ?thesis by (simp add: kept_def)
  next
    case 2
    with task_step_keeps [OF W, of i "rs_world s" ?st] step ack broker running k show ?thesis
      by (auto simp: kept_def set_update_memI)
  next
    case 3
    with bex_remove_nth [OF k, of "rescheduling i"] have "\<exists>st\<in>set (remove_nth k (rs_running s)). rescheduling i st"
      by blast
    then have "\<exists>st\<in>set (rs_running (resume_task W k s)). rescheduling i st"
      using k by (auto simp: running remove_nth_def upd_conv_take_nth_drop split: option.split)
    then show ?thesis by (simp add: kept_def)
  qed
qed

lemma run_step_keeps:
  assumes W: "wk_broker W = B" and step: "run_step W ev s = Some s'" and kept: "kept abs i s"
  shows "kept abs i s' \<or> completes W i ev s \<or> removes abs i ev s"
proof (cases ev)
  case Dequeue
  with step kept W show ?thesis by (auto simp: dequeue_step_kept split: if_splits)
next
  case (Resume k)
  with step resume_task_kept [OF W kept, of k] show ?thesis by (auto simp: completes_def split: if_splits)
next
  case (Panic k x)
  with step may_panic_not_rescheduling [of "rs_running s ! k" i] have "\<not> rescheduling i (rs_running s ! k)"
    by (auto split: if_splits)
  with Panic step kept bex_remove_nth [of k "rs_running s" "rescheduling i"] show ?thesis
    by (auto simp: kept_def end_task_def release_permit_def split: if_splits)
next
  case (Abort k)
  with step kept bex_remove_nth [of k "rs_running s" "rescheduling i"] show ?thesis
    by (auto simp: kept_def end_task_def release_permit_def removes_def split: if_splits)
qed (use step kept in \<open>auto simp: kept_def removes_def start_drain_def release_permit_def drain_check_def
       worker_simps split: if_splits run_phase.splits\<close>)

lemma run_steps_keeps:
  assumes W: "wk_broker W = B"
  shows "run_steps W evs s = Some s' \<Longrightarrow> kept abs i s \<Longrightarrow>
    kept abs i s' \<or> 0 < count_events (completes W i) W evs s \<or> 0 < count_events (removes abs i) W evs s"
proof (induction evs arbitrary: s)
  case (Cons ev evs)
  then obtain t where t: "run_step W ev s = Some t" "run_steps W evs t = Some s'"
    by (auto split: option.splits)
  with run_step_keeps [OF W t(1) Cons.prems(2)] Cons.IH [OF t(2)] show ?case by auto
qed simp

end

subsection \<open>Groups under interleaving\<close>

text \<open>
  A step that counts a member of the group \<open>g\<close> is told \<open>n\<close> when the backend answers that \<open>n\<close>
  members have completed, and fires the callback when it goes on to collect the results.
\<close>

definition told :: "('r, 'v) ResultBackend \<Rightarrow> string \<Rightarrow> u32 \<Rightarrow> ('b, 'r, 'x) run_event \<Rightarrow>
    ('b, 'r, 'm, 'x, 'v) run_state \<Rightarrow> bool" where
  "told R g n ev s \<longleftrightarrow>
     (case ev of
        Resume k \<Rightarrow>
          k < length (rs_running s) \<and>
          (case rs_running s ! k of
             Grouping m v \<Rightarrow> group_id (mfields m) = Some g \<and>
               fst (r_complete_group_member R g (msg_id m) v (w_backend (rs_world s))) = Inr n
           | _ \<Rightarrow> False)
      | _ \<Rightarrow> False)"

definition fires :: "('b, 'r, 'm, 'x, 'v, 'c) Worker \<Rightarrow> string \<Rightarrow> u32 \<Rightarrow> ('b, 'r, 'x) run_event \<Rightarrow>
    ('b, 'r, 'm, 'x, 'v) run_state \<Rightarrow> bool" where
  "fires W g n ev s \<longleftrightarrow>
     (case ev of
        Resume k \<Rightarrow>
          k < length (rs_running s) \<and>
          (case fst (task_step W (rs_running s ! k) (rs_world s)) of
             Some (Collecting m v h cb) \<Rightarrow> h = g \<and> group_total (mfields m) = Some n
           | _ \<Rightarrow> False)
      | _ \<Rightarrow> False)"

text \<open>Another process changes the number of completions of the group.\<close>

definition alters_group :: "(string \<Rightarrow> 'r \<Rightarrow> nat option) \<Rightarrow> string \<Rightarrow> ('b, 'r, 'x) run_event \<Rightarrow>
    ('b, 'r, 'm, 'x, 'v) run_state \<Rightarrow> bool" where
  "alters_group counter g ev s \<longleftrightarrow>
     (case ev of External b r \<Rightarrow> counter g r \<noteq> counter g (w_backend (rs_world s)) | _ \<Rightarrow> False)"

lemma continue_chain_backend: "w_backend (continue_chain W m v w) = w_backend w"
  by (auto simp: continue_chain_def worker_simps split: option.split sum.split list.split)

lemma group_step_backend:
  "w_backend (snd (group_step R m v w)) =
     (case group_id (mfields m) of None \<Rightarrow> w_backend w
      | Some g \<Rightarrow> snd (r_complete_group_member R g (msg_id m) v (w_backend w)))"
  by (auto simp: group_step_def worker_simps case_prod_beta split: option.split sum.split)

lemma resume_task_world: "rs_world (resume_task W k s) = snd (task_step W (rs_running s ! k) (rs_world s))"
  by (simp add: resume_task_def end_task_def release_permit_def split: prod.split option.split)

lemma count_events_mono:
  "(\<And>ev t. P ev t \<Longrightarrow> Q ev t) \<Longrightarrow> count_events P W evs s \<le> count_events Q W evs s"
  by (induction evs arbitrary: s) (auto split: option.split intro: add_mono le_SucI)

lemma fires_told:
  assumes "wk_result_backend W = Some R" and "fires W g n ev s"
  shows "told R g n ev s"
proof -
  from assms(2) obtain k m v cb where k: "ev = Resume k" "k < length (rs_running s)"
    and step: "fst (task_step W (rs_running s ! k) (rs_world s)) = Some (Collecting m v g cb)"
    and n: "group_total (mfields m) = Some n"
    by (auto simp: fires_def split: run_event.splits option.splits stage.splits)
  from step assms(1) have "\<exists>m v. rs_running s ! k = Grouping m v"
    by (cases "rs_running s ! k")
       (auto simp: before_step_def after_step_def error_step_def Let_def case_prod_beta
          split: if_splits sum.splits option.splits)
  then obtain m' v' where "rs_running s ! k = Grouping m' v'" by blast
  with k step n assms(1) show ?thesis
    by (auto simp: told_def group_step_def worker_simps case_prod_beta
        split: option.splits sum.splits if_splits)
qed

text \<open>
  A backend counts the completions of a group atomically: a call that succeeds adds one and
  returns the new number, a call that fails and all other operations leave the number alone.
\<close>

locale group_counter =
  fixes R :: "('r, 'v) ResultBackend" and counter :: "string \<Rightarrow> 'r \<Rightarrow> nat option"
  assumes store_counter: "counter g (snd (r_store R i v r)) = counter g r"
    and results_counter: "counter g (snd (r_get_group_results R h r)) = counter g r"
    and complete_other: "h \<noteq> g \<Longrightarrow> counter g (snd (r_complete_group_member R h i v r)) = counter g r"
    and complete_fails: "fst (r_complete_group_member R g i v r) = Inl e \<Longrightarrow>
          counter g (snd (r_complete_group_member R g i v r)) = counter g r"
    and complete_counts: "\<lbrakk>fst (r_complete_group_member R g i v r) = Inr n; counter g r = Some c;
          Suc c < 2 ^ 32\<rbrakk> \<Longrightarrow>
          n = of_nat (Suc c) \<and> counter g (snd (r_complete_group_member R g i v r)) = Some (Suc c)"
begin

abbreviation count :: "string \<Rightarrow> ('b, 'r, 'm, 'x, 'v) run_state \<Rightarrow> nat option" where
  "count g s \<equiv> counter g (w_backend (rs_world s))"

lemma resume_count:
  assumes W: "wk_result_backend W = Some R" and k: "k < length (rs_running s)"
    and c: "count g s = Some c" "Suc c < 2 ^ 32"
  shows "count g (resume_task W k s) = Some (if \<exists>n. told R g n (Resume k) s then Suc c else c)"
proof (cases "rs_running s ! k")
  case (Grouping m v)
  show ?thesis
  proof (cases "group_id (mfields m) = Some g")
    case True
    then show ?thesis
      using complete_counts [of g "msg_id m" v "w_backend (rs_world s)"]
        complete_fails [of g "msg_id m" v "w_backend (rs_world s)"] k c W Grouping
      by (cases "fst (r_complete_group_member R g (msg_id m) v (w_backend (rs_world s)))")
         (auto simp: told_def resume_task_world group_step_backend)
  next
    case False
    then show ?thesis
      using W c Grouping complete_other [of _ g "msg_id m" v "w_backend (rs_world s)"]
      by (auto simp: told_def resume_task_world group_step_backend split: option.split)
  qed
qed (use W c in \<open>auto simp: told_def resume_task_world before_step_def after_step_def error_step_def Let_def
       worker_simps case_prod_beta continue_chain_backend store_counter results_counter
       split: sum.split option.split\<close>)

lemma count_step:
  assumes W: "wk_result_backend W = Some R" and step: "run_step W ev s = Some t"
    and alters: "\<not> alters_group counter g ev s" and c: "count g s = Some c" "Suc c < 2 ^ 32"
  shows "count g t = Some (if \<exists>n. told R g n ev s then Suc c else c)"
proof (cases ev)
  case (Resume k)
  with step resume_count [OF W _ c] show ?thesis by (auto split: if_splits)
next
  case Dequeue
  with step c show ?thesis
    by (auto simp: told_def dequeue_step_def release_permit_def worker_simps case_prod_beta
        split: if_splits sum.splits option.splits)
qed (use step c alters in \<open>auto simp: told_def alters_group_def end_task_def
       release_permit_def start_drain_def drain_check_def worker_simps split: if_splits run_phase.splits\<close>)

lemma told_number:
  assumes "told R g n ev s" and "count g s = Some c" and "Suc c < 2 ^ 32"
  shows "unat n = Suc c"
proof -
  from assms(1) complete_counts [OF _ assms(2,3), of _ _ n] have "n = of_nat (Suc c)"
    by (auto simp: told_def split: run_event.splits stage.splits)
  then show ?thesis using assms(3) by (simp only: unat_of_nat) simp
qed

lemma count_run:
  assumes W: "wk_result_backend W = Some R"
  shows "\<lbrakk>run_steps W evs s = Some s'; count_events (alters_group counter g) W evs s = 0; count g s = Some c;
      c + length evs < 2 ^ 32\<rbrakk> \<Longrightarrow>
    \<exists>c'. count g s' = Some c' \<and> c \<le> c' \<and>
      count_events (told R g n) W evs s = (if c < unat n \<and> unat n \<le> c' then 1 else 0)"
proof (induction evs arbitrary: s c)
  case Nil
  then show ?case by auto
next
  case (Cons ev evs)
  then obtain t where t: "run_step W ev s = Some t" "run_steps W evs t = Some s'"
    by (auto split: option.splits)
  let ?c = "if \<exists>n. told R g n ev s then Suc c else c"
  from Cons.prems(2) t(1) have alters: "\<not> alters_group counter g ev s" "count_events (alters_group counter g) W evs t = 0"
    by (auto split: if_splits)
  have small: "Suc c < 2 ^ 32" "?c + length evs < 2 ^ 32" using Cons.prems(4) by auto
  from Cons.IH [OF t(2) alters(2) count_step [OF W t(1) alters(1) Cons.prems(3) small(1)] small(2)]
  obtain c' where c': "count g s' = Some c'" "?c \<le> c'"
    "count_events (told R g n) W evs t = (if ?c < unat n \<and> unat n \<le> c' then 1 else 0)" by blast
  have number: "unat n' = Suc c" if "told R g n' ev s" for n'
    using that Cons.prems(3) small(1) by (rule told_number)
  show ?case
  proof (cases "\<exists>n'. told R g n' ev s")
    case True
    then have "told R g n ev s \<longleftrightarrow> unat n = Suc c" using number by (metis word_unat_eq_iff)
    with True c' t(1) show ?thesis by auto
  next
    case False
    with c' t(1) show ?thesis by auto
  qed
qed

lemma told_once:
  assumes "wk_result_backend W = Some R" and "run_steps W evs s = Some s'"
    and "count_events (alters_group counter g) W evs s = 0" and "count g s = Some c"
    and "c + length evs < 2 ^ 32"
  shows "\<exists>c'. count g s' = Some c' \<and>
    count_events (told R g n) W evs s = (if c < unat n \<and> unat n \<le> c' then 1 else 0) \<and>
    count_events (fires W g n) W evs s \<le> 1"
proof -
  have "count_events (fires W g n) W evs s \<le> count_events (told R g n) W evs s"
    using fires_told [OF assms(1)] by (rule count_events_mono)
  with count_run [OF assms, of n] show ?thesis by auto
qed

end

text \<open>The in-memory backend counts under the lock of its groups.\<close>

definition mr_counter :: "string \<Rightarrow> 'v MemoryResultBackend \<Rightarrow> nat option" where
  "mr_counter g r = map_option (unat \<circ> gs_completed) (mr_groups r g)"

interpretation memory_counter: group_counter "memory_result_backend fmt" mr_counter
proof unfold_locales
  fix g i n c and v :: 'a and r :: "'a MemoryResultBackend"
  let ?R = "memory_result_backend fmt"
  assume n: "fst (r_complete_group_member ?R g i v r) = Inr n" and c: "mr_counter g r = Some c" "Suc c < 2 ^ 32"
  from c(1) obtain st where st: "mr_groups r g = Some st" "c = unat (gs_completed st)" by (auto simp: mr_counter_def)
  with c(2) have "unat (gs_completed st + 1) = Suc c" by (simp add: unat_word_ariths)
  with n st show "n = of_nat (Suc c) \<and> mr_counter g (snd (r_complete_group_member ?R g i v r)) = Some (Suc c)"
    by (auto simp: backend_simps mr_complete_group_member_def mr_counter_def)
qed (auto simp: backend_simps mr_counter_def mr_store_def mr_get_group_results_def mr_complete_group_member_def
       split: option.splits)

subsection \<open>Shutdown on a signal (shutdown.rs)\<close>

text \<open>
  \<open>shutdown_signal\<close> spawns a task that installs a handler for each of two signals, waits for the first
  of them and cancels the token. Given whether the handlers can be installed and the signals
  that arrive from then on, in order, these are the events it causes in the run of the worker
  that holds the token. A handler that cannot be installed panics: only the spawned task
  ends, and the token is never cancelled.
\<close>

datatype os_signal = SIGTERM | SIGINT | OtherSignal nat

fun await_signal :: "os_signal list \<Rightarrow> os_signal list option" where
  "await_signal [] = None"
| "await_signal (sg # sgs) = (if sg = SIGTERM \<or> sg = SIGINT then Some sgs else await_signal sgs)"

definition shutdown_signal :: "(os_signal \<Rightarrow> bool) \<Rightarrow> os_signal list \<Rightarrow> ('b, 'r, 'x) run_event list" where
  "shutdown_signal installs arrivals =
     (if \<not> installs SIGTERM then []
      else if \<not> installs SIGINT then []
      else case await_signal arrivals of None \<Rightarrow> [] | Some later \<Rightarrow> [Cancel])"

lemma await_signal_None: "await_signal sgs = None \<longleftrightarrow> SIGTERM \<notin> set sgs \<and> SIGINT \<notin> set sgs"
  by (induction sgs) auto

lemma shutdown_signal_cancels:
  "\<lbrakk>installs SIGTERM; installs SIGINT; SIGTERM \<in> set arrivals \<or> SIGINT \<in> set arrivals\<rbrakk> \<Longrightarrow>
     shutdown_signal installs arrivals = [Cancel]"
  using await_signal_None [of arrivals] by (auto simp: shutdown_signal_def split: option.split)

text \<open>A worker between two rounds that gets such a signal drains and stops; tasks that run on do not hold it up.\<close>

lemma shutdown_signal_stops:
  assumes "installs SIGTERM" "installs SIGINT" and "SIGTERM \<in> set arrivals \<or> SIGINT \<in> set arrivals"
    and "rs_phase s = LoopTop"
  shows "\<exists>n s'. run_steps W (shutdown_signal installs arrivals @ CheckToken #
      concat (replicate n [DrainCheck, DrainWake]) @ [DrainCheck]) s = Some s' \<and> rs_phase s' = Stopped"
proof -
  let ?t = "start_drain W (s\<lparr>rs_cancelled := True\<rparr>)"
  obtain n s' where "run_steps W (concat (replicate n [DrainCheck, DrainWake]) @ [DrainCheck]) ?t = Some s'"
    and "rs_phase s' = Stopped"
    using drain_alone_stops [of ?t _ W] by (auto simp: start_drain_def)
  then show ?thesis
    using assms(4) by (intro exI [of _ n] exI [of _ s']) (simp add: shutdown_signal_cancels [OF assms(1-3)])
qed

end
