(* ===== verification/Kojin_Redis_Server.thy ===== *)
theory Kojin_Redis_Server
  imports Kojin_Types
begin

text \<open>
  The interface to Redis that the crate \<open>kojin-redis\<close> uses: the commands as a record of
  functions over a server state, and their documented effect as the locale \<open>redis_server\<close>
  over a view of the state as lists, strings, counters and sorted sets. Expiry is not part
  of the view: the laws describe the commands, between which no key expires.

  \<open>redis_ref\<close> is an executable reference of the same commands.
\<close>

subsection \<open>Commands\<close>

record 'd redis_api =
  rd_conn :: "'d \<Rightarrow> (string + unit) \<times> 'd"
  rd_set_nx_ex :: "string \<Rightarrow> string \<Rightarrow> u64 \<Rightarrow> 'd \<Rightarrow> (string + bool) \<times> 'd"
  rd_set_ex :: "string \<Rightarrow> string \<Rightarrow> int \<Rightarrow> 'd \<Rightarrow> (string + unit) \<times> 'd"
  rd_get :: "string \<Rightarrow> 'd \<Rightarrow> (string + string option) \<times> 'd"
  rd_del :: "string \<Rightarrow> 'd \<Rightarrow> (string + unit) \<times> 'd"
  rd_lpush :: "string \<Rightarrow> string \<Rightarrow> 'd \<Rightarrow> (string + unit) \<times> 'd"
  rd_blmove :: "string \<Rightarrow> string \<Rightarrow> Duration \<Rightarrow> 'd \<Rightarrow> (string + string option) \<times> 'd"
  rd_lrange :: "string \<Rightarrow> int \<Rightarrow> int \<Rightarrow> 'd \<Rightarrow> (string + string list) \<times> 'd"
  rd_lrem :: "string \<Rightarrow> string \<Rightarrow> 'd \<Rightarrow> (string + unit) \<times> 'd"
  rd_llen :: "string \<Rightarrow> 'd \<Rightarrow> (string + nat) \<times> 'd"
  rd_zadd :: "string \<Rightarrow> string \<Rightarrow> int \<Rightarrow> 'd \<Rightarrow> (string + unit) \<times> 'd"
  rd_keys :: "string \<Rightarrow> 'd \<Rightarrow> (string + string list) \<times> 'd"
  rd_eval :: "('d \<Rightarrow> nat \<times> 'd) \<Rightarrow> 'd \<Rightarrow> (string + nat) \<times> 'd"
  rl_zrangebyscore :: "string \<Rightarrow> int \<Rightarrow> nat \<Rightarrow> 'd \<Rightarrow> string list \<times> 'd"
  rl_zremrangebyscore :: "string \<Rightarrow> int \<Rightarrow> 'd \<Rightarrow> 'd"
  rl_lpush :: "string \<Rightarrow> string \<Rightarrow> 'd \<Rightarrow> 'd"
  rl_rpush :: "string \<Rightarrow> string \<Rightarrow> 'd \<Rightarrow> 'd"
  rl_incr :: "string \<Rightarrow> 'd \<Rightarrow> nat \<times> 'd"

text \<open>What the commands are about.\<close>

record redis_db =
  db_strings :: "string \<rightharpoonup> string"
  db_lists :: "string \<Rightarrow> string list"
  db_counters :: "string \<Rightarrow> nat"
  db_zsets :: "string \<Rightarrow> (int \<times> string) list"

definition lrange :: "int \<Rightarrow> int \<Rightarrow> 'a list \<Rightarrow> 'a list" where
  "lrange start stop xs =
     (let n = int (length xs);
          i = (if start < 0 then max 0 (n + start) else start);
          j = (if stop < 0 then n + stop else min stop (n - 1))
      in if i > j then [] else take (nat (j - i + 1)) (drop (nat i) xs))"

lemma lrange_all [simp]: "lrange 0 (- 1) xs = xs"
  by (simp add: lrange_def)

definition zadd :: "int \<Rightarrow> string \<Rightarrow> (int \<times> string) list \<Rightarrow> (int \<times> string) list" where
  "zadd sc m z =
     (let z' = filter (\<lambda>p. snd p \<noteq> m) z
      in takeWhile (\<lambda>p. fst p \<le> sc) z' @ (sc, m) # dropWhile (\<lambda>p. fst p \<le> sc) z')"

text \<open>The lifetimes that \<open>SET ... EX\<close> accepts: positive and small enough for the clock of the server in
  milliseconds.\<close>

definition expire_ok :: "int \<Rightarrow> bool" where
  "expire_ok secs \<longleftrightarrow> 0 < secs \<and> secs < 2 ^ 53"

subsection \<open>Documented behaviour\<close>

locale redis_server =
  fixes A :: "'d redis_api" and view :: "'d \<Rightarrow> redis_db"
  assumes conn: "fst (rd_conn A d) = Inr ()" "view (snd (rd_conn A d)) = view d"
    and set_nx_ex: "expire_ok (uint ttl) \<Longrightarrow>
        fst (rd_set_nx_ex A k v ttl d) = Inr (db_strings (view d) k = None)"
      "expire_ok (uint ttl) \<Longrightarrow> view (snd (rd_set_nx_ex A k v ttl d)) =
         (if db_strings (view d) k = None
          then (view d)\<lparr>db_strings := (db_strings (view d))(k \<mapsto> v)\<rparr> else view d)"
    and set_nx_ex_error: "ttl = 0 \<Longrightarrow> \<exists>e. fst (rd_set_nx_ex A k v ttl d) = Inl e"
      "ttl = 0 \<Longrightarrow> view (snd (rd_set_nx_ex A k v ttl d)) = view d"
    and set_ex: "expire_ok secs \<Longrightarrow> fst (rd_set_ex A k v secs d) = Inr ()"
      "expire_ok secs \<Longrightarrow> view (snd (rd_set_ex A k v secs d)) =
         (view d)\<lparr>db_strings := (db_strings (view d))(k \<mapsto> v)\<rparr>"
    and set_ex_others: "db_lists (view (snd (rd_set_ex A k v secs d))) = db_lists (view d)"
      "db_counters (view (snd (rd_set_ex A k v secs d))) = db_counters (view d)"
      "db_zsets (view (snd (rd_set_ex A k v secs d))) = db_zsets (view d)"
    and get: "fst (rd_get A k d) = Inr (db_strings (view d) k)" "view (snd (rd_get A k d)) = view d"
    and del: "fst (rd_del A k d) = Inr ()"
      "db_strings (view (snd (rd_del A k d))) = (db_strings (view d))(k := None)"
    and lpush: "fst (rd_lpush A k v d) = Inr ()"
      "view (snd (rd_lpush A k v d)) =
         (view d)\<lparr>db_lists := (db_lists (view d))(k := v # db_lists (view d) k)\<rparr>"
    and blmove_empty: "db_lists (view d) src = [] \<Longrightarrow> fst (rd_blmove A src dst t d) = Inr None"
      "db_lists (view d) src = [] \<Longrightarrow> view (snd (rd_blmove A src dst t d)) = view d"
    and blmove_move: "db_lists (view d) src = xs @ [x] \<Longrightarrow> src \<noteq> dst \<Longrightarrow>
        fst (rd_blmove A src dst t d) = Inr (Some x)"
      "db_lists (view d) src = xs @ [x] \<Longrightarrow> src \<noteq> dst \<Longrightarrow>
        view (snd (rd_blmove A src dst t d)) =
          (view d)\<lparr>db_lists := (db_lists (view d))(src := xs, dst := x # db_lists (view d) dst)\<rparr>"
    and lrange: "fst (rd_lrange A k i j d) = Inr (lrange i j (db_lists (view d) k))"
      "view (snd (rd_lrange A k i j d)) = view d"
    and lrem: "fst (rd_lrem A k x d) = Inr ()"
      "view (snd (rd_lrem A k x d)) =
         (view d)\<lparr>db_lists := (db_lists (view d))(k := remove1 x (db_lists (view d) k))\<rparr>"
    and llen: "fst (rd_llen A k d) = Inr (length (db_lists (view d) k))"
      "view (snd (rd_llen A k d)) = view d"
    and zadd: "fst (rd_zadd A k m sc d) = Inr ()"
      "view (snd (rd_zadd A k m sc d)) =
         (view d)\<lparr>db_zsets := (db_zsets (view d))(k := zadd sc m (db_zsets (view d) k))\<rparr>"
    and eval: "fst (rd_eval A script d) = Inr (fst (script d))"
      "snd (rd_eval A script d) = snd (script d)"
    and zrangebyscore: "fst (rl_zrangebyscore A k mx lim d) =
          take lim (map snd (filter (\<lambda>p. fst p \<le> mx) (db_zsets (view d) k)))"
      "view (snd (rl_zrangebyscore A k mx lim d)) = view d"
    and zremrangebyscore: "view (rl_zremrangebyscore A k mx d) =
          (view d)\<lparr>db_zsets := (db_zsets (view d))
             (k := filter (\<lambda>p. \<not> fst p \<le> mx) (db_zsets (view d) k))\<rparr>"
    and script_lpush: "view (rl_lpush A k v d) =
          (view d)\<lparr>db_lists := (db_lists (view d))(k := v # db_lists (view d) k)\<rparr>"
    and script_rpush: "view (rl_rpush A k v d) =
          (view d)\<lparr>db_lists := (db_lists (view d))(k := db_lists (view d) k @ [v])\<rparr>"
    and incr: "fst (rl_incr A k d) = Suc (db_counters (view d) k)"
      "view (snd (rl_incr A k d)) =
         (view d)\<lparr>db_counters := (db_counters (view d))(k := Suc (db_counters (view d) k))\<rparr>"

subsection \<open>The reference server\<close>

definition redis_ref :: "redis_db redis_api" where
  "redis_ref =
     \<lparr>rd_conn = (\<lambda>d. (Inr (), d)),
      rd_set_nx_ex = (\<lambda>k v ttl d.
        if \<not> expire_ok (uint ttl) then (Inl ''invalid expire time'', d)
        else if db_strings d k = None then (Inr True, d\<lparr>db_strings := (db_strings d)(k \<mapsto> v)\<rparr>)
        else (Inr False, d)),
      rd_set_ex = (\<lambda>k v secs d.
        if \<not> expire_ok secs then (Inl ''invalid expire time'', d)
        else (Inr (), d\<lparr>db_strings := (db_strings d)(k \<mapsto> v)\<rparr>)),
      rd_get = (\<lambda>k d. (Inr (db_strings d k), d)),
      rd_del = (\<lambda>k d. (Inr (), d\<lparr>db_strings := (db_strings d)(k := None)\<rparr>)),
      rd_lpush = (\<lambda>k v d. (Inr (), d\<lparr>db_lists := (db_lists d)(k := v # db_lists d k)\<rparr>)),
      rd_blmove = (\<lambda>src dst t d.
        if db_lists d src = [] then (Inr None, d)
        else (let x = last (db_lists d src);
                  l = (db_lists d)(src := butlast (db_lists d src))
              in (Inr (Some x), d\<lparr>db_lists := l(dst := x # l dst)\<rparr>))),
      rd_lrange = (\<lambda>k i j d. (Inr (lrange i j (db_lists d k)), d)),
      rd_lrem = (\<lambda>k x d. (Inr (), d\<lparr>db_lists := (db_lists d)(k := remove1 x (db_lists d k))\<rparr>)),
      rd_llen = (\<lambda>k d. (Inr (length (db_lists d k)), d)),
      rd_zadd = (\<lambda>k m sc d.
        (Inr (), d\<lparr>db_zsets := (db_zsets d)(k := zadd sc m (db_zsets d k))\<rparr>)),
      rd_keys = (\<lambda>pat d. (Inr [], d)),
      rd_eval = (\<lambda>script d. (Inr (fst (script d)), snd (script d))),
      rl_zrangebyscore = (\<lambda>k mx lim d.
        (take lim (map snd (filter (\<lambda>p. fst p \<le> mx) (db_zsets d k))), d)),
      rl_zremrangebyscore = (\<lambda>k mx d.
        d\<lparr>db_zsets := (db_zsets d)(k := filter (\<lambda>p. \<not> fst p \<le> mx) (db_zsets d k))\<rparr>),
      rl_lpush = (\<lambda>k v d. d\<lparr>db_lists := (db_lists d)(k := v # db_lists d k)\<rparr>),
      rl_rpush = (\<lambda>k v d. d\<lparr>db_lists := (db_lists d)(k := db_lists d k @ [v])\<rparr>),
      rl_incr = (\<lambda>k d. (Suc (db_counters d k),
        d\<lparr>db_counters := (db_counters d)(k := Suc (db_counters d k))\<rparr>))\<rparr>"

definition redis_empty :: redis_db where
  "redis_empty =
     \<lparr>db_strings = Map.empty, db_lists = (\<lambda>_. []), db_counters = (\<lambda>_. 0), db_zsets = (\<lambda>_. [])\<rparr>"

interpretation redis_reference: redis_server redis_ref "\<lambda>d. d"
  by unfold_locales (auto simp: redis_ref_def Let_def expire_ok_def)

end
