(* ===== verification/Kojin_Redis.thy ===== *)
theory Kojin_Redis
  imports Kojin_Broker Kojin_Result_Backend Kojin_Redis_Server
begin

text \<open>
  The Redis broker and result backend (crate \<open>kojin-redis\<close>): configuration, key names, the
  Lua scripts, the broker and the backend, over the commands of \<open>Kojin_Redis_Server\<close>.
  \<open>serde_json\<close>'s conversions of messages and values, and Lua's \<open>cjson.decode(item).queue\<close>,
  are the record \<open>json_api\<close>.
\<close>

record 'v json_api =
  js_message_to :: "'v TaskMessage \<Rightarrow> string + string"
  js_message_from :: "string \<Rightarrow> string + 'v TaskMessage"
  js_value_to :: "'v \<Rightarrow> string + string"
  js_value_from :: "string \<Rightarrow> string + 'v"
  js_lua_queue :: "string \<Rightarrow> string"

subsection \<open>Configuration (config.rs)\<close>

record RedisConfig =
  rc_url :: string
  rc_pool_size :: nat
  rc_key_prefix :: string
  rc_dedup_ttl :: u64

definition redis_config_default :: RedisConfig where
  "redis_config_default =
     \<lparr>rc_url = ''redis://127.0.0.1:6379'', rc_pool_size = 10, rc_key_prefix = ''kojin'',
      rc_dedup_ttl = 300\<rparr>"

definition redis_config_new :: "string \<Rightarrow> RedisConfig" where
  "redis_config_new url = redis_config_default\<lparr>rc_url := url\<rparr>"

definition rc_with_pool_size :: "nat \<Rightarrow> RedisConfig \<Rightarrow> RedisConfig" where
  "rc_with_pool_size n c = c\<lparr>rc_pool_size := n\<rparr>"

definition rc_with_prefix :: "string \<Rightarrow> RedisConfig \<Rightarrow> RedisConfig" where
  "rc_with_prefix p c = c\<lparr>rc_key_prefix := p\<rparr>"

definition rc_with_dedup_ttl :: "u64 \<Rightarrow> RedisConfig \<Rightarrow> RedisConfig" where
  "rc_with_dedup_ttl n c = c\<lparr>rc_dedup_ttl := n\<rparr>"

subsection \<open>Keys (keys.rs)\<close>

record KeyBuilder =
  kb_prefix :: string

definition key_builder_new :: "string \<Rightarrow> KeyBuilder" where
  "key_builder_new p = \<lparr>kb_prefix = p\<rparr>"

definition key_queue :: "KeyBuilder \<Rightarrow> string \<Rightarrow> string" where
  "key_queue K name = kb_prefix K @ '':queue:'' @ name"

definition key_processing :: "KeyBuilder \<Rightarrow> string \<Rightarrow> string" where
  "key_processing K worker = kb_prefix K @ '':processing:'' @ worker"

definition key_scheduled :: "KeyBuilder \<Rightarrow> string" where
  "key_scheduled K = kb_prefix K @ '':scheduled''"

definition key_dlq :: "KeyBuilder \<Rightarrow> string \<Rightarrow> string" where
  "key_dlq K name = kb_prefix K @ '':dlq:'' @ name"

definition key_message :: "KeyBuilder \<Rightarrow> string \<Rightarrow> string" where
  "key_message K i = kb_prefix K @ '':msg:'' @ i"

definition key_result :: "KeyBuilder \<Rightarrow> string \<Rightarrow> string" where
  "key_result K i = kb_prefix K @ '':result:'' @ i"

definition key_group_total :: "KeyBuilder \<Rightarrow> string \<Rightarrow> string" where
  "key_group_total K g = kb_prefix K @ '':group:'' @ g @ '':total''"

definition key_group_completed :: "KeyBuilder \<Rightarrow> string \<Rightarrow> string" where
  "key_group_completed K g = kb_prefix K @ '':group:'' @ g @ '':completed''"

definition key_group_results :: "KeyBuilder \<Rightarrow> string \<Rightarrow> string" where
  "key_group_results K g = kb_prefix K @ '':group:'' @ g @ '':results''"

definition key_dedup :: "KeyBuilder \<Rightarrow> string \<Rightarrow> string" where
  "key_dedup K k = kb_prefix K @ '':dedup:'' @ k"

lemmas key_defs =
  key_queue_def key_processing_def key_scheduled_def key_dlq_def key_message_def key_result_def
  key_group_total_def key_group_completed_def key_group_results_def key_dedup_def

lemma key_distinct [simp]:
  "key_queue K a \<noteq> key_processing K b" "key_processing K b \<noteq> key_queue K a"
  "key_queue K a \<noteq> key_dlq K b" "key_dlq K b \<noteq> key_queue K a"
  "key_dlq K a \<noteq> key_processing K b" "key_processing K b \<noteq> key_dlq K a"
  "key_group_results K a \<noteq> key_queue K b" "key_group_results K a \<noteq> key_processing K b"
  "key_group_results K a \<noteq> key_dlq K b"
  by (simp_all add: key_defs)

lemma key_inject [simp]:
  "key_queue K a = key_queue K b \<longleftrightarrow> a = b"
  "key_dlq K a = key_dlq K b \<longleftrightarrow> a = b"
  "key_result K a = key_result K b \<longleftrightarrow> a = b"
  "key_dedup K a = key_dedup K b \<longleftrightarrow> a = b"
  "key_group_completed K a = key_group_completed K b \<longleftrightarrow> a = b"
  "key_group_results K a = key_group_results K b \<longleftrightarrow> a = b"
  "key_group_total K a = key_group_total K b \<longleftrightarrow> a = b"
  by (simp_all add: key_defs)

subsection \<open>Lua scripts\<close>

definition poll_scheduled_script :: "'d redis_api \<Rightarrow> (string \<Rightarrow> string) \<Rightarrow> string \<Rightarrow> int \<Rightarrow> string \<Rightarrow>
    'd \<Rightarrow> nat \<times> 'd" where
  "poll_scheduled_script A lua_queue scheduled_key now prefix d =
     (let (items, d1) = rl_zrangebyscore A scheduled_key now 100 d
      in if items = [] then (0, d1)
         else (let d2 = fold (\<lambda>item d. rl_lpush A (prefix @ '':queue:'' @ lua_queue item) item d) items d1;
                   d3 = rl_zremrangebyscore A scheduled_key now d2
               in (length items, d3)))"

definition group_complete_script :: "'d redis_api \<Rightarrow> string \<Rightarrow> string \<Rightarrow> string \<Rightarrow> 'd \<Rightarrow> nat \<times> 'd" where
  "group_complete_script A completed_key results_key result d =
     (let (count, d1) = rl_incr A completed_key d
      in (count, rl_rpush A results_key result d1))"

subsection \<open>The broker (broker.rs)\<close>

record RedisBroker =
  rb_keys :: KeyBuilder
  rb_worker_id :: string
  rb_dedup_ttl :: u64

definition redis_broker_new :: "'d redis_api \<Rightarrow> (uuid \<Rightarrow> string) \<Rightarrow> uuid \<Rightarrow> RedisConfig \<Rightarrow> 'd \<Rightarrow>
    RedisBroker TaskResult \<times> 'd" where
  "redis_broker_new A uuid_fmt now_v7 cfg =
     try_then (map_err Broker (rd_conn A)) (\<lambda>_ d.
       (Inr \<lparr>rb_keys = key_builder_new (rc_key_prefix cfg), rb_worker_id = uuid_fmt now_v7,
             rb_dedup_ttl = rc_dedup_ttl cfg\<rparr>, d))"

definition starts_with :: "string \<Rightarrow> string \<Rightarrow> bool" where
  "starts_with pat s \<longleftrightarrow> take (length pat) s = pat"

fun str_contains :: "string \<Rightarrow> string \<Rightarrow> bool" where
  "str_contains pat [] \<longleftrightarrow> pat = []"
| "str_contains pat (c # cs) \<longleftrightarrow> starts_with pat (c # cs) \<or> str_contains pat cs"

text \<open>\<open>str::replace(pat, "")\<close> for a non-empty pattern.\<close>

function str_remove :: "string \<Rightarrow> string \<Rightarrow> string" where
  "str_remove pat s =
     (if pat = [] \<or> s = [] then s
      else if starts_with pat s then str_remove pat (drop (length pat) s)
      else hd s # str_remove pat (tl s))"
  by pat_completeness auto
termination by (relation "measure (\<lambda>(pat, s). length s)") auto

declare str_remove.simps [simp del]

definition rb_poll_scheduled :: "'d redis_api \<Rightarrow> 'v json_api \<Rightarrow> RedisBroker \<Rightarrow> int \<Rightarrow> 'd \<Rightarrow>
    nat TaskResult \<times> 'd" where
  "rb_poll_scheduled A J b now =
     try_then (map_err Broker (rd_conn A)) (\<lambda>_.
       map_err Broker (rd_eval A (poll_scheduled_script A (js_lua_queue J) (key_scheduled (rb_keys b))
         now (str_remove '':scheduled'' (key_scheduled (rb_keys b))))))"

definition rb_push :: "'d redis_api \<Rightarrow> 'v json_api \<Rightarrow> string \<Rightarrow> 'v TaskMessage \<Rightarrow> 'd \<Rightarrow>
    unit TaskResult \<times> 'd" where
  "rb_push A J key m =
     try_then (pure_call Serialization (js_message_to J m)) (\<lambda>serialized.
       map_err Broker (rd_lpush A key serialized))"

definition rb_enqueue :: "'d redis_api \<Rightarrow> 'v json_api \<Rightarrow> RedisBroker \<Rightarrow> 'v TaskMessage \<Rightarrow> 'd \<Rightarrow>
    unit TaskResult \<times> 'd" where
  "rb_enqueue A J b m =
     try_then (map_err Broker (rd_conn A)) (\<lambda>_ d.
       case dedup_key (mfields m) of
         None \<Rightarrow> rb_push A J (key_queue (rb_keys b) (msg_queue m)) m d
       | Some k \<Rightarrow>
           (let (r, d1) = rd_set_nx_ex A (key_dedup (rb_keys b) k) ''1'' (rb_dedup_ttl b) d;
                is_set = (case r of Inl e \<Rightarrow> False | Inr x \<Rightarrow> x)
            in if \<not> is_set then (Inr (), d1)
               else rb_push A J (key_queue (rb_keys b) (msg_queue m)) m d1))"

fun rb_scan :: "'d redis_api \<Rightarrow> 'v json_api \<Rightarrow> RedisBroker \<Rightarrow> Duration \<Rightarrow> string list \<Rightarrow> 'd \<Rightarrow>
    'v TaskMessage option TaskResult \<times> 'd" where
  "rb_scan A J b t [] d = (Inr None, d)"
| "rb_scan A J b t (q # qs) d =
     try_then (map_err Broker (rd_blmove A (key_queue (rb_keys b) q)
         (key_processing (rb_keys b) (rb_worker_id b)) t)) (\<lambda>result d1.
       case result of
         Some s \<Rightarrow> try_then (pure_call Serialization (js_message_from J s)) (\<lambda>m d. (Inr (Some m), d)) d1
       | None \<Rightarrow> rb_scan A J b t qs d1) d"

definition rb_dequeue :: "'d redis_api \<Rightarrow> 'v json_api \<Rightarrow> RedisBroker \<Rightarrow> string list \<Rightarrow> Duration \<Rightarrow> 'd \<Rightarrow>
    'v TaskMessage option TaskResult \<times> 'd" where
  "rb_dequeue A J b qs t = try_then (map_err Broker (rd_conn A)) (\<lambda>_. rb_scan A J b t qs)"

definition rb_ack :: "'d redis_api \<Rightarrow> (uuid \<Rightarrow> string) \<Rightarrow> RedisBroker \<Rightarrow> TaskId \<Rightarrow> 'd \<Rightarrow>
    unit TaskResult \<times> 'd" where
  "rb_ack A uuid_fmt b i =
     try_then (map_err Broker (rd_conn A)) (\<lambda>_.
       let processing_key = key_processing (rb_keys b) (rb_worker_id b);
           id_str = taskid_display uuid_fmt i
       in try_then (map_err Broker (rd_lrange A processing_key 0 (- 1))) (\<lambda>items d.
            case find (str_contains id_str) items of
              Some item \<Rightarrow> map_err Broker (rd_lrem A processing_key item) d
            | None \<Rightarrow> (Inr (), d)))"

definition rb_nack :: "'d redis_api \<Rightarrow> (uuid \<Rightarrow> string) \<Rightarrow> 'v json_api \<Rightarrow> RedisBroker \<Rightarrow> 'v TaskMessage \<Rightarrow>
    'd \<Rightarrow> unit TaskResult \<times> 'd" where
  "rb_nack A uuid_fmt J b m =
     try_then (rb_ack A uuid_fmt b (msg_id m)) (\<lambda>_. rb_enqueue A J b m)"

definition rb_dead_letter :: "'d redis_api \<Rightarrow> (uuid \<Rightarrow> string) \<Rightarrow> 'v json_api \<Rightarrow> RedisBroker \<Rightarrow>
    'v TaskMessage \<Rightarrow> 'd \<Rightarrow> unit TaskResult \<times> 'd" where
  "rb_dead_letter A uuid_fmt J b m =
     try_then (map_err Broker (rd_conn A)) (\<lambda>_.
       try_then (rb_ack A uuid_fmt b (msg_id m)) (\<lambda>_.
         rb_push A J (key_dlq (rb_keys b) (msg_queue m)) m))"

text \<open>\<open>timestamp()\<close> rounds down to whole seconds; as a score it is exact below \<open>2 ^ 53\<close>.\<close>

definition timestamp :: "DateTime \<Rightarrow> int" where
  "timestamp t = t div int nanos_per_sec"

definition rb_schedule :: "'d redis_api \<Rightarrow> 'v json_api \<Rightarrow> RedisBroker \<Rightarrow> 'v TaskMessage \<Rightarrow> DateTime \<Rightarrow>
    'd \<Rightarrow> unit TaskResult \<times> 'd" where
  "rb_schedule A J b m t =
     try_then (map_err Broker (rd_conn A)) (\<lambda>_.
       try_then (pure_call Serialization (js_message_to J m)) (\<lambda>serialized.
         map_err Broker (rd_zadd A (key_scheduled (rb_keys b)) serialized (timestamp t))))"

definition rb_queue_len :: "'d redis_api \<Rightarrow> RedisBroker \<Rightarrow> string \<Rightarrow> 'd \<Rightarrow> nat TaskResult \<times> 'd" where
  "rb_queue_len A b q =
     try_then (map_err Broker (rd_conn A)) (\<lambda>_. map_err Broker (rd_llen A (key_queue (rb_keys b) q)))"

definition rb_dlq_len :: "'d redis_api \<Rightarrow> RedisBroker \<Rightarrow> string \<Rightarrow> 'd \<Rightarrow> nat TaskResult \<times> 'd" where
  "rb_dlq_len A b q =
     try_then (map_err Broker (rd_conn A)) (\<lambda>_. map_err Broker (rd_llen A (key_dlq (rb_keys b) q)))"

definition strip_prefix :: "string \<Rightarrow> string \<Rightarrow> string option" where
  "strip_prefix pat s = (if starts_with pat s then Some (drop (length pat) s) else None)"

definition rb_list_queues :: "'d redis_api \<Rightarrow> RedisBroker \<Rightarrow> 'd \<Rightarrow> string list TaskResult \<times> 'd" where
  "rb_list_queues A b =
     try_then (map_err Broker (rd_conn A)) (\<lambda>_.
       try_then (map_err Broker (rd_keys A (kb_prefix (rb_keys b) @ '':queue:*''))) (\<lambda>ks d.
         (Inr (List.map_filter (strip_prefix (kb_prefix (rb_keys b) @ '':queue:'')) ks), d)))"

text \<open>Collecting a list of results stops at the first error.\<close>

fun collect_results :: "('e + 'a) list \<Rightarrow> 'e + 'a list" where
  "collect_results [] = Inr []"
| "collect_results (Inl e # rs) = Inl e"
| "collect_results (Inr a # rs) =
     (case collect_results rs of Inl e \<Rightarrow> Inl e | Inr xs \<Rightarrow> Inr (a # xs))"

text \<open>\<open>offset + limit - 1\<close> wraps in a release build; \<open>as isize\<close> reinterprets the word.\<close>

definition rb_dlq_messages :: "'d redis_api \<Rightarrow> 'v json_api \<Rightarrow> RedisBroker \<Rightarrow> string \<Rightarrow> usize \<Rightarrow> usize \<Rightarrow>
    'd \<Rightarrow> 'v TaskMessage list TaskResult \<times> 'd" where
  "rb_dlq_messages A J b q offset limit =
     try_then (map_err Broker (rd_conn A)) (\<lambda>_.
       try_then (map_err Broker (rd_lrange A (key_dlq (rb_keys b) q) (sint offset)
           (sint (offset + limit - 1)))) (\<lambda>items.
         pure_call Serialization (collect_results (map (js_message_from J) items))))"

definition redis_broker :: "'d redis_api \<Rightarrow> (uuid \<Rightarrow> string) \<Rightarrow> 'v json_api \<Rightarrow> RedisBroker \<Rightarrow>
    ('d, 'v) Broker" where
  "redis_broker A uuid_fmt J b =
     \<lparr>b_enqueue = rb_enqueue A J b, b_dequeue = rb_dequeue A J b, b_ack = rb_ack A uuid_fmt b,
      b_nack = rb_nack A uuid_fmt J b, b_dead_letter = rb_dead_letter A uuid_fmt J b,
      b_schedule = rb_schedule A J b, b_queue_len = rb_queue_len A b, b_dlq_len = rb_dlq_len A b,
      b_list_queues = rb_list_queues A b, b_dlq_messages = rb_dlq_messages A J b\<rparr>"

lemma collect_results_Inr: "collect_results (map (\<lambda>x. Inr (f x)) xs) = Inr (map f xs)"
  by (induction xs) simp_all

subsection \<open>The result backend (result_backend.rs)\<close>

record RedisResultBackend =
  rr_keys :: KeyBuilder
  rr_ttl :: Duration

definition redis_result_backend_new :: "'d redis_api \<Rightarrow> RedisConfig \<Rightarrow> 'd \<Rightarrow>
    RedisResultBackend TaskResult \<times> 'd" where
  "redis_result_backend_new A cfg =
     try_then (map_err ResultBackend (rd_conn A)) (\<lambda>_ d.
       (Inr \<lparr>rr_keys = key_builder_new (rc_key_prefix cfg), rr_ttl = duration_from_secs 86400\<rparr>, d))"

definition rr_with_ttl :: "Duration \<Rightarrow> RedisResultBackend \<Rightarrow> RedisResultBackend" where
  "rr_with_ttl t b = b\<lparr>rr_ttl := t\<rparr>"

definition ttl_secs :: "RedisResultBackend \<Rightarrow> int" where
  "ttl_secs b = sint (of_nat (rr_ttl b div nanos_per_sec) :: 64 word)"

definition rr_store :: "'d redis_api \<Rightarrow> (uuid \<Rightarrow> string) \<Rightarrow> 'v json_api \<Rightarrow> RedisResultBackend \<Rightarrow>
    TaskId \<Rightarrow> 'v \<Rightarrow> 'd \<Rightarrow> unit TaskResult \<times> 'd" where
  "rr_store A uuid_fmt J b i v =
     try_then (map_err ResultBackend (rd_conn A)) (\<lambda>_.
       try_then (pure_call Serialization (js_value_to J v)) (\<lambda>serialized.
         map_err ResultBackend (rd_set_ex A (key_result (rr_keys b) (taskid_display uuid_fmt i))
           serialized (ttl_secs b))))"

definition rr_get :: "'d redis_api \<Rightarrow> (uuid \<Rightarrow> string) \<Rightarrow> 'v json_api \<Rightarrow> RedisResultBackend \<Rightarrow>
    TaskId \<Rightarrow> 'd \<Rightarrow> 'v option TaskResult \<times> 'd" where
  "rr_get A uuid_fmt J b i =
     try_then (map_err ResultBackend (rd_conn A)) (\<lambda>_.
       try_then (map_err ResultBackend (rd_get A (key_result (rr_keys b) (taskid_display uuid_fmt i))))
         (\<lambda>result d.
           case result of
             None \<Rightarrow> (Inr None, d)
           | Some s \<Rightarrow> try_then (pure_call Serialization (js_value_from J s))
                         (\<lambda>v d. (Inr (Some v), d)) d))"

definition rr_wait :: "'d redis_api \<Rightarrow> (uuid \<Rightarrow> string) \<Rightarrow> 'v json_api \<Rightarrow> RedisResultBackend \<Rightarrow>
    (nat \<Rightarrow> Duration \<times> ('d \<Rightarrow> 'd)) \<Rightarrow> Instant \<Rightarrow> TaskId \<Rightarrow> Duration \<Rightarrow> 'd \<Rightarrow> ('v TaskResult \<times> 'd) option"
where
  "rr_wait A uuid_fmt J b env now i timeout d =
     wait_for (rr_get A uuid_fmt J b i) (duration_from_millis 100) env now timeout d"

definition rr_delete :: "'d redis_api \<Rightarrow> (uuid \<Rightarrow> string) \<Rightarrow> RedisResultBackend \<Rightarrow> TaskId \<Rightarrow> 'd \<Rightarrow>
    unit TaskResult \<times> 'd" where
  "rr_delete A uuid_fmt b i =
     try_then (map_err ResultBackend (rd_conn A)) (\<lambda>_.
       map_err ResultBackend (rd_del A (key_result (rr_keys b) (taskid_display uuid_fmt i))))"

definition rr_init_group :: "'d redis_api \<Rightarrow> RedisResultBackend \<Rightarrow> string \<Rightarrow> u32 \<Rightarrow> 'd \<Rightarrow>
    unit TaskResult \<times> 'd" where
  "rr_init_group A b g n =
     try_then (map_err ResultBackend (rd_conn A)) (\<lambda>_.
       map_err ResultBackend (rd_set_ex A (key_group_total (rr_keys b) g) (show_nat (unat n))
         (ttl_secs b)))"

definition rr_complete_group_member :: "'d redis_api \<Rightarrow> 'v json_api \<Rightarrow> RedisResultBackend \<Rightarrow> string \<Rightarrow>
    TaskId \<Rightarrow> 'v \<Rightarrow> 'd \<Rightarrow> u32 TaskResult \<times> 'd" where
  "rr_complete_group_member A J b g i v =
     try_then (map_err ResultBackend (rd_conn A)) (\<lambda>_.
       try_then (pure_call Serialization (js_value_to J v)) (\<lambda>serialized.
         try_then (map_err ResultBackend (rd_eval A (group_complete_script A
             (key_group_completed (rr_keys b) g) (key_group_results (rr_keys b) g) serialized)))
           (\<lambda>count d. (Inr (of_nat count), d))))"

definition rr_get_group_results :: "'d redis_api \<Rightarrow> 'v json_api \<Rightarrow> RedisResultBackend \<Rightarrow> string \<Rightarrow>
    'd \<Rightarrow> 'v list TaskResult \<times> 'd" where
  "rr_get_group_results A J b g =
     try_then (map_err ResultBackend (rd_conn A)) (\<lambda>_.
       try_then (map_err ResultBackend (rd_lrange A (key_group_results (rr_keys b) g) 0 (- 1)))
         (\<lambda>items. pure_call Serialization (collect_results (map (js_value_from J) items))))"

definition redis_result_backend :: "'d redis_api \<Rightarrow> (uuid \<Rightarrow> string) \<Rightarrow> 'v json_api \<Rightarrow>
    RedisResultBackend \<Rightarrow> ('d, 'v) ResultBackend" where
  "redis_result_backend A uuid_fmt J b =
     \<lparr>r_store = rr_store A uuid_fmt J b, r_get = rr_get A uuid_fmt J b,
      r_delete = rr_delete A uuid_fmt b, r_init_group = rr_init_group A b,
      r_complete_group_member = rr_complete_group_member A J b,
      r_get_group_results = rr_get_group_results A J b\<rparr>"

text \<open>A group that has seen no completion, and one that has seen those of \<open>xs\<close>.\<close>

definition rr_fresh :: "('d \<Rightarrow> redis_db) \<Rightarrow> RedisResultBackend \<Rightarrow> string \<Rightarrow> 'd \<Rightarrow> bool" where
  "rr_fresh view b g d \<longleftrightarrow>
     db_counters (view d) (key_group_completed (rr_keys b) g) = 0 \<and>
     db_lists (view d) (key_group_results (rr_keys b) g) = []"

definition rr_grp :: "('d \<Rightarrow> redis_db) \<Rightarrow> 'v json_api \<Rightarrow> RedisResultBackend \<Rightarrow> string \<Rightarrow>
    (TaskId \<times> 'v) list \<Rightarrow> 'd \<Rightarrow> bool" where
  "rr_grp view J b g xs d \<longleftrightarrow>
     db_counters (view d) (key_group_completed (rr_keys b) g) = length xs \<and>
     map Inr (db_lists (view d) (key_group_results (rr_keys b) g)) = map (js_value_to J \<circ> snd) xs"

locale redis_codec = redis_server A view for A :: "'d redis_api" and view :: "'d \<Rightarrow> redis_db" +
  fixes J :: "'v json_api" and b :: RedisResultBackend
  assumes value_codec: "\<exists>s. js_value_to J v = Inr s \<and> js_value_from J s = Inr v"
    and ttl: "expire_ok (ttl_secs b)"
begin

lemma decode_results:
  "map Inr ss = map (js_value_to J \<circ> snd) xs \<Longrightarrow> map (js_value_from J) ss = map (Inr \<circ> snd) xs"
proof (induction xs arbitrary: ss)
  case (Cons x xs)
  then obtain s ss' where "ss = s # ss'" and "js_value_to J (snd x) = Inr s"
    and "map Inr ss' = map (js_value_to J \<circ> snd) xs" by (cases ss) auto
  with Cons.IH [of ss'] value_codec [of "snd x"] show ?case by auto
qed simp

lemma store_get:
  "fst (rr_get A f J b i (snd (rr_store A f J b i v d))) = Inr (Some v)"
proof -
  obtain s where s: "js_value_to J v = Inr s" "js_value_from J s = Inr v" using value_codec by blast
  let ?k = "key_result (rr_keys b) (taskid_display f i)"
  have "db_strings (view (snd (rr_store A f J b i v d))) ?k = Some s"
    by (simp add: rr_store_def call_simps conn s set_ex ttl)
  then show ?thesis by (simp add: rr_get_def call_simps conn get s)
qed

end

sublocale redis_codec \<subseteq> groups: group_store "rr_init_group A b"
    "rr_complete_group_member A J b" "rr_get_group_results A J b" "rr_fresh view b" "rr_grp view J b"
proof unfold_locales
  fix g n d
  assume "rr_fresh view b g d"
  then show "fst (rr_init_group A b g n d) = Inr ()"
    and "rr_grp view J b g [] (snd (rr_init_group A b g n d))"
    by (simp_all add: rr_init_group_def call_simps conn set_ex ttl rr_fresh_def rr_grp_def)
next
  fix g xs d i v
  assume grp: "rr_grp view J b g xs d" and "i \<notin> fst ` set xs"
  obtain s where s: "js_value_to J v = Inr s" using value_codec by blast
  from grp show "fst (rr_complete_group_member A J b g i v d) = Inr (of_nat (Suc (length xs)))"
    by (simp add: rr_complete_group_member_def call_simps conn s eval group_complete_script_def
        case_prod_beta incr rr_grp_def)
  from grp show "rr_grp view J b g (xs @ [(i, v)]) (snd (rr_complete_group_member A J b g i v d))"
    by (simp add: rr_complete_group_member_def call_simps conn s eval group_complete_script_def
        case_prod_beta incr rr_grp_def script_rpush)
next
  fix g xs d
  assume "rr_grp view J b g xs d"
  then have "map (js_value_from J) (db_lists (view d) (key_group_results (rr_keys b) g))
      = map (Inr \<circ> snd) xs"
    by (intro decode_results) (simp add: rr_grp_def)
  then have "fst (rr_get_group_results A J b g d) = Inr (map snd xs)"
    by (simp add: rr_get_group_results_def call_simps conn lrange comp_def collect_results_Inr)
  then show "\<exists>vs. fst (rr_get_group_results A J b g d) = Inr vs \<and> mset vs = image_mset snd (mset xs)"
    by simp
qed

context redis_codec
begin

lemma redis_last_member:
  assumes "rr_fresh view b g d" and "distinct (map fst ys)" and "length ys = n" and "0 < n"
    and "n < 2 ^ 32"
  defines "out \<equiv> complete_all (rr_complete_group_member A J b) g ys (snd (rr_init_group A b g (of_nat n) d))"
  shows "[k \<leftarrow> [0..<n]. fst out ! k = Inr (of_nat n)] = [n - 1] \<and>
    (\<exists>vs. fst (rr_get_group_results A J b g (snd out)) = Inr vs \<and> mset vs = mset (map snd ys))"
  using groups.last_member_completes [OF assms(1-5)] by (simp add: out_def)

end

subsection \<open>Queues of the broker\<close>

lemma redis_broker_sel [broker_simps]:
  "b_enqueue (redis_broker A f J b) = rb_enqueue A J b"
  "b_dequeue (redis_broker A f J b) = rb_dequeue A J b"
  "b_ack (redis_broker A f J b) = rb_ack A f b"
  "b_nack (redis_broker A f J b) = rb_nack A f J b"
  "b_dead_letter (redis_broker A f J b) = rb_dead_letter A f J b"
  by (simp_all add: redis_broker_def)

definition encodes :: "'v json_api \<Rightarrow> string \<Rightarrow> 'v TaskMessage \<Rightarrow> bool" where
  "encodes J s m \<longleftrightarrow> js_message_to J m = Inr s \<and> js_message_from J s = Inr m"

text \<open>A message that the broker can queue: no deduplication, its JSON text reads back.\<close>

definition plain_on :: "'v json_api \<Rightarrow> string \<Rightarrow> 'v TaskMessage \<Rightarrow> bool" where
  "plain_on J q m \<longleftrightarrow> msg_queue m = q \<and> dedup_key (mfields m) = None \<and>
     (case js_message_to J m of Inl e \<Rightarrow> False
      | Inr s \<Rightarrow> (case js_message_from J s of Inl e \<Rightarrow> False | Inr n \<Rightarrow> n = m))"

lemma plain_on_encodes: "plain_on J q m \<Longrightarrow> \<exists>s. encodes J s m"
  by (auto simp: plain_on_def encodes_def split: sum.splits)

lemma starts_with_append:
  assumes "starts_with pat (p @ pat)" and "\<not> starts_with pat p" and "p \<noteq> []"
    and "pat = c # rest" and "c \<notin> set rest"
  shows False
proof (cases "length pat \<le> length p")
  case True
  with assms(1,2) show False by (simp add: starts_with_def)
next
  case False
  with assms(1) have eq: "pat = p @ take (length pat - length p) pat" by (simp add: starts_with_def)
  then have "pat ! length p = take (length pat - length p) pat ! 0"
    by (metis append_Nil2 length_append_singleton nth_append_length_plus add_0_right)
  with False assms(4) have "pat ! length p = c" by (cases "length pat - length p") auto
  with False assms(3-5) show False by (cases p) (auto simp: nth_Cons')
qed

lemma str_remove_suffix:
  assumes "pat = c # rest" and "c \<notin> set rest" and "\<not> str_contains pat p"
  shows "str_remove pat (p @ pat) = p"
  using assms(3)
proof (induction p)
  case Nil
  with assms(1) show ?case by (simp add: str_remove.simps starts_with_def)
next
  case (Cons x p)
  then have "\<not> starts_with pat (x # p)" "\<not> str_contains pat p" by simp_all
  moreover from this(1) have "\<not> starts_with pat ((x # p) @ pat)"
    using starts_with_append [of pat "x # p"] assms(1,2) by blast
  ultimately show ?case using Cons.IH assms(1) by (subst str_remove.simps) simp
qed

context redis_server
begin

lemma rb_push_view:
  assumes "js_message_to J m = Inr s"
  shows "fst (rb_push A J k m d) = Inr ()"
    "view (snd (rb_push A J k m d)) =
       (view d)\<lparr>db_lists := (db_lists (view d))(k := s # db_lists (view d) k)\<rparr>"
  using assms by (simp_all add: rb_push_def call_simps lpush)

lemma rb_enqueue_plain:
  fixes b :: RedisBroker
  assumes "dedup_key (mfields m) = None" and "js_message_to J m = Inr s"
  defines "k \<equiv> key_queue (rb_keys b) (msg_queue m)"
  shows "fst (rb_enqueue A J b m d) = Inr ()"
    "view (snd (rb_enqueue A J b m d)) =
       (view d)\<lparr>db_lists := (db_lists (view d))(k := s # db_lists (view d) k)\<rparr>"
  using assms by (simp_all add: rb_enqueue_def call_simps conn rb_push_view [OF assms(2)])

lemma rb_dequeue_head:
  assumes "db_lists (view d) (key_queue (rb_keys b) q) = xs @ [s]"
    and "js_message_from J s = Inr m"
  defines "k \<equiv> key_queue (rb_keys b) q" and "p \<equiv> key_processing (rb_keys b) (rb_worker_id b)"
  shows "fst (rb_dequeue A J b [q] t d) = Inr (Some m)"
    "view (snd (rb_dequeue A J b [q] t d)) =
       (view d)\<lparr>db_lists := (db_lists (view d))(k := xs, p := s # db_lists (view d) p)\<rparr>"
  using assms blmove_move [of "snd (rd_conn A d)" k xs s p t]
  by (simp_all add: rb_dequeue_def call_simps conn)

lemma rb_enqueue_all_list:
  assumes "\<forall>m\<in>set ms. plain_on J q m"
  shows "\<exists>ss. list_all2 (encodes J) ss ms \<and>
    db_lists (view (enqueue_all (redis_broker A f J b) ms d)) (key_queue (rb_keys b) q)
      = rev ss @ db_lists (view d) (key_queue (rb_keys b) q)"
  using assms
proof (induction ms arbitrary: d)
  case Nil
  then show ?case by simp
next
  case (Cons m ms)
  then obtain s where s: "encodes J s m" using plain_on_encodes by force
  let ?d = "snd (rb_enqueue A J b m d)"
  have "db_lists (view ?d) (key_queue (rb_keys b) q) = s # db_lists (view d) (key_queue (rb_keys b) q)"
    using Cons.prems s rb_enqueue_plain(2) [of m J s b d]
    by (auto simp: plain_on_def encodes_def)
  with Cons.IH [of ?d] Cons.prems obtain ss where "list_all2 (encodes J) ss ms"
    and "db_lists (view (enqueue_all (redis_broker A f J b) ms ?d)) (key_queue (rb_keys b) q)
      = rev ss @ s # db_lists (view d) (key_queue (rb_keys b) q)" by auto
  with s show ?case by (intro exI [of _ "s # ss"]) (simp add: broker_simps)
qed

lemma rb_dequeue_times_list:
  "list_all2 (encodes J) ss ms \<Longrightarrow>
   db_lists (view d) (key_queue (rb_keys b) q) = xs @ rev ss \<Longrightarrow>
   fst (dequeue_times (redis_broker A f J b) [q] t (length ms) d) = map (\<lambda>m. Inr (Some m)) ms"
proof (induction ms arbitrary: ss d)
  case Nil
  then show ?case by simp
next
  case (Cons m ms)
  then obtain s ss' where ss: "ss = s # ss'" "encodes J s m" "list_all2 (encodes J) ss' ms"
    by (auto simp: list_all2_Cons2)
  let ?d = "snd (rb_dequeue A J b [q] t d)"
  from Cons.prems(2) ss have l: "db_lists (view d) (key_queue (rb_keys b) q) = (xs @ rev ss') @ [s]"
    by simp
  have "js_message_from J s = Inr m" using ss(2) by (simp add: encodes_def)
  note deq = rb_dequeue_head [OF l this, of t]
  from deq(2) have "db_lists (view ?d) (key_queue (rb_keys b) q) = xs @ rev ss'" by simp
  from Cons.IH [OF ss(3) this] deq(1) show ?case
    by (simp add: broker_simps case_prod_beta Let_def)
qed

text \<open>Acknowledging removes the first processing entry whose text contains the identifier.\<close>

lemma rb_ack_view:
  fixes b :: RedisBroker
  defines "p \<equiv> key_processing (rb_keys b) (rb_worker_id b)"
  shows "fst (rb_ack A f b i d) = Inr ()"
    "view (snd (rb_ack A f b i d)) =
       (case find (str_contains (taskid_display f i)) (db_lists (view d) p) of
          None \<Rightarrow> view d
        | Some item \<Rightarrow>
            (view d)\<lparr>db_lists := (db_lists (view d))(p := remove1 item (db_lists (view d) p))\<rparr>)"
  by (simp_all add: rb_ack_def Let_def call_simps conn lrange lrem p_def split: option.split)

lemma rb_enqueue_duplicate:
  assumes "expire_ok (uint (rb_dedup_ttl b))" and "dedup_key (mfields m) = Some k"
    and "db_strings (view d) (key_dedup (rb_keys b) k) \<noteq> None"
  shows "fst (rb_enqueue A J b m d) = Inr ()" "view (snd (rb_enqueue A J b m d)) = view d"
  using assms by (auto simp: rb_enqueue_def call_simps conn case_prod_beta Let_def set_nx_ex)

lemma rb_enqueue_first:
  assumes "expire_ok (uint (rb_dedup_ttl b))" and "dedup_key (mfields m) = Some k"
    and "db_strings (view d) (key_dedup (rb_keys b) k) = None" and "js_message_to J m = Inr s"
  shows "fst (rb_enqueue A J b m d) = Inr ()"
    "view (snd (rb_enqueue A J b m d)) =
       (view d)\<lparr>db_strings := (db_strings (view d))(key_dedup (rb_keys b) k \<mapsto> ''1''),
                db_lists := (db_lists (view d))(key_queue (rb_keys b) (msg_queue m) :=
                  s # db_lists (view d) (key_queue (rb_keys b) (msg_queue m)))\<rparr>"
  using assms
  by (simp_all add: rb_enqueue_def call_simps conn case_prod_beta Let_def set_nx_ex
      rb_push_view [OF assms(4)])

text \<open>An error of the command counts as a duplicate, for instance that of a lifetime of zero.\<close>

lemma rb_enqueue_hides_error:
  assumes "dedup_key (mfields m) = Some k" and "rb_dedup_ttl b = 0"
  shows "fst (rb_enqueue A J b m d) = Inr ()" "view (snd (rb_enqueue A J b m d)) = view d"
proof -
  obtain e where "fst (rd_set_nx_ex A (key_dedup (rb_keys b) k) ''1'' 0 (snd (rd_conn A d))) = Inl e"
    using set_nx_ex_error(1) by blast
  with assms show "fst (rb_enqueue A J b m d) = Inr ()" "view (snd (rb_enqueue A J b m d)) = view d"
    by (simp_all add: rb_enqueue_def call_simps conn case_prod_beta Let_def set_nx_ex_error(2))
qed

lemma rb_nack_duplicate:
  assumes "expire_ok (uint (rb_dedup_ttl b))" and "dedup_key (mfields m) = Some k"
    and "db_strings (view d) (key_dedup (rb_keys b) k) \<noteq> None"
  shows "fst (rb_nack A f J b m d) = Inr ()"
    "view (snd (rb_nack A f J b m d)) = view (snd (rb_ack A f b (msg_id m) d))"
proof -
  let ?d = "snd (rb_ack A f b (msg_id m) d)"
  have "db_strings (view ?d) = db_strings (view d)"
    by (simp add: rb_ack_view(2) split: option.split)
  with assms have "db_strings (view ?d) (key_dedup (rb_keys b) k) \<noteq> None" by simp
  note dup = rb_enqueue_duplicate [OF assms(1,2) this]
  have "rb_nack A f J b m d = rb_enqueue A J b m ?d"
    by (simp add: rb_nack_def call_simps rb_ack_view(1))
  with dup show "fst (rb_nack A f J b m d) = Inr ()"
    "view (snd (rb_nack A f J b m d)) = view ?d" by simp_all
qed

subsection \<open>The scheduled set\<close>

lemma fold_script_lpush:
  "view (fold (\<lambda>item. rl_lpush A (key_of item) item) items d) =
     (view d)\<lparr>db_lists := (\<lambda>k. rev (filter (\<lambda>item. key_of item = k) items)
                                @ db_lists (view d) k)\<rparr>"
  by (induction items arbitrary: d) (auto simp: script_lpush fun_eq_iff)

lemma poll_scheduled_script_view:
  assumes "due = map snd (filter (\<lambda>x. fst x \<le> now) (db_zsets (view d) sk))"
  shows "fst (poll_scheduled_script A lq sk now p d) = min 100 (length due)"
    and "view (snd (poll_scheduled_script A lq sk now p d)) =
      (view d)\<lparr>db_lists := (\<lambda>k. rev (filter (\<lambda>item. p @ '':queue:'' @ lq item = k) (take 100 due))
                                 @ db_lists (view d) k),
               db_zsets := (db_zsets (view d))
                 (sk := filter (\<lambda>x. \<not> fst x \<le> now) (db_zsets (view d) sk))\<rparr>"
proof -
  obtain items d1 where z: "rl_zrangebyscore A sk now 100 d = (items, d1)" by fastforce
  have items: "items = take 100 due" and d1: "view d1 = view d"
    using zrangebyscore [of sk now 100 d] z assms by simp_all
  show "fst (poll_scheduled_script A lq sk now p d) = min 100 (length due)"
    using z items by (auto simp: poll_scheduled_script_def Let_def)
  have "due = [] \<Longrightarrow> filter (\<lambda>x. \<not> fst x \<le> now) (db_zsets (view d) sk) = db_zsets (view d) sk"
    using assms by (auto simp: filter_empty_conv filter_id_conv)
  then show "view (snd (poll_scheduled_script A lq sk now p d)) =
      (view d)\<lparr>db_lists := (\<lambda>k. rev (filter (\<lambda>item. p @ '':queue:'' @ lq item = k) (take 100 due))
                                 @ db_lists (view d) k),
               db_zsets := (db_zsets (view d))
                 (sk := filter (\<lambda>x. \<not> fst x \<le> now) (db_zsets (view d) sk))\<rparr>"
    using z items d1
    by (auto simp: poll_scheduled_script_def Let_def fold_script_lpush zremrangebyscore)
qed

lemma rb_poll_scheduled_view:
  assumes "\<not> str_contains '':scheduled'' (kb_prefix (rb_keys b))"
    and "due = map snd (filter (\<lambda>x. fst x \<le> now) (db_zsets (view d) (key_scheduled (rb_keys b))))"
  shows "fst (rb_poll_scheduled A J b now d) = Inr (min 100 (length due))"
    and "view (snd (rb_poll_scheduled A J b now d)) =
      (view d)\<lparr>db_lists := (\<lambda>k. rev (filter (\<lambda>item. key_queue (rb_keys b) (js_lua_queue J item) = k)
                                      (take 100 due)) @ db_lists (view d) k),
               db_zsets := (db_zsets (view d))(key_scheduled (rb_keys b) :=
                 filter (\<lambda>x. \<not> fst x \<le> now) (db_zsets (view d) (key_scheduled (rb_keys b))))\<rparr>"
proof -
  have pre: "str_remove '':scheduled'' (key_scheduled (rb_keys b)) = kb_prefix (rb_keys b)"
    unfolding key_scheduled_def by (rule str_remove_suffix [OF refl _ assms(1)]) simp
  have "due = map snd (filter (\<lambda>x. fst x \<le> now)
      (db_zsets (view (snd (rd_conn A d))) (key_scheduled (rb_keys b))))"
    using assms(2) by (simp add: conn)
  note script = poll_scheduled_script_view [OF this, of "js_lua_queue J" "kb_prefix (rb_keys b)"]
  show "fst (rb_poll_scheduled A J b now d) = Inr (min 100 (length due))"
    by (simp add: rb_poll_scheduled_def call_simps conn eval pre script(1))
  show "view (snd (rb_poll_scheduled A J b now d)) =
      (view d)\<lparr>db_lists := (\<lambda>k. rev (filter (\<lambda>item. key_queue (rb_keys b) (js_lua_queue J item) = k)
                                      (take 100 due)) @ db_lists (view d) k),
               db_zsets := (db_zsets (view d))(key_scheduled (rb_keys b) :=
                 filter (\<lambda>x. \<not> fst x \<le> now) (db_zsets (view d) (key_scheduled (rb_keys b))))\<rparr>"
    by (simp add: rb_poll_scheduled_def call_simps conn eval pre script(2) key_queue_def)
qed

end

subsection \<open>An instance\<close>

text \<open>
  A codec for messages that carry nothing but a task name, and for values that are texts.
\<close>

definition name_codec :: "string json_api" where
  "name_codec =
     \<lparr>js_message_to = (\<lambda>m. Inr (task_name (mfields m))),
      js_message_from = (\<lambda>s. Inr (message_new 0 0 s ''default'' [])),
      js_value_to = Inr, js_value_from = Inr, js_lua_queue = (\<lambda>_. ''default'')\<rparr>"

definition example_results :: RedisResultBackend where
  "example_results = \<lparr>rr_keys = key_builder_new ''kojin'', rr_ttl = duration_from_secs 86400\<rparr>"

lemma example_ttl: "expire_ok (ttl_secs example_results)"
  by (simp add: example_results_def ttl_secs_def duration_from_secs_def nanos_per_sec_def expire_ok_def)

interpretation redis_reference_codec: redis_codec redis_ref "\<lambda>d. d" name_codec example_results
  by unfold_locales (simp_all add: name_codec_def example_ttl)

definition named_message :: "string \<Rightarrow> string TaskMessage" where
  "named_message name = message_new 0 0 name ''default'' []"

definition example_redis :: RedisBroker where
  "example_redis = \<lparr>rb_keys = key_builder_new ''kojin'', rb_worker_id = ''w'', rb_dedup_ttl = 300\<rparr>"

lemma named_message_sel [simp]:
  "msg_queue (named_message n) = ''default''" "dedup_key (mfields (named_message n)) = None"
  "msg_id (named_message n) = TaskId 0" "task_name (mfields (named_message n)) = n"
  by (simp_all add: named_message_def message_new_def taskid_new_def)

lemma name_codec_sel [simp]:
  "js_message_to name_codec m = Inr (task_name (mfields m))"
  "js_message_from name_codec s = Inr (named_message s)"
  "js_lua_queue name_codec s = ''default''"
  by (simp_all add: name_codec_def named_message_def)

subsection \<open>Properties\<close>

text \<open>C26: messages without deduplication key, enqueued through the Redis broker on an empty queue, are
  dequeued in the order in which they were enqueued, each once, provided that their JSON
  texts read back (\<open>plain_on\<close>) and the server follows the documentation
  (\<open>redis_server\<close>).\<close>

theorem redis_broker_fifo:
  assumes "redis_server A view" and "\<forall>m\<in>set ms. plain_on J q m"
    and "db_lists (view d) (key_queue (rb_keys b) q) = []"
  shows "fst (dequeue_times (redis_broker A f J b) [q] t (length ms)
           (enqueue_all (redis_broker A f J b) ms d)) = map (\<lambda>m. Inr (Some m)) ms"
proof -
  from redis_server.rb_enqueue_all_list [OF assms(1,2)] assms(3) obtain ss where
    "list_all2 (encodes J) ss ms"
    "db_lists (view (enqueue_all (redis_broker A f J b) ms d)) (key_queue (rb_keys b) q) = [] @ rev ss"
    by (metis append_Nil append_Nil2)
  then show ?thesis by (rule redis_server.rb_dequeue_times_list [OF assms(1)])
qed

theorem redis_broker_fifo_witness:
  "fst (dequeue_times (redis_broker redis_ref (\<lambda>u. []) name_codec example_redis) [''default''] 0 2
      (enqueue_all (redis_broker redis_ref (\<lambda>u. []) name_codec example_redis)
         [named_message ''a'', named_message ''b''] redis_empty))
    = [Inr (Some (named_message ''a'')), Inr (Some (named_message ''b''))]"
  using redis_broker_fifo [OF redis_reference.redis_server_axioms,
      of "[named_message ''a'', named_message ''b'']" name_codec "''default''" redis_empty
        example_redis "\<lambda>u. []" 0]
  by (simp add: plain_on_def redis_empty_def numeral_2_eq_2)

text \<open>C27: a task with a deduplication key that fails and is returned to the Redis broker is lost. From an
  empty server, enqueue the task, dequeue it and \<open>nack\<close> it with the message the worker passes
  (same identifier and key), with a lifetime of the key that the server accepts: every call
  reports success, and then no list of the server holds anything, because the key that the
  first \<open>enqueue\<close> set makes the second one drop the message.\<close>

theorem redis_nack_loses_deduplicated_task:
  assumes "redis_server A view" and "view d = redis_empty" and ttl: "expire_ok (uint (rb_dedup_ttl b))"
    and "dedup_key (mfields m) = Some k" and "encodes J s m"
    and "str_contains (taskid_display f (msg_id m)) s"
    and "msg_id n = msg_id m" and "dedup_key (mfields n) = Some k"
    and "d1 = snd (rb_enqueue A J b m d)"
    and "d2 = snd (rb_dequeue A J b [msg_queue m] t d1)"
  shows "fst (rb_enqueue A J b m d) = Inr () \<and>
    fst (rb_dequeue A J b [msg_queue m] t d1) = Inr (Some m) \<and>
    fst (rb_nack A f J b n d2) = Inr () \<and>
    db_lists (view (snd (rb_nack A f J b n d2))) = (\<lambda>_. [])"
proof -
  note S = assms(1)
  let ?q = "key_queue (rb_keys b) (msg_queue m)" and ?k = "key_dedup (rb_keys b) k"
    and ?p = "key_processing (rb_keys b) (rb_worker_id b)"
  have js: "js_message_to J m = Inr s" "js_message_from J s = Inr m"
    using assms(5) by (simp_all add: encodes_def)
  have none: "db_strings (view d) ?k = None" by (simp add: assms(2) redis_empty_def)
  note enq = redis_server.rb_enqueue_first [OF S ttl assms(4) none js(1)]
  have d1: "db_lists (view d1) = (\<lambda>_. [])(?q := [s])" "db_strings (view d1) ?k = Some ''1''"
    by (simp_all add: assms(9) enq(2) assms(2) redis_empty_def)
  have "db_lists (view d1) ?q = [] @ [s]" by (simp add: d1)
  note deq = redis_server.rb_dequeue_head [OF S this js(2), of t]
  have d2: "db_lists (view d2) = (\<lambda>_. [])(?p := [s])" "db_strings (view d2) ?k \<noteq> None"
    by (simp_all add: assms(10) deq(2) d1 fun_eq_iff)
  note nack = redis_server.rb_nack_duplicate [OF S ttl assms(8) d2(2), of f J]
  have "db_lists (view (snd (rb_ack A f b (msg_id n) d2))) = (\<lambda>_. [])"
    using assms(6,7) by (simp add: redis_server.rb_ack_view(2) [OF S] d2(1) fun_eq_iff)
  then show ?thesis using enq(1) deq(1) nack by simp
qed

theorem redis_nack_loses_deduplicated_task_witness:
  "let m = with_dedup_key ''k'' (named_message ''a'');
       J = name_codec\<lparr>js_message_from := (\<lambda>s. Inr (with_dedup_key ''k'' (named_message s)))\<rparr>;
       d1 = snd (rb_enqueue redis_ref J example_redis m redis_empty);
       d2 = snd (rb_dequeue redis_ref J example_redis [''default''] 0 d1)
   in fst (rb_dequeue redis_ref J example_redis [''default''] 0 d1) = Inr (Some m) \<and>
      db_lists (snd (rb_nack redis_ref (\<lambda>u. ''a'') J example_redis m d2)) = (\<lambda>_. [])"
  using redis_nack_loses_deduplicated_task [OF redis_reference.redis_server_axioms refl,
      of example_redis "with_dedup_key ''k'' (named_message ''a'')" "''k''"
        "name_codec\<lparr>js_message_from := (\<lambda>s. Inr (with_dedup_key ''k'' (named_message s)))\<rparr>" "''a''"
        "\<lambda>u. ''a''" "with_dedup_key ''k'' (named_message ''a'')" _ _ 0]
  by (simp add: example_redis_def expire_ok_def encodes_def with_dedup_key_def taskid_display_def starts_with_def Let_def)

text \<open>Polling the scheduled set moves the messages whose time has come, up to one hundred of them,
  to the queues that their texts name, in order behind the messages already there, reports
  their number, and keeps the messages that are not due. The key prefix must not contain
  \<open>:scheduled\<close> itself.\<close>

lemma redis_poll_scheduled_moves_due:
  assumes "redis_server A view" and "\<not> str_contains '':scheduled'' (kb_prefix (rb_keys b))"
    and "due = map snd (filter (\<lambda>x. fst x \<le> now) (db_zsets (view d) (key_scheduled (rb_keys b))))"
    and "length due \<le> 100" and "rb_poll_scheduled A J b now d = (r, d')"
  shows "r = Inr (length due) \<and>
    db_lists (view d') (key_queue (rb_keys b) q)
      = rev (filter (\<lambda>item. js_lua_queue J item = q) due) @ db_lists (view d) (key_queue (rb_keys b) q) \<and>
    db_zsets (view d') (key_scheduled (rb_keys b))
      = filter (\<lambda>x. \<not> fst x \<le> now) (db_zsets (view d) (key_scheduled (rb_keys b)))"
  using redis_server.rb_poll_scheduled_view [OF assms(1-3), of J] assms(4,5) by simp

lemma redis_poll_scheduled_moves_due_example:
  "\<exists>r d'. rb_poll_scheduled redis_ref name_codec example_redis 5
       (snd (rb_schedule redis_ref name_codec example_redis (named_message ''a'') 3000000000 redis_empty))
       = (r, d') \<and>
     r = Inr 1 \<and> db_lists d' ''kojin:queue:default'' = [''a''] \<and> db_zsets d' ''kojin:scheduled'' = []"
proof -
  let ?d = "snd (rb_schedule redis_ref name_codec example_redis (named_message ''a'') 3000000000 redis_empty)"
  have z: "db_zsets ?d ''kojin:scheduled'' = [(3, ''a'')]"
    "db_lists ?d ''kojin:queue:default'' = []"
    by (simp_all add: rb_schedule_def call_simps redis_ref_def redis_empty_def zadd_def timestamp_def
        nanos_per_sec_def example_redis_def key_scheduled_def key_builder_new_def)
  obtain r d' where run: "rb_poll_scheduled redis_ref name_codec example_redis 5 ?d = (r, d')"
    by fastforce
  from redis_poll_scheduled_moves_due [OF redis_reference.redis_server_axioms _ refl _ run,
      of "''default''"]
  show ?thesis using run z
    by (simp add: example_redis_def key_scheduled_def key_queue_def key_builder_new_def starts_with_def)
qed

text \<open>When more than one hundred scheduled messages are due, one poll loses the others: the script
  reads the first hundred and then removes every due message from the scheduled set. The
  messages beyond the hundredth are then neither in the set nor in any list that did not
  hold them before.\<close>

lemma redis_poll_scheduled_loses_rest:
  assumes "redis_server A view" and "\<not> str_contains '':scheduled'' (kb_prefix (rb_keys b))"
    and "due = map snd (filter (\<lambda>x. fst x \<le> now) (db_zsets (view d) (key_scheduled (rb_keys b))))"
    and "distinct due" and "item \<in> set (drop 100 due)"
    and "\<forall>k. item \<notin> set (db_lists (view d) k)"
    and "\<forall>x \<in> set (db_zsets (view d) (key_scheduled (rb_keys b))). snd x = item \<longrightarrow> fst x \<le> now"
    and "rb_poll_scheduled A J b now d = (r, d')"
  shows "(\<forall>k. item \<notin> set (db_lists (view d') k)) \<and>
    item \<notin> snd ` set (db_zsets (view d') (key_scheduled (rb_keys b)))"
proof -
  have "set (take 100 due) \<inter> set (drop 100 due) = {}"
    using assms(4) by (metis append_take_drop_id distinct_append)
  with assms(5) have "item \<notin> set (take 100 due)" by blast
  then show ?thesis
    using redis_server.rb_poll_scheduled_view(2) [OF assms(1-3), of J] assms(6-8) by auto
qed

definition crowded_redis :: redis_db where
  "crowded_redis = redis_empty\<lparr>db_zsets := (\<lambda>k. if k = ''kojin:scheduled''
     then map (\<lambda>i. (0, replicate i CHR ''m'')) [0..<101] else [])\<rparr>"

lemma redis_poll_scheduled_loses_rest_example:
  "\<exists>r d'. rb_poll_scheduled redis_ref name_codec example_redis 5 crowded_redis = (r, d') \<and>
     (\<forall>k. replicate 100 CHR ''m'' \<notin> set (db_lists d' k)) \<and>
     replicate 100 CHR ''m'' \<notin> snd ` set (db_zsets d' ''kojin:scheduled'')"
proof -
  let ?item = "replicate 100 CHR ''m''"
  let ?due = "map (\<lambda>i. replicate i CHR ''m'') [0..<101]"
  have key: "key_scheduled (rb_keys example_redis) = ''kojin:scheduled''"
    by (simp add: example_redis_def key_scheduled_def key_builder_new_def)
  have due: "?due = map snd (filter (\<lambda>x. fst x \<le> 5) (db_zsets crowded_redis (key_scheduled (rb_keys example_redis))))"
    by (simp add: key crowded_redis_def comp_def filter_map del: upt_Suc)
  have "distinct ?due" by (simp add: distinct_map inj_on_def del: upt_Suc)
  moreover have "?item \<in> set (drop 100 ?due)" by (simp add: drop_map del: upt_Suc)
  moreover obtain r d' where run: "rb_poll_scheduled redis_ref name_codec example_redis 5 crowded_redis = (r, d')"
    by fastforce
  moreover have "\<not> str_contains '':scheduled'' (kb_prefix (rb_keys example_redis))"
    by (simp add: example_redis_def key_builder_new_def starts_with_def)
  moreover have "\<forall>k. ?item \<notin> set (db_lists crowded_redis k)"
    by (simp add: crowded_redis_def redis_empty_def)
  moreover have "\<forall>x \<in> set (db_zsets crowded_redis (key_scheduled (rb_keys example_redis))).
      snd x = ?item \<longrightarrow> fst x \<le> 5"
    by (auto simp: key crowded_redis_def)
  ultimately have "(\<forall>k. ?item \<notin> set (db_lists d' k)) \<and>
      ?item \<notin> snd ` set (db_zsets d' (key_scheduled (rb_keys example_redis)))"
    using redis_poll_scheduled_loses_rest [OF redis_reference.redis_server_axioms _ due _ _ _ _ run, of ?item]
    by blast
  then show ?thesis using run key by metis
qed

text \<open>Of the members of an initialised Redis group, exactly the last to complete is told the total,
  and it then reads the results of all members; the counter and the list change in one
  script, so this holds for every order of completion. The server follows the documentation
  and values read back from their JSON text, and the server accepts the lifetime (\<open>redis_codec\<close>).\<close>

lemma redis_group_last_member:
  assumes "redis_codec A view J b" and "rr_fresh view b g d" and "distinct (map fst ys)"
    and "length ys = n" and "0 < n" and "n < 2 ^ 32"
    and "complete_all (rr_complete_group_member A J b) g ys (snd (rr_init_group A b g (of_nat n) d)) = (rs, d')"
  shows "[k \<leftarrow> [0..<n]. rs ! k = Inr (of_nat n)] = [n - 1] \<and>
    (\<exists>vs. fst (rr_get_group_results A J b g d') = Inr vs \<and> mset vs = mset (map snd ys))"
  using redis_codec.redis_last_member [OF assms(1-6)] assms(7) by simp

lemma redis_group_last_member_example:
  "\<exists>rs d'. complete_all (rr_complete_group_member redis_ref name_codec example_results) ''g'' [(TaskId 1, ''x''), (TaskId 2, ''y'')]
        (snd (rr_init_group redis_ref example_results ''g'' 2 redis_empty))
        = (rs, d') \<and> [k \<leftarrow> [0..<2]. rs ! k = Inr 2] = [1]"
proof -
  let ?ys = "[(TaskId 1, ''x''), (TaskId 2, ''y'')]"
  obtain rs d' where run: "complete_all (rr_complete_group_member redis_ref name_codec example_results) ''g'' ?ys
      (snd (rr_init_group redis_ref example_results ''g'' (of_nat 2) redis_empty)) = (rs, d')" by fastforce
  have "rr_fresh (\<lambda>d. d) example_results ''g'' redis_empty" by (simp add: rr_fresh_def redis_empty_def)
  from redis_group_last_member [OF redis_reference_codec.redis_codec_axioms this _ _ _ _ run]
  have "[k \<leftarrow> [0..<2]. rs ! k = Inr (of_nat 2)] = [2 - 1]" by simp
  then show ?thesis using run by auto
qed

end
