(* ===== verification/Kojin_Sqs.thy ===== *)
theory Kojin_Sqs
  imports Kojin_Broker Kojin_Redis
begin

text \<open>
  The SQS broker (crate \<open>kojin-sqs\<close>). The AWS client is the record \<open>sqs_api\<close> of the requests
  the broker sends, over a remote state \<open>'d\<close>; the broker's own state is the map of receipt
  handles. \<open>HashMap\<close> iteration order is the order of the list \<open>sq_queue_names\<close>.
\<close>

subsection \<open>Configuration (config.rs)\<close>

record SqsConfig =
  sc_queue_urls :: "string list"
  sc_dlq_url :: "string option"
  sc_visibility_timeout :: i32
  sc_wait_time_seconds :: i32

definition sqs_config_new :: "string list \<Rightarrow> SqsConfig" where
  "sqs_config_new urls =
     \<lparr>sc_queue_urls = urls, sc_dlq_url = None, sc_visibility_timeout = 30,
      sc_wait_time_seconds = 20\<rparr>"

definition sc_with_dlq_url :: "string \<Rightarrow> SqsConfig \<Rightarrow> SqsConfig" where
  "sc_with_dlq_url u c = c\<lparr>sc_dlq_url := Some u\<rparr>"

definition sc_with_visibility_timeout :: "i32 \<Rightarrow> SqsConfig \<Rightarrow> SqsConfig" where
  "sc_with_visibility_timeout n c = c\<lparr>sc_visibility_timeout := n\<rparr>"

definition sc_with_wait_time_seconds :: "i32 \<Rightarrow> SqsConfig \<Rightarrow> SqsConfig" where
  "sc_with_wait_time_seconds n c = c\<lparr>sc_wait_time_seconds := n\<rparr>"

subsection \<open>Queue names\<close>

definition ends_with :: "string \<Rightarrow> string \<Rightarrow> bool" where
  "ends_with suf s \<longleftrightarrow> length suf \<le> length s \<and> drop (length s - length suf) s = suf"

definition strip_suffix :: "string \<Rightarrow> string \<Rightarrow> string option" where
  "strip_suffix suf s = (if ends_with suf s then Some (take (length s - length suf) s) else None)"

text \<open>\<open>rsplit('/').next()\<close>: what follows the last slash, or everything.\<close>

definition last_segment :: "string \<Rightarrow> string" where
  "last_segment s = rev (takeWhile (\<lambda>c. c \<noteq> CHR ''/'') (rev s))"

definition queue_name_from_url :: "string \<Rightarrow> string" where
  "queue_name_from_url url =
     (let segment = last_segment url
      in case strip_suffix ''.fifo'' segment of Some n \<Rightarrow> n | None \<Rightarrow> segment)"

definition is_fifo :: "string \<Rightarrow> bool" where
  "is_fifo url = ends_with ''.fifo'' url"

lemma ends_with_append: "ends_with suf (s @ suf)"
  by (simp add: ends_with_def)

lemma strip_suffix_append [simp]: "strip_suffix suf (s @ suf) = Some s"
  by (simp add: strip_suffix_def ends_with_append)

lemma takeWhile_until: "c \<notin> set xs \<Longrightarrow> takeWhile (\<lambda>d. d \<noteq> c) (xs @ c # ys) = xs"
  by (induction xs) auto

lemma takeWhile_all: "c \<notin> set xs \<Longrightarrow> takeWhile (\<lambda>d. d \<noteq> c) xs = xs"
  by (induction xs) auto

lemma last_segment_append:
  "CHR ''/'' \<notin> set name \<Longrightarrow> last_segment (base @ CHR ''/'' # name) = name"
  by (simp add: last_segment_def takeWhile_until)

lemma last_segment_bare: "CHR ''/'' \<notin> set name \<Longrightarrow> last_segment name = name"
  by (simp add: last_segment_def takeWhile_all)

subsection \<open>The client\<close>

record send_request =
  sr_queue_url :: string
  sr_body :: string
  sr_group_id :: "string option"
  sr_dedup_id :: "string option"
  sr_delay :: "i32 option"

record sqs_received =
  sm_body :: "string option"
  sm_receipt :: "string option"

record 'd sqs_api =
  sq_send :: "send_request \<Rightarrow> 'd \<Rightarrow> (string + unit) \<times> 'd"
  sq_receive :: "string \<Rightarrow> i32 \<Rightarrow> i32 \<Rightarrow> 'd \<Rightarrow> (string + sqs_received list option) \<times> 'd"
  sq_delete :: "string \<Rightarrow> string \<Rightarrow> 'd \<Rightarrow> (string + unit) \<times> 'd"
  sq_change_visibility :: "string \<Rightarrow> string \<Rightarrow> i32 \<Rightarrow> 'd \<Rightarrow> (string + unit) \<times> 'd"
  sq_approximate_number :: "string \<Rightarrow> 'd \<Rightarrow> (string + string option) \<times> 'd"

record SqsBroker =
  sq_config :: SqsConfig
  sq_queue_names :: "(string \<times> string) list"

record 'd sqs_state =
  ss_remote :: 'd
  ss_receipts :: "TaskId \<rightharpoonup> string \<times> string"

text \<open>The map from URLs to names, listed in the order \<open>order\<close> of the hash map.\<close>

definition sqs_broker_new :: "(string list \<Rightarrow> string list) \<Rightarrow> SqsConfig \<Rightarrow> SqsBroker" where
  "sqs_broker_new order cfg =
     \<lparr>sq_config = cfg,
      sq_queue_names = map (\<lambda>u. (u, queue_name_from_url u)) (order (remdups (sc_queue_urls cfg)))\<rparr>"

definition resolve_queue_url :: "SqsBroker \<Rightarrow> string \<Rightarrow> string option" where
  "resolve_queue_url b q =
     (case find (\<lambda>(url, name). name = q) (sq_queue_names b) of
        Some (url, name) \<Rightarrow> Some url
      | None \<Rightarrow> if q \<in> set (sc_queue_urls (sq_config b)) then Some q else None)"

definition on_remote :: "('d \<Rightarrow> (string + 'a) \<times> 'd) \<Rightarrow> 'd sqs_state \<Rightarrow> 'a TaskResult \<times> 'd sqs_state" where
  "on_remote f = map_err Broker (\<lambda>s. let (r, d) = f (ss_remote s) in (r, s\<lparr>ss_remote := d\<rparr>))"

subsection \<open>Operations (broker.rs)\<close>

text \<open>\<open>num_seconds\<close> truncates toward zero.\<close>

definition num_seconds :: "int \<Rightarrow> int" where
  "num_seconds d = (if 0 \<le> d then d div int nanos_per_sec else - ((- d) div int nanos_per_sec))"

definition clamp_delay :: "int \<Rightarrow> i32" where
  "clamp_delay secs = of_int (min 900 (max 0 secs))"

definition fifo_fields :: "(uuid \<Rightarrow> string) \<Rightarrow> string \<Rightarrow> string option \<Rightarrow> 'v TaskMessage \<Rightarrow>
    send_request \<Rightarrow> send_request" where
  "fifo_fields uuid_fmt url key m req =
     (if is_fifo url then
        req\<lparr>sr_group_id := Some (msg_queue m),
            sr_dedup_id := Some (case key of Some k \<Rightarrow> k | None \<Rightarrow> uuid_fmt (as_uuid (msg_id m)))\<rparr>
      else req)"

definition send_to :: "string \<Rightarrow> string \<Rightarrow> send_request" where
  "send_to url body =
     \<lparr>sr_queue_url = url, sr_body = body, sr_group_id = None, sr_dedup_id = None, sr_delay = None\<rparr>"

definition ok_or :: "'e \<Rightarrow> 'a option \<Rightarrow> 'e + 'a" where
  "ok_or e x = (case x of None \<Rightarrow> Inl e | Some a \<Rightarrow> Inr a)"

definition eta_delay :: "DateTime \<Rightarrow> 'v TaskMessage \<Rightarrow> send_request \<Rightarrow> send_request" where
  "eta_delay now m req =
     (case eta (mfields m) of
        None \<Rightarrow> req
      | Some t \<Rightarrow>
          (let delay = clamp_delay (num_seconds (t - now))
           in if 0 <s delay then req\<lparr>sr_delay := Some delay\<rparr> else req))"

definition sb_enqueue :: "'d sqs_api \<Rightarrow> (uuid \<Rightarrow> string) \<Rightarrow> 'v json_api \<Rightarrow> SqsBroker \<Rightarrow> DateTime \<Rightarrow>
    'v TaskMessage \<Rightarrow> 'd sqs_state \<Rightarrow> unit TaskResult \<times> 'd sqs_state" where
  "sb_enqueue A uuid_fmt J b now m =
     try_then (pure_call (\<lambda>e. e) (ok_or (QueueNotFound (msg_queue m)) (resolve_queue_url b (msg_queue m))))
       (\<lambda>url. try_then (pure_call Serialization (js_message_to J m)) (\<lambda>body.
          on_remote (sq_send A (eta_delay now m
            (fifo_fields uuid_fmt url (dedup_key (mfields m)) m (send_to url body))))))"

text \<open>\<open>timeout.as_secs() as i32\<close> keeps the low 32 bits; \<open>min\<close> compares them signed.\<close>

definition wait_seconds :: "SqsBroker \<Rightarrow> Duration \<Rightarrow> i32" where
  "wait_seconds b timeout =
     (let t = of_nat (timeout div nanos_per_sec) :: i32;
          w = sc_wait_time_seconds (sq_config b)
      in if t \<le>s w then t else w)"

fun sb_scan :: "'d sqs_api \<Rightarrow> 'v json_api \<Rightarrow> SqsBroker \<Rightarrow> i32 \<Rightarrow> string list \<Rightarrow> 'd sqs_state \<Rightarrow>
    'v TaskMessage option TaskResult \<times> 'd sqs_state" where
  "sb_scan A J b wait [] s = (Inr None, s)"
| "sb_scan A J b wait (q # qs) s =
     (case resolve_queue_url b q of
        None \<Rightarrow> sb_scan A J b wait qs s
      | Some url \<Rightarrow>
          try_then (on_remote (sq_receive A url wait (sc_visibility_timeout (sq_config b))))
            (\<lambda>result s1.
              case result of
                Some (r # _) \<Rightarrow>
                  try_then (pure_call Serialization
                      (js_message_from J (case sm_body r of Some t \<Rightarrow> t | None \<Rightarrow> ''{}'')))
                    (\<lambda>m s2.
                      (Inr (Some m),
                       case sm_receipt r of
                         None \<Rightarrow> s2
                       | Some h \<Rightarrow> s2\<lparr>ss_receipts := (ss_receipts s2)(msg_id m \<mapsto> (url, h))\<rparr>)) s1
              | _ \<Rightarrow> sb_scan A J b wait qs s1) s)"

definition sb_dequeue :: "'d sqs_api \<Rightarrow> 'v json_api \<Rightarrow> SqsBroker \<Rightarrow> string list \<Rightarrow> Duration \<Rightarrow>
    'd sqs_state \<Rightarrow> 'v TaskMessage option TaskResult \<times> 'd sqs_state" where
  "sb_dequeue A J b qs timeout = sb_scan A J b (wait_seconds b timeout) qs"

definition sb_ack :: "'d sqs_api \<Rightarrow> TaskId \<Rightarrow> 'd sqs_state \<Rightarrow> unit TaskResult \<times> 'd sqs_state" where
  "sb_ack A i s =
     (case ss_receipts s i of
        None \<Rightarrow> (Inr (), s)
      | Some (url, h) \<Rightarrow> on_remote (sq_delete A url h) (s\<lparr>ss_receipts := (ss_receipts s)(i := None)\<rparr>))"

definition sb_nack :: "'d sqs_api \<Rightarrow> 'v TaskMessage \<Rightarrow> 'd sqs_state \<Rightarrow> unit TaskResult \<times> 'd sqs_state" where
  "sb_nack A m s =
     (case ss_receipts s (msg_id m) of
        None \<Rightarrow> (Inr (), s)
      | Some (url, h) \<Rightarrow>
          on_remote (sq_change_visibility A url h 0)
            (s\<lparr>ss_receipts := (ss_receipts s)(msg_id m := None)\<rparr>))"

definition sb_dead_letter :: "'d sqs_api \<Rightarrow> (uuid \<Rightarrow> string) \<Rightarrow> 'v json_api \<Rightarrow> SqsBroker \<Rightarrow>
    'v TaskMessage \<Rightarrow> 'd sqs_state \<Rightarrow> unit TaskResult \<times> 'd sqs_state" where
  "sb_dead_letter A uuid_fmt J b m =
     try_then (sb_ack A (msg_id m)) (\<lambda>_ s.
       case sc_dlq_url (sq_config b) of
         None \<Rightarrow> (Inr (), s)
       | Some url \<Rightarrow>
           try_then (pure_call Serialization (js_message_to J m)) (\<lambda>body.
             on_remote (sq_send A (fifo_fields uuid_fmt url None m (send_to url body)))) s)"

definition sb_schedule :: "'d sqs_api \<Rightarrow> (uuid \<Rightarrow> string) \<Rightarrow> 'v json_api \<Rightarrow> SqsBroker \<Rightarrow> DateTime \<Rightarrow>
    'v TaskMessage \<Rightarrow> DateTime \<Rightarrow> 'd sqs_state \<Rightarrow> unit TaskResult \<times> 'd sqs_state" where
  "sb_schedule A uuid_fmt J b now m t =
     (let delay = max 0 (num_seconds (t - now));
          capped = (of_int (min delay 900) :: i32);
          msg = (if delay > 900 then with_eta t m else m)
      in try_then (pure_call (\<lambda>e. e)
             (ok_or (QueueNotFound (msg_queue msg)) (resolve_queue_url b (msg_queue msg))))
           (\<lambda>url. try_then (pure_call Serialization (js_message_to J msg)) (\<lambda>body.
              on_remote (sq_send A (fifo_fields uuid_fmt url (dedup_key (mfields msg)) msg
                ((send_to url body)\<lparr>sr_delay := Some capped\<rparr>))))))"

text \<open>\<open>str::parse::<usize>\<close>: decimal digits, perhaps after a plus sign, within 64 bits.\<close>

definition digit_val :: "char \<Rightarrow> nat option" where
  "digit_val c = (let n = of_char c :: nat in if 48 \<le> n \<and> n \<le> 57 then Some (n - 48) else None)"

fun digits_val :: "nat \<Rightarrow> string \<Rightarrow> nat option" where
  "digits_val acc [] = Some acc"
| "digits_val acc (c # cs) =
     (case digit_val c of None \<Rightarrow> None | Some d \<Rightarrow> digits_val (10 * acc + d) cs)"

definition parse_usize :: "string \<Rightarrow> nat option" where
  "parse_usize s =
     (let t = (case s of CHR ''+'' # cs \<Rightarrow> cs | _ \<Rightarrow> s)
      in if t = [] then None
         else case digits_val 0 t of
                Some n \<Rightarrow> if n < 2 ^ 64 then Some n else None
              | None \<Rightarrow> None)"

definition approximate_count :: "'d sqs_api \<Rightarrow> string \<Rightarrow> 'd sqs_state \<Rightarrow> nat TaskResult \<times> 'd sqs_state" where
  "approximate_count A url =
     try_then (on_remote (sq_approximate_number A url)) (\<lambda>v s.
       (Inr (case Option.bind v parse_usize of Some n \<Rightarrow> n | None \<Rightarrow> 0), s))"

definition sb_queue_len :: "'d sqs_api \<Rightarrow> SqsBroker \<Rightarrow> string \<Rightarrow> 'd sqs_state \<Rightarrow>
    nat TaskResult \<times> 'd sqs_state" where
  "sb_queue_len A b q =
     try_then (pure_call (\<lambda>e. e) (ok_or (QueueNotFound q) (resolve_queue_url b q))) (approximate_count A)"

definition sb_dlq_len :: "'d sqs_api \<Rightarrow> SqsBroker \<Rightarrow> string \<Rightarrow> 'd sqs_state \<Rightarrow>
    nat TaskResult \<times> 'd sqs_state" where
  "sb_dlq_len A b q s =
     (case sc_dlq_url (sq_config b) of
        Some url \<Rightarrow> approximate_count A url s
      | None \<Rightarrow> (Inr 0, s))"

definition sb_list_queues :: "SqsBroker \<Rightarrow> 'd sqs_state \<Rightarrow> string list TaskResult \<times> 'd sqs_state" where
  "sb_list_queues b s = (Inr (map snd (sq_queue_names b)), s)"

definition sqs_broker :: "'d sqs_api \<Rightarrow> (uuid \<Rightarrow> string) \<Rightarrow> 'v json_api \<Rightarrow> SqsBroker \<Rightarrow> DateTime \<Rightarrow>
    ('d sqs_state, 'v) Broker" where
  "sqs_broker A uuid_fmt J b now =
     \<lparr>b_enqueue = sb_enqueue A uuid_fmt J b now, b_dequeue = sb_dequeue A J b, b_ack = sb_ack A,
      b_nack = sb_nack A, b_dead_letter = sb_dead_letter A uuid_fmt J b,
      b_schedule = sb_schedule A uuid_fmt J b now, b_queue_len = sb_queue_len A b,
      b_dlq_len = sb_dlq_len A b, b_list_queues = sb_list_queues b,
      b_dlq_messages = default_dlq_messages\<rparr>"

subsection \<open>Delays\<close>

lemma clamp_delay_bounds: "unat (clamp_delay secs) \<le> 900"
proof -
  have "uint (of_int (min 900 (max 0 secs)) :: i32) = min 900 (max 0 secs)"
    by (subst uint_word_of_int) (simp add: mod_pos_pos_trivial)
  then show ?thesis by (simp add: clamp_delay_def unat_eq_nat_uint)
qed

subsection \<open>Properties\<close>

text \<open>The name taken from a queue URL is its last path segment without the \<open>.fifo\<close> suffix, and a
  broker configured with one URL resolves that name, and the URL itself, to the URL.\<close>

lemma sqs_queue_names:
  assumes "CHR ''/'' \<notin> set name" and "\<not> ends_with ''.fifo'' name"
  shows "queue_name_from_url (base @ ''/'' @ name) = name \<and>
    queue_name_from_url (base @ ''/'' @ name @ ''.fifo'') = name \<and>
    is_fifo (base @ ''/'' @ name @ ''.fifo'') \<and>
    resolve_queue_url (sqs_broker_new (\<lambda>us. us) (sqs_config_new [base @ ''/'' @ name])) name
      = Some (base @ ''/'' @ name)"
proof -
  have "queue_name_from_url (base @ ''/'' @ name) = name"
    using assms by (simp add: queue_name_from_url_def last_segment_append strip_suffix_def)
  moreover have "CHR ''/'' \<notin> set (name @ ''.fifo'')" using assms(1) by simp
  from last_segment_append [OF this, of base]
  have "queue_name_from_url (base @ ''/'' @ name @ ''.fifo'') = name"
    by (simp add: queue_name_from_url_def del: append_assoc)
  moreover have "is_fifo ((base @ ''/'' @ name) @ ''.fifo'')"
    unfolding is_fifo_def by (rule ends_with_append)
  ultimately show ?thesis by (simp add: resolve_queue_url_def sqs_broker_new_def sqs_config_new_def)
qed

lemma sqs_queue_names_example:
  "queue_name_from_url ''http://localhost:4566/000000000000/my-queue.fifo'' = ''my-queue''"
  using sqs_queue_names [of "''my-queue''" "''http://localhost:4566/000000000000''"]
  by (simp add: ends_with_def)

lemma sint_small: "0 \<le> k \<Longrightarrow> k \<le> 900 \<Longrightarrow> sint (of_int k :: i32) = k"
  by (simp add: sint_sbintrunc' signed_take_bit_int_eq_self)

text \<open>A delay that \<open>enqueue\<close> asks SQS for is the time left until the message's eta in whole seconds,
  capped at the 900 that SQS accepts, and never zero or negative; a message whose eta is
  absent, past or less than a second away carries none.\<close>

lemma sqs_delay_bounds:
  assumes "sr_delay req = None"
  shows "sr_delay (eta_delay now m req) =
    (case eta (mfields m) of
       None \<Rightarrow> None
     | Some t \<Rightarrow> if t - now < int nanos_per_sec then None
                 else Some (of_int (min 900 ((t - now) div int nanos_per_sec)))) \<and>
    (\<forall>n. sr_delay (eta_delay now m req) = Some n \<longrightarrow> 1 \<le> sint n \<and> sint n \<le> 900)"
proof (cases "eta (mfields m)")
  case None
  with assms show ?thesis by (simp add: eta_delay_def)
next
  case (Some t)
  let ?secs = "num_seconds (t - now)" and ?k = "min 900 (max 0 (num_seconds (t - now)))"
  have k: "sint (clamp_delay ?secs) = ?k" unfolding clamp_delay_def by (rule sint_small) auto
  have pos: "0 < ?k \<longleftrightarrow> int nanos_per_sec \<le> t - now"
    by (auto simp: num_seconds_def nanos_per_sec_def)
  have "int nanos_per_sec \<le> t - now \<Longrightarrow> ?k = min 900 ((t - now) div int nanos_per_sec)"
    by (auto simp: num_seconds_def nanos_per_sec_def)
  then show ?thesis using assms Some k pos
    by (auto simp: eta_delay_def Let_def word_sless_alt clamp_delay_def)
qed

lemma sqs_delay_bounds_example:
  "sr_delay (eta_delay 0 (with_eta 3000000000000 (message_new 1 0 ''a'' ''q'' ())) (send_to ''u'' ''b''))
     = Some 900"
  using sqs_delay_bounds [of "send_to ''u'' ''b''" 0 "with_eta 3000000000000 (message_new 1 0 ''a'' ''q'' ())"]
  by (simp add: send_to_def with_eta_def nanos_per_sec_def)

end
