(* ===== verification/Kojin_Amqp.thy ===== *)
theory Kojin_Amqp
  imports Kojin_Broker Kojin_Redis Kojin_Sqs
begin

text \<open>
  The RabbitMQ broker (crate \<open>kojin-amqp\<close>): configuration, topology, the broker and its
  background consumers. The AMQP client \<open>lapin\<close> is the record \<open>amqp_api\<close> of its calls over a
  remote state \<open>'d\<close>; channels and delivery tags are numbers, and the stream of a consumer answers
  \<open>None\<close> while it has nothing yet. The broker's own state is the map of deliveries, the channel
  from the consumers to \<open>dequeue\<close>, the queues consumed, and of each consumer task, by its channel,
  the message it waits to send and whether it has ended.
\<close>

subsection \<open>Configuration (config.rs)\<close>

record AmqpConfig =
  ac_url :: string
  ac_exchange :: string
  ac_dlx_exchange :: string
  ac_delayed_exchange :: string
  ac_prefetch_count :: u16
  ac_max_priority :: u8

definition amqp_config_new :: "string \<Rightarrow> AmqpConfig" where
  "amqp_config_new url =
     \<lparr>ac_url = url, ac_exchange = ''kojin.direct'', ac_dlx_exchange = ''kojin.dlx'',
      ac_delayed_exchange = ''kojin.delayed'', ac_prefetch_count = 10, ac_max_priority = 0\<rparr>"

definition ac_with_exchange :: "string \<Rightarrow> AmqpConfig \<Rightarrow> AmqpConfig" where
  "ac_with_exchange e c = c\<lparr>ac_exchange := e\<rparr>"

definition ac_with_prefetch_count :: "u16 \<Rightarrow> AmqpConfig \<Rightarrow> AmqpConfig" where
  "ac_with_prefetch_count n c = c\<lparr>ac_prefetch_count := n\<rparr>"

definition ac_with_max_priority :: "u8 \<Rightarrow> AmqpConfig \<Rightarrow> AmqpConfig" where
  "ac_with_max_priority p c = c\<lparr>ac_max_priority := min p 10\<rparr>"

subsection \<open>The client\<close>

datatype exchange_kind = Direct | DelayedMessage

datatype amqp_value = LongString string | ShortUInt u16 | LongInt i32

datatype consumer_event = Delivery u64 string | ConsumerError string | StreamEnd

record publish_props =
  pp_priority :: "u8 option"
  pp_headers :: "(string \<times> amqp_value) list"

record 'd amqp_api =
  am_connect :: "string \<Rightarrow> 'd \<Rightarrow> (string + unit) \<times> 'd"
  am_create_channel :: "'d \<Rightarrow> (string + nat) \<times> 'd"
  am_exchange_declare :: "nat \<Rightarrow> string \<Rightarrow> exchange_kind \<Rightarrow> (string \<times> amqp_value) list \<Rightarrow> 'd \<Rightarrow>
    (string + unit) \<times> 'd"
  am_queue_declare :: "nat \<Rightarrow> string \<Rightarrow> bool \<Rightarrow> (string \<times> amqp_value) list \<Rightarrow> 'd \<Rightarrow> (string + u32) \<times> 'd"
  am_queue_bind :: "nat \<Rightarrow> string \<Rightarrow> string \<Rightarrow> string \<Rightarrow> 'd \<Rightarrow> (string + unit) \<times> 'd"
  am_basic_qos :: "nat \<Rightarrow> u16 \<Rightarrow> 'd \<Rightarrow> (string + unit) \<times> 'd"
  am_basic_consume :: "nat \<Rightarrow> string \<Rightarrow> string \<Rightarrow> 'd \<Rightarrow> (string + unit) \<times> 'd"
  am_consumer_next :: "nat \<Rightarrow> 'd \<Rightarrow> consumer_event option \<times> 'd"
  am_basic_publish :: "nat \<Rightarrow> string \<Rightarrow> string \<Rightarrow> string \<Rightarrow> publish_props \<Rightarrow> 'd \<Rightarrow> (string + unit) \<times> 'd"
  am_basic_ack :: "nat \<Rightarrow> u64 \<Rightarrow> 'd \<Rightarrow> (string + unit) \<times> 'd"
  am_basic_nack :: "nat \<Rightarrow> u64 \<Rightarrow> bool \<Rightarrow> 'd \<Rightarrow> (string + unit) \<times> 'd"
  am_basic_get :: "nat \<Rightarrow> string \<Rightarrow> 'd \<Rightarrow> (string + (u64 \<times> string) option) \<times> 'd"

subsection \<open>Topology (topology.rs)\<close>

definition amqp_queue_name :: "string \<Rightarrow> string" where
  "amqp_queue_name q = ''kojin.queue.'' @ q"

definition amqp_dlq_name :: "string \<Rightarrow> string" where
  "amqp_dlq_name q = ''kojin.dlq.'' @ q"

definition main_queue_args :: "AmqpConfig \<Rightarrow> string \<Rightarrow> (string \<times> amqp_value) list" where
  "main_queue_args cfg name =
     [(''x-dead-letter-exchange'', LongString (ac_dlx_exchange cfg)),
      (''x-dead-letter-routing-key'', LongString name)] @
     (if ac_max_priority cfg > 0 then [(''x-max-priority'', ShortUInt (ucast (ac_max_priority cfg)))]
      else [])"

definition declare_queue_pair :: "'d amqp_api \<Rightarrow> nat \<Rightarrow> AmqpConfig \<Rightarrow> string \<Rightarrow> 'd \<Rightarrow> (string + unit) \<times> 'd"
where
  "declare_queue_pair A ch cfg name =
     try_then (am_queue_declare A ch (amqp_dlq_name name) False []) (\<lambda>_.
       try_then (am_queue_bind A ch (amqp_dlq_name name) (ac_dlx_exchange cfg) name) (\<lambda>_.
         try_then (am_queue_declare A ch (amqp_queue_name name) False (main_queue_args cfg name)) (\<lambda>_.
           try_then (am_queue_bind A ch (amqp_queue_name name) (ac_exchange cfg) name) (\<lambda>_.
             try_then (am_create_channel A) (\<lambda>delayed_ch d.
               (Inr (), snd (am_queue_bind A delayed_ch (amqp_queue_name name)
                               (ac_delayed_exchange cfg) name d)))))))"

text \<open>The delayed exchange is declared on a connection of its own; every failure is ignored.\<close>

definition probe_delayed :: "'d amqp_api \<Rightarrow> AmqpConfig \<Rightarrow> 'd \<Rightarrow> 'd" where
  "probe_delayed A cfg d =
     (case am_connect A (ac_url cfg) d of
        (Inl e, d1) \<Rightarrow> d1
      | (Inr _, d1) \<Rightarrow>
          (case am_create_channel A d1 of
             (Inl e, d2) \<Rightarrow> d2
           | (Inr ch, d2) \<Rightarrow>
               snd (am_exchange_declare A ch (ac_delayed_exchange cfg) DelayedMessage
                      [(''x-delayed-type'', LongString ''direct'')] d2)))"

fun declare_queue_pairs :: "'d amqp_api \<Rightarrow> nat \<Rightarrow> AmqpConfig \<Rightarrow> string list \<Rightarrow> 'd \<Rightarrow> (string + unit) \<times> 'd"
where
  "declare_queue_pairs A ch cfg [] d = (Inr (), d)"
| "declare_queue_pairs A ch cfg (q # qs) d =
     try_then (declare_queue_pair A ch cfg q) (\<lambda>_. declare_queue_pairs A ch cfg qs) d"

definition declare_topology :: "'d amqp_api \<Rightarrow> nat \<Rightarrow> AmqpConfig \<Rightarrow> string list \<Rightarrow> 'd \<Rightarrow>
    (string + unit) \<times> 'd" where
  "declare_topology A ch cfg queues =
     try_then (am_exchange_declare A ch (ac_exchange cfg) Direct []) (\<lambda>_.
       try_then (am_exchange_declare A ch (ac_dlx_exchange cfg) Direct []) (\<lambda>_ d.
         declare_queue_pairs A ch cfg queues (probe_delayed A cfg d)))"

subsection \<open>Broker and consumers (broker.rs)\<close>

record AmqpBroker =
  ab_publish_channel :: nat
  ab_config :: AmqpConfig
  ab_capacity :: nat

record ('d, 'v) amqp_state =
  at_remote :: 'd
  at_deliveries :: "TaskId \<rightharpoonup> nat \<times> u64"
  at_rx :: "'v TaskMessage list"
  at_consuming :: "(string \<times> nat) list"
  at_sending :: "nat \<rightharpoonup> 'v TaskMessage"
  at_ended :: "nat set"
  at_cancelled :: bool

definition on_amqp :: "('d \<Rightarrow> (string + 'a) \<times> 'd) \<Rightarrow> ('d, 'v) amqp_state \<Rightarrow>
    'a TaskResult \<times> ('d, 'v) amqp_state" where
  "on_amqp f = map_err Broker (\<lambda>s. let (r, d) = f (at_remote s) in (r, s\<lparr>at_remote := d\<rparr>))"

text \<open>\<open>consumer_tag\<close> is the text \<open>kojin-{queue}-{uuid}\<close>; \<open>uuid q\<close> is the text of the UUID drawn for it.\<close>

definition ensure_consumer :: "'d amqp_api \<Rightarrow> AmqpConfig \<Rightarrow> (string \<Rightarrow> string) \<Rightarrow> string \<Rightarrow> ('d, 'v) amqp_state \<Rightarrow>
    unit TaskResult \<times> ('d, 'v) amqp_state" where
  "ensure_consumer A cfg uuid q s =
     (if q \<in> fst ` set (at_consuming s) then (Inr (), s)
      else try_then (on_amqp (am_create_channel A)) (\<lambda>ch.
             try_then (on_amqp (am_basic_qos A ch (ac_prefetch_count cfg))) (\<lambda>_.
               try_then (on_amqp (am_basic_consume A ch (amqp_queue_name q)
                   (''kojin-'' @ q @ ''-'' @ uuid q))) (\<lambda>_ s.
                 (Inr (), s\<lparr>at_consuming := at_consuming s @ [(q, ch)]\<rparr>)))) s)"

fun ensure_consumers :: "'d amqp_api \<Rightarrow> AmqpConfig \<Rightarrow> (string \<Rightarrow> string) \<Rightarrow> string list \<Rightarrow> ('d, 'v) amqp_state \<Rightarrow>
    unit TaskResult \<times> ('d, 'v) amqp_state" where
  "ensure_consumers A cfg uuid [] s = (Inr (), s)"
| "ensure_consumers A cfg uuid (q # qs) s =
     try_then (ensure_consumer A cfg uuid q) (\<lambda>_. ensure_consumers A cfg uuid qs) s"

text \<open>\<open>mpsc::channel(0)\<close> panics: \<open>None\<close>.\<close>

definition amqp_broker_new :: "'d amqp_api \<Rightarrow> (string \<Rightarrow> string) \<Rightarrow> AmqpConfig \<Rightarrow> string list \<Rightarrow> 'd \<Rightarrow>
    (AmqpBroker TaskResult \<times> ('d, 'v) amqp_state) option" where
  "amqp_broker_new A uuid cfg queues d =
     (let s0 = \<lparr>at_remote = d, at_deliveries = Map.empty, at_rx = [], at_consuming = [],
                at_sending = Map.empty, at_ended = {}, at_cancelled = False\<rparr>;
          setup = try_then (on_amqp (am_connect A (ac_url cfg))) (\<lambda>_.
                    try_then (on_amqp (am_create_channel A)) (\<lambda>publish.
                      try_then (on_amqp (am_create_channel A)) (\<lambda>ch.
                        try_then (on_amqp (declare_topology A ch cfg queues)) (\<lambda>_ s. (Inr publish, s)))));
          capacity = unat (ac_prefetch_count cfg) * max 1 (length queues)
      in case setup s0 of
           (Inl e, s) \<Rightarrow> Some (Inl e, s)
         | (Inr publish, s) \<Rightarrow>
             if capacity = 0 then None
             else Some (try_then (ensure_consumers A cfg uuid queues)
                    (\<lambda>_ s. (Inr \<lparr>ab_publish_channel = publish, ab_config = cfg, ab_capacity = capacity\<rparr>, s)) s))"

text \<open>
  One turn of a consumer task: a delivery whose body does not decode is rejected; any other
  is recorded and sent to \<open>dequeue\<close>. While the channel is full the task holds the message it is
  sending and takes no other delivery. An error or the end of the stream ends the task.
\<close>

definition offer :: "AmqpBroker \<Rightarrow> nat \<Rightarrow> 'v TaskMessage \<Rightarrow> ('d, 'v) amqp_state \<Rightarrow> ('d, 'v) amqp_state" where
  "offer b ch m s =
     (if length (at_rx s) < ab_capacity b
      then s\<lparr>at_rx := at_rx s @ [m], at_sending := (at_sending s)(ch := None)\<rparr>
      else s\<lparr>at_sending := (at_sending s)(ch \<mapsto> m)\<rparr>)"

definition end_consumer :: "nat \<Rightarrow> ('d, 'v) amqp_state \<Rightarrow> ('d, 'v) amqp_state" where
  "end_consumer ch s = s\<lparr>at_ended := insert ch (at_ended s)\<rparr>"

definition consumer_step :: "'d amqp_api \<Rightarrow> 'v json_api \<Rightarrow> AmqpBroker \<Rightarrow> nat \<Rightarrow> ('d, 'v) amqp_state \<Rightarrow>
    ('d, 'v) amqp_state" where
  "consumer_step A J b ch s =
     (if ch \<in> at_ended s then s
      else case at_sending s ch of
             Some m \<Rightarrow> offer b ch m s
           | None \<Rightarrow>
               (case am_consumer_next A ch (at_remote s) of
                  (None, d) \<Rightarrow> s\<lparr>at_remote := d\<rparr>
                | (Some (Delivery tag body), d) \<Rightarrow>
                    (case js_message_from J body of
                       Inr m \<Rightarrow> offer b ch m (s\<lparr>at_remote := d,
                                  at_deliveries := (at_deliveries s)(msg_id m \<mapsto> (ch, tag))\<rparr>)
                     | Inl e \<Rightarrow> s\<lparr>at_remote := snd (am_basic_nack A ch tag False d)\<rparr>)
                | (Some (ConsumerError e), d) \<Rightarrow> end_consumer ch (s\<lparr>at_remote := d\<rparr>)
                | (Some StreamEnd, d) \<Rightarrow> end_consumer ch (s\<lparr>at_remote := d\<rparr>)))"

text \<open>The other branch of \<open>select!\<close>: a cancelled task ends when it is not sending.\<close>

definition consumer_cancel :: "nat \<Rightarrow> ('d, 'v) amqp_state \<Rightarrow> ('d, 'v) amqp_state" where
  "consumer_cancel ch s =
     (if at_cancelled s \<and> at_sending s ch = None then end_consumer ch s else s)"

definition amqp_shutdown :: "('d, 'v) amqp_state \<Rightarrow> ('d, 'v) amqp_state" where
  "amqp_shutdown s = s\<lparr>at_cancelled := True\<rparr>"

definition am_publish :: "'d amqp_api \<Rightarrow> 'v json_api \<Rightarrow> AmqpBroker \<Rightarrow> string \<Rightarrow> 'v TaskMessage \<Rightarrow>
    publish_props \<Rightarrow> ('d, 'v) amqp_state \<Rightarrow> unit TaskResult \<times> ('d, 'v) amqp_state" where
  "am_publish A J b exchange m props =
     try_then (pure_call Serialization (js_message_to J m)) (\<lambda>body.
       on_amqp (am_basic_publish A (ab_publish_channel b) exchange (msg_queue m) body props))"

definition am_enqueue :: "'d amqp_api \<Rightarrow> 'v json_api \<Rightarrow> AmqpBroker \<Rightarrow> 'v TaskMessage \<Rightarrow>
    ('d, 'v) amqp_state \<Rightarrow> unit TaskResult \<times> ('d, 'v) amqp_state" where
  "am_enqueue A J b m =
     am_publish A J b (ac_exchange (ab_config b)) m
       \<lparr>pp_priority = priority (mfields m), pp_headers = []\<rparr>"

text \<open>
  While \<open>dequeue\<close> waits, the consumer tasks run: \<open>env\<close> is what they do until the message is
  received or the timeout, which is not zero, expires.
\<close>

definition am_dequeue :: "(('d, 'v) amqp_state \<Rightarrow> ('d, 'v) amqp_state) \<Rightarrow> string list \<Rightarrow> Duration \<Rightarrow>
    ('d, 'v) amqp_state \<Rightarrow> 'v TaskMessage option TaskResult \<times> ('d, 'v) amqp_state" where
  "am_dequeue env qs timeout s =
     (let s' = (if at_rx s = [] then env s else s)
      in case at_rx s' of
           [] \<Rightarrow> (Inr None, s')
         | m # ms \<Rightarrow> (Inr (Some m), s'\<lparr>at_rx := ms\<rparr>))"

definition take_delivery :: "TaskId \<Rightarrow> (nat \<Rightarrow> u64 \<Rightarrow> 'd \<Rightarrow> (string + unit) \<times> 'd) \<Rightarrow>
    ('d, 'v) amqp_state \<Rightarrow> unit TaskResult \<times> ('d, 'v) amqp_state" where
  "take_delivery i f s =
     (case at_deliveries s i of
        None \<Rightarrow> (Inr (), s)
      | Some (ch, tag) \<Rightarrow> on_amqp (f ch tag) (s\<lparr>at_deliveries := (at_deliveries s)(i := None)\<rparr>))"

definition am_ack :: "'d amqp_api \<Rightarrow> TaskId \<Rightarrow> ('d, 'v) amqp_state \<Rightarrow>
    unit TaskResult \<times> ('d, 'v) amqp_state" where
  "am_ack A i = take_delivery i (am_basic_ack A)"

definition am_nack :: "'d amqp_api \<Rightarrow> 'v TaskMessage \<Rightarrow> ('d, 'v) amqp_state \<Rightarrow>
    unit TaskResult \<times> ('d, 'v) amqp_state" where
  "am_nack A m = take_delivery (msg_id m) (\<lambda>ch tag. am_basic_nack A ch tag True)"

definition am_dead_letter :: "'d amqp_api \<Rightarrow> 'v TaskMessage \<Rightarrow> ('d, 'v) amqp_state \<Rightarrow>
    unit TaskResult \<times> ('d, 'v) amqp_state" where
  "am_dead_letter A m = take_delivery (msg_id m) (\<lambda>ch tag. am_basic_nack A ch tag False)"

definition num_milliseconds :: "int \<Rightarrow> int" where
  "num_milliseconds d = (if 0 \<le> d then d div 1000000 else - ((- d) div 1000000))"

text \<open>\<open>delay_ms as i32\<close> keeps the low 32 bits.\<close>

definition x_delay :: "DateTime \<Rightarrow> DateTime \<Rightarrow> i32" where
  "x_delay now t = of_int (max 0 (num_milliseconds (t - now)))"

definition am_schedule :: "'d amqp_api \<Rightarrow> 'v json_api \<Rightarrow> AmqpBroker \<Rightarrow> DateTime \<Rightarrow> 'v TaskMessage \<Rightarrow>
    DateTime \<Rightarrow> ('d, 'v) amqp_state \<Rightarrow> unit TaskResult \<times> ('d, 'v) amqp_state" where
  "am_schedule A J b now m t =
     am_publish A J b (ac_delayed_exchange (ab_config b)) m
       \<lparr>pp_priority = None, pp_headers = [(''x-delay'', LongInt (x_delay now t))]\<rparr>"

definition am_passive_count :: "'d amqp_api \<Rightarrow> string \<Rightarrow> ('d, 'v) amqp_state \<Rightarrow>
    nat TaskResult \<times> ('d, 'v) amqp_state" where
  "am_passive_count A name =
     try_then (on_amqp (am_create_channel A)) (\<lambda>ch.
       try_then (on_amqp (am_queue_declare A ch name True [])) (\<lambda>n s. (Inr (unat n), s)))"

definition am_queue_len :: "'d amqp_api \<Rightarrow> string \<Rightarrow> ('d, 'v) amqp_state \<Rightarrow>
    nat TaskResult \<times> ('d, 'v) amqp_state" where
  "am_queue_len A q = am_passive_count A (amqp_queue_name q)"

definition am_dlq_len :: "'d amqp_api \<Rightarrow> string \<Rightarrow> ('d, 'v) amqp_state \<Rightarrow>
    nat TaskResult \<times> ('d, 'v) amqp_state" where
  "am_dlq_len A q = am_passive_count A (amqp_dlq_name q)"

definition am_list_queues :: "('d, 'v) amqp_state \<Rightarrow> string list TaskResult \<times> ('d, 'v) amqp_state" where
  "am_list_queues s = (Inr (map fst (at_consuming s)), s)"

text \<open>Each message read from the dead-letter queue is put back before the next is read.\<close>

fun am_dlq_loop :: "'d amqp_api \<Rightarrow> 'v json_api \<Rightarrow> nat \<Rightarrow> string \<Rightarrow> nat \<Rightarrow> nat \<Rightarrow> 'v TaskMessage list \<Rightarrow>
    ('d, 'v) amqp_state \<Rightarrow> 'v TaskMessage list TaskResult \<times> ('d, 'v) amqp_state" where
  "am_dlq_loop A J ch name 0 skip acc s = (Inr acc, s)"
| "am_dlq_loop A J ch name (Suc n) skip acc s =
     try_then (on_amqp (am_basic_get A ch name)) (\<lambda>r s1.
       case r of
         None \<Rightarrow> (Inr acc, s1)
       | Some (tag, body) \<Rightarrow>
           (let (skip', acc') =
                  (if 0 < skip then (skip - 1, acc)
                   else (case js_message_from J body of Inr m \<Rightarrow> (0, acc @ [m]) | Inl e \<Rightarrow> (0, acc)))
            in try_then (on_amqp (am_basic_nack A ch tag True))
                 (\<lambda>_. am_dlq_loop A J ch name n skip' acc') s1)) s"

definition am_dlq_messages :: "'d amqp_api \<Rightarrow> 'v json_api \<Rightarrow> string \<Rightarrow> usize \<Rightarrow> usize \<Rightarrow>
    ('d, 'v) amqp_state \<Rightarrow> 'v TaskMessage list TaskResult \<times> ('d, 'v) amqp_state" where
  "am_dlq_messages A J q offset limit =
     try_then (on_amqp (am_create_channel A)) (\<lambda>ch.
       am_dlq_loop A J ch (amqp_dlq_name q) (unat (offset + limit)) (unat offset) [])"

definition amqp_broker :: "'d amqp_api \<Rightarrow> 'v json_api \<Rightarrow> AmqpBroker \<Rightarrow>
    (('d, 'v) amqp_state \<Rightarrow> ('d, 'v) amqp_state) \<Rightarrow> DateTime \<Rightarrow> (('d, 'v) amqp_state, 'v) Broker" where
  "amqp_broker A J b env now =
     \<lparr>b_enqueue = am_enqueue A J b, b_dequeue = am_dequeue env, b_ack = am_ack A,
      b_nack = am_nack A, b_dead_letter = am_dead_letter A, b_schedule = am_schedule A J b now,
      b_queue_len = am_queue_len A, b_dlq_len = am_dlq_len A, b_list_queues = am_list_queues,
      b_dlq_messages = am_dlq_messages A J\<rparr>"

subsection \<open>The channel to the broker\<close>

lemma offer_rx: "length (at_rx s) \<le> ab_capacity b \<Longrightarrow> length (at_rx (offer b ch m s)) \<le> ab_capacity b"
  by (simp add: offer_def)

text \<open>The consumers never put more messages into the channel than it has room for.\<close>

lemma consumer_step_bounded:
  "length (at_rx s) \<le> ab_capacity b \<Longrightarrow> length (at_rx (consumer_step A J b ch s)) \<le> ab_capacity b"
  by (auto simp: consumer_step_def end_consumer_def intro!: offer_rx
      split: option.split prod.split sum.split consumer_event.split)

end
