(* ===== verification/Kojin_Redelivery.thy ===== *)
theory Kojin_Redelivery
  imports Kojin_Worker_Correct Kojin_Amqp Kojin_Sqs
begin

text \<open>
  Brokers whose \<open>nack\<close> hands the original delivery back (\<open>kojin-amqp\<close> and \<open>kojin-sqs\<close>)
  instead of queueing the message the worker passed. The locale \<open>redelivering_broker\<close> states
  that behaviour, with what it means for a task that keeps failing; it is interpreted for
  both brokers over executable reference servers.
\<close>

subsection \<open>The contract\<close>

locale redelivering_broker =
  fixes B :: "('s, 'v) Broker" and qs :: "string list"
    and holds :: "'v TaskMessage \<Rightarrow> 's \<Rightarrow> bool" and flying :: "'v TaskMessage \<Rightarrow> 's \<Rightarrow> bool"
  assumes dequeue_held: "holds m s \<Longrightarrow> fst (b_dequeue B qs t s) = Inr (Some m)"
    and dequeue_flying: "holds m s \<Longrightarrow> flying m (snd (b_dequeue B qs t s))"
    and nack_held: "flying m s \<Longrightarrow> msg_id n = msg_id m \<Longrightarrow> holds m (snd (b_nack B n s))"
begin

lemma failing_round_redelivers:
  assumes W: "wk_broker W = B" "wc_queues (wk_config W) = qs"
    and fails: "\<And>x. \<exists>e y. dispatch (wk_registry W) (task_name (mfields m)) (payload (mfields m))
             (wk_context W) x = (Inl e, y)"
    and m: "eta (mfields m) = None" "retries (mfields m) < max_retries (mfields m)"
    and held: "holds m (w_broker w)"
  shows "holds m (w_broker (worker_round W w))"
proof -
  define w1 where "w1 = snd (on_broker (b_dequeue B qs (dequeue_timeout (wk_config W))) w)"
  have "fst (on_broker (b_dequeue B qs (dequeue_timeout (wk_config W))) w) = Inr (Some m)"
    using held by (simp add: worker_simps dequeue_held)
  then have round: "worker_round W w = run_task W (started m) w1"
    by (simp add: worker_round_def W w1_def execute_task_now [OF m(1)] case_prod_beta)
  have w1: "flying m (w_broker w1)" using held by (simp add: w1_def worker_simps dequeue_flying)
  obtain e v where "run_task W (started m) w1 = handle_failure W (started m) e v"
    and "w_broker v = w_broker w1"
    using run_task_fails [of W "started m" w1] fails by auto
  then show ?thesis
    using w1 m(2) nack_held [of m "w_broker w1" "mark_retry (w_now v) (started m)"]
    by (simp add: round handle_failure_def Let_def W worker_simps)
qed

lemma failing_task_redelivered:
  assumes "wk_broker W = B" "wc_queues (wk_config W) = qs"
    and "\<And>x. \<exists>e y. dispatch (wk_registry W) (task_name (mfields m)) (payload (mfields m))
             (wk_context W) x = (Inl e, y)"
    and "eta (mfields m) = None" "retries (mfields m) < max_retries (mfields m)"
    and "holds m (w_broker w)"
  shows "holds m (w_broker ((worker_round W ^^ n) w))"
  using assms(6)
  by (induction n) (simp_all add: failing_round_redelivers [OF assms(1-5)])

end

subsection \<open>A reference RabbitMQ\<close>

record rabbit_db =
  rq_ready :: "string \<Rightarrow> string list"
  rq_unacked :: "u64 \<rightharpoonup> string \<times> string"
  rq_next_tag :: u64
  rq_bindings :: "(string \<times> string \<times> string) list"
  rq_consumers :: "nat \<rightharpoonup> string"
  rq_dlx :: "string \<rightharpoonup> string"

definition rabbit_empty :: rabbit_db where
  "rabbit_empty =
     \<lparr>rq_ready = (\<lambda>_. []), rq_unacked = Map.empty, rq_next_tag = 1, rq_bindings = [],
      rq_consumers = Map.empty, rq_dlx = Map.empty\<rparr>"

definition rabbit_deliver :: "string \<Rightarrow> rabbit_db \<Rightarrow> (u64 \<times> string) option \<times> rabbit_db" where
  "rabbit_deliver q d =
     (case rq_ready d q of
        [] \<Rightarrow> (None, d)
      | body # rest \<Rightarrow>
          (Some (rq_next_tag d, body),
           d\<lparr>rq_ready := (rq_ready d)(q := rest),
             rq_unacked := (rq_unacked d)(rq_next_tag d \<mapsto> (q, body)),
             rq_next_tag := rq_next_tag d + 1\<rparr>))"

text \<open>A requeued message takes its place at the front; a rejected one goes to the DLQ.\<close>

definition rabbit_nack :: "u64 \<Rightarrow> bool \<Rightarrow> rabbit_db \<Rightarrow> rabbit_db" where
  "rabbit_nack tag requeue d =
     (case rq_unacked d tag of
        None \<Rightarrow> d
      | Some (q, body) \<Rightarrow>
          (let d1 = d\<lparr>rq_unacked := (rq_unacked d)(tag := None)\<rparr>
           in if requeue then d1\<lparr>rq_ready := (rq_ready d1)(q := body # rq_ready d1 q)\<rparr>
              else (case rq_dlx d q of
                      None \<Rightarrow> d1
                    | Some dlq \<Rightarrow> d1\<lparr>rq_ready := (rq_ready d1)(dlq := rq_ready d1 dlq @ [body])\<rparr>)))"

definition rabbit_ref :: "rabbit_db amqp_api" where
  "rabbit_ref =
     \<lparr>am_connect = (\<lambda>url d. (Inr (), d)),
      am_create_channel = (\<lambda>d. (Inr 1, d)),
      am_exchange_declare = (\<lambda>ch name kind args d. (Inr (), d)),
      am_queue_declare = (\<lambda>ch name passive args d. (Inr (of_nat (length (rq_ready d name))), d)),
      am_queue_bind = (\<lambda>ch q ex key d. (Inr (), d\<lparr>rq_bindings := (ex, key, q) # rq_bindings d\<rparr>)),
      am_basic_qos = (\<lambda>ch n d. (Inr (), d)),
      am_basic_consume = (\<lambda>ch q tag d. (Inr (), d\<lparr>rq_consumers := (rq_consumers d)(ch \<mapsto> q)\<rparr>)),
      am_consumer_next = (\<lambda>ch d.
        case rq_consumers d ch of
          None \<Rightarrow> (None, d)
        | Some q \<Rightarrow> (let (r, d') = rabbit_deliver q d in (map_option (\<lambda>(tag, body). Delivery tag body) r, d'))),
      am_basic_publish = (\<lambda>ch ex key body props d.
        (Inr (), d\<lparr>rq_ready := (\<lambda>q. if (ex, key, q) \<in> set (rq_bindings d)
                                   then rq_ready d q @ [body] else rq_ready d q)\<rparr>)),
      am_basic_ack = (\<lambda>ch tag d. (Inr (), d\<lparr>rq_unacked := (rq_unacked d)(tag := None)\<rparr>)),
      am_basic_nack = (\<lambda>ch tag requeue d. (Inr (), rabbit_nack tag requeue d)),
      am_basic_get = (\<lambda>ch q d. (let (r, d') = rabbit_deliver q d in (Inr r, d')))\<rparr>"

definition rabbit_holds :: "'v json_api \<Rightarrow> AmqpBroker \<Rightarrow> nat \<Rightarrow> 'v TaskMessage \<Rightarrow>
    (rabbit_db, 'v) amqp_state \<Rightarrow> bool" where
  "rabbit_holds J b ch m s \<longleftrightarrow>
     at_rx s = [] \<and> at_sending s ch = None \<and> ch \<notin> at_ended s \<and> 0 < ab_capacity b \<and>
     (case rq_consumers (at_remote s) ch of
        None \<Rightarrow> False
      | Some q \<Rightarrow> (case rq_ready (at_remote s) q of
                     [body] \<Rightarrow> js_message_from J body = Inr m
                   | _ \<Rightarrow> False))"

definition rabbit_flying :: "'v json_api \<Rightarrow> AmqpBroker \<Rightarrow> nat \<Rightarrow> 'v TaskMessage \<Rightarrow>
    (rabbit_db, 'v) amqp_state \<Rightarrow> bool" where
  "rabbit_flying J b ch m s \<longleftrightarrow>
     at_rx s = [] \<and> at_sending s ch = None \<and> ch \<notin> at_ended s \<and> 0 < ab_capacity b \<and>
     (\<exists>q c tag body. rq_consumers (at_remote s) ch = Some q \<and> rq_ready (at_remote s) q = [] \<and>
        at_deliveries s (msg_id m) = Some (c, tag) \<and>
        rq_unacked (at_remote s) tag = Some (q, body) \<and> js_message_from J body = Inr m)"

interpretation rabbit: redelivering_broker
  "amqp_broker rabbit_ref J b (consumer_step rabbit_ref J b ch) now" qs
  "rabbit_holds J b ch" "rabbit_flying J b ch"
proof unfold_locales
  let ?B = "amqp_broker rabbit_ref J b (consumer_step rabbit_ref J b ch) now"
  fix m s t
  assume held: "rabbit_holds J b ch m s"
  then show "fst (b_dequeue ?B qs t s) = Inr (Some m)"
    by (auto simp: rabbit_holds_def amqp_broker_def am_dequeue_def consumer_step_def offer_def rabbit_ref_def
        rabbit_deliver_def split: option.splits list.splits)
  from held show "rabbit_flying J b ch m (snd (b_dequeue ?B qs t s))"
    by (auto simp: rabbit_holds_def rabbit_flying_def amqp_broker_def am_dequeue_def
        consumer_step_def offer_def rabbit_ref_def rabbit_deliver_def split: option.splits list.splits)
next
  let ?B = "amqp_broker rabbit_ref J b (consumer_step rabbit_ref J b ch) now"
  fix m n :: "'a TaskMessage" and s
  assume "rabbit_flying J b ch m s" and "msg_id n = msg_id m"
  then show "rabbit_holds J b ch m (snd (b_nack ?B n s))"
    by (auto simp: rabbit_holds_def rabbit_flying_def amqp_broker_def am_nack_def take_delivery_def
        on_amqp_def map_err_def rabbit_ref_def rabbit_nack_def)
qed

subsection \<open>A reference SQS\<close>

record sqs_db =
  sv_visible :: "string \<Rightarrow> string list"
  sv_invisible :: "string \<rightharpoonup> string \<times> string"
  sv_received :: nat

text \<open>A receipt handle is the number of messages received before, in decimal.\<close>

definition sqs_receive_ref :: "string \<Rightarrow> sqs_db \<Rightarrow> (string + sqs_received list option) \<times> sqs_db" where
  "sqs_receive_ref url d =
     (case sv_visible d url of
        [] \<Rightarrow> (Inr None, d)
      | body # rest \<Rightarrow>
          (let h = show_nat (sv_received d)
           in (Inr (Some [\<lparr>sm_body = Some body, sm_receipt = Some h\<rparr>]),
               d\<lparr>sv_visible := (sv_visible d)(url := rest),
                 sv_invisible := (sv_invisible d)(h \<mapsto> (url, body)),
                 sv_received := Suc (sv_received d)\<rparr>)))"

definition sqs_ref :: "sqs_db sqs_api" where
  "sqs_ref =
     \<lparr>sq_send = (\<lambda>r d. (Inr (), d\<lparr>sv_visible := (sv_visible d)
        (sr_queue_url r := sv_visible d (sr_queue_url r) @ [sr_body r])\<rparr>)),
      sq_receive = (\<lambda>url wait vis d. sqs_receive_ref url d),
      sq_delete = (\<lambda>url h d. (Inr (), d\<lparr>sv_invisible := (sv_invisible d)(h := None)\<rparr>)),
      sq_change_visibility = (\<lambda>url h secs d.
        (Inr (), case sv_invisible d h of
           None \<Rightarrow> d
         | Some (u, body) \<Rightarrow>
             if secs = 0 then d\<lparr>sv_invisible := (sv_invisible d)(h := None),
                                sv_visible := (sv_visible d)(u := sv_visible d u @ [body])\<rparr>
             else d)),
      sq_approximate_number = (\<lambda>url d. (Inr (Some (show_nat (length (sv_visible d url)))), d))\<rparr>"

definition sqs_holds :: "'v json_api \<Rightarrow> string \<Rightarrow> 'v TaskMessage \<Rightarrow> sqs_db sqs_state \<Rightarrow> bool" where
  "sqs_holds J url m s \<longleftrightarrow>
     (case sv_visible (ss_remote s) url of
        [body] \<Rightarrow> js_message_from J body = Inr m
      | _ \<Rightarrow> False)"

definition sqs_flying :: "'v json_api \<Rightarrow> string \<Rightarrow> 'v TaskMessage \<Rightarrow> sqs_db sqs_state \<Rightarrow> bool" where
  "sqs_flying J url m s \<longleftrightarrow>
     sv_visible (ss_remote s) url = [] \<and>
     (\<exists>h u body. ss_receipts s (msg_id m) = Some (u, h) \<and>
        sv_invisible (ss_remote s) h = Some (url, body) \<and> js_message_from J body = Inr m)"

text \<open>The broker configured with one queue URL.\<close>

abbreviation sqs_one_queue :: "string \<Rightarrow> SqsBroker" where
  "sqs_one_queue url \<equiv> sqs_broker_new (\<lambda>urls. urls) (sqs_config_new [url])"

interpretation sqs: redelivering_broker
  "sqs_broker sqs_ref f J (sqs_one_queue url) now" "[queue_name_from_url url]"
  "sqs_holds J url" "sqs_flying J url"
proof unfold_locales
  let ?B = "sqs_broker sqs_ref f J (sqs_one_queue url) now"
  have resolve: "resolve_queue_url (sqs_one_queue url) (queue_name_from_url url) = Some url"
    by (simp add: resolve_queue_url_def sqs_broker_new_def sqs_config_new_def)
  fix m s t
  assume held: "sqs_holds J url m s"
  then show "fst (b_dequeue ?B [queue_name_from_url url] t s) = Inr (Some m)"
    by (auto simp: sqs_holds_def sqs_broker_def sb_dequeue_def resolve on_remote_def map_err_def
        try_then_def sqs_ref_def sqs_receive_ref_def Let_def split: list.splits)
  from held show "sqs_flying J url m (snd (b_dequeue ?B [queue_name_from_url url] t s))"
    by (auto simp: sqs_holds_def sqs_flying_def sqs_broker_def sb_dequeue_def resolve on_remote_def
        map_err_def try_then_def sqs_ref_def sqs_receive_ref_def Let_def split: list.splits)
next
  let ?B = "sqs_broker sqs_ref f J (sqs_one_queue url) now"
  fix m n :: "'a TaskMessage" and s
  assume "sqs_flying J url m s" and "msg_id n = msg_id m"
  then show "sqs_holds J url m (snd (b_nack ?B n s))"
    by (auto simp: sqs_holds_def sqs_flying_def sqs_broker_def sb_nack_def on_remote_def
        map_err_def sqs_ref_def)
qed

subsection \<open>Properties\<close>


definition lost_worker :: "('b, string) Broker \<Rightarrow> ('b, unit, unit, unit, string, unit) Worker" where
  "lost_worker B =
     worker_new \<lparr>sigs_from_str = (\<lambda>_. Inr []), sigs_to_str = (\<lambda>_. Inr []), value_to_str = Inr,
                 values_to_str = (\<lambda>_. Inr [])\<rparr>
       of_nat B registry_new () worker_config_default"

definition world_at :: "'b \<Rightarrow> ('b, unit, unit, unit) world" where
  "world_at b = \<lparr>w_broker = b, w_backend = (), w_mw = (), w_app = (), w_now = 0, w_clock = 0, w_drawn = 0\<rparr>"

lemma lost_worker_fails:
  "dispatch (wk_registry (lost_worker B)) name p c x = (Inl (TaskNotFound name), x)"
  by (simp add: lost_worker_def worker_new_def dispatch_def registry_get_def registry_new_def)

lemma lost_worker_sel [simp]:
  "wk_broker (lost_worker B) = B" "wc_queues (wk_config (lost_worker B)) = [''default'']"
  by (simp_all add: lost_worker_def worker_new_def worker_config_default_def)

lemma named_message_retry [simp]:
  "eta (mfields (named_message n)) = None" "retries (mfields (named_message n)) = 0"
  "max_retries (mfields (named_message n)) = 3"
  by (simp_all add: named_message_def message_new_def)

definition example_amqp :: AmqpBroker where
  "example_amqp = \<lparr>ab_publish_channel = 1, ab_config = amqp_config_new [], ab_capacity = 10\<rparr>"

definition example_rabbit :: "(rabbit_db, string) amqp_state" where
  "example_rabbit =
     \<lparr>at_remote = rabbit_empty\<lparr>rq_ready := (\<lambda>q. if q = ''kojin.queue.default'' then [''t''] else []),
                              rq_consumers := [1 \<mapsto> ''kojin.queue.default'']\<rparr>,
      at_deliveries = Map.empty, at_rx = [], at_consuming = [(''default'', 1)], at_sending = Map.empty, at_ended = {}, at_cancelled = False\<rparr>"



definition example_sqs :: "sqs_db sqs_state" where
  "example_sqs =
     \<lparr>ss_remote = \<lparr>sv_visible = (\<lambda>u. if u = ''http://aws/default'' then [''t''] else []),
                   sv_invisible = Map.empty, sv_received = 0\<rparr>,
      ss_receipts = Map.empty\<rparr>"


text \<open>Without a configured dead-letter URL, dead-lettering a message on SQS deletes it: the call does
  exactly what an acknowledgement does, so the redrive policy of the queue never sees the
  message again.\<close>

lemma sqs_dead_letter_without_dlq_deletes:
  assumes "sc_dlq_url (sq_config b) = None"
  shows "sb_dead_letter A f J b m s = sb_ack A (msg_id m) s"
proof -
  obtain r s1 where "sb_ack A (msg_id m) s = (r, s1)" by fastforce
  with assms show ?thesis by (cases r) (simp_all add: sb_dead_letter_def try_then_def)
qed

lemma sqs_dead_letter_without_dlq_deletes_witness:
  "sb_dead_letter sqs_ref (\<lambda>u. []) name_codec (sqs_one_queue ''u'') (named_message ''t'') example_sqs
     = sb_ack sqs_ref (TaskId 0) example_sqs"
  using sqs_dead_letter_without_dlq_deletes [of "sqs_one_queue ''u''" sqs_ref "\<lambda>u. []" name_codec
      "named_message ''t''" example_sqs]
  by (simp add: sqs_broker_new_def sqs_config_new_def)

lemma dlq_loop_repeats:
  assumes "js_message_from J body = Inr m"
  shows "rq_ready (at_remote s) name = body # rest \<Longrightarrow>
    fst (am_dlq_loop rabbit_ref J ch name n skip acc s) = Inr (acc @ replicate (n - skip) m) \<and>
    rq_ready (at_remote (snd (am_dlq_loop rabbit_ref J ch name n skip acc s))) name = body # rest"
proof (induction n arbitrary: skip acc s)
  case (Suc n)
  let ?s1 = "s\<lparr>at_remote := snd (rabbit_deliver name (at_remote s))\<rparr>"
  let ?s2 = "?s1\<lparr>at_remote := rabbit_nack (rq_next_tag (at_remote s)) True (at_remote ?s1)\<rparr>"
  have ready: "rq_ready (at_remote ?s2) name = body # rest"
    using Suc.prems by (simp add: rabbit_deliver_def rabbit_nack_def Let_def)
  have "am_dlq_loop rabbit_ref J ch name (Suc n) skip acc s =
      am_dlq_loop rabbit_ref J ch name n (skip - 1) (if 0 < skip then acc else acc @ [m]) ?s2"
    using Suc.prems assms
    by (simp add: try_then_def on_amqp_def map_err_def rabbit_ref_def rabbit_deliver_def)
  with Suc.IH [OF ready, of "skip - 1" "if 0 < skip then acc else acc @ [m]"] show ?case
    by (cases skip) (simp_all add: replicate_app_Cons_same)
qed simp

text \<open>Reading the dead-letter queue through the RabbitMQ broker returns the same message over and
  over: each message is put back at the front before the next is read, so a page of any
  offset is the first message \<open>limit\<close> times, whatever else the queue holds.\<close>

lemma amqp_dlq_messages_repeats_first:
  assumes "rq_ready (at_remote s) (amqp_dlq_name q) = body # rest" and "js_message_from J body = Inr m"
    and "unat offset + unat limit < 2 ^ 64"
  shows "fst (am_dlq_messages rabbit_ref J q offset limit s) = Inr (replicate (unat limit) m)"
proof -
  have "unat (offset + limit) = unat offset + unat limit"
    using assms(3) by (simp add: unat_word_ariths)
  then show ?thesis
    using dlq_loop_repeats [OF assms(2,1), of 1 "unat (offset + limit)" "unat offset" "[]"]
    by (simp add: am_dlq_messages_def try_then_def on_amqp_def map_err_def rabbit_ref_def)
qed

lemma amqp_dlq_messages_repeats_first_example:
  "fst (am_dlq_messages rabbit_ref name_codec ''q'' 1 2
      (example_rabbit\<lparr>at_remote := rabbit_empty\<lparr>rq_ready := (\<lambda>n. [''a'', ''b'', ''c''])\<rparr>\<rparr>))
    = Inr (replicate 2 (named_message ''a''))"
  using amqp_dlq_messages_repeats_first [of
      "example_rabbit\<lparr>at_remote := rabbit_empty\<lparr>rq_ready := (\<lambda>n. [''a'', ''b'', ''c''])\<rparr>\<rparr>" "''q''"
      "''a''" "[''b'', ''c'']" name_codec "named_message ''a''" 1 2]
  by simp

end
