(* ===== verification/Kojin_Postgres.thy ===== *)
theory Kojin_Postgres
  imports Kojin_Result_Backend Kojin_Redis
begin

text \<open>
  The PostgreSQL result backend (crate \<open>kojin-postgres\<close>). The two tables are lists of rows
  and each SQL statement of the source is a function on them. The environment decides which
  statements fail: \<open>pg_faults\<close> holds the outcome of the next ones (\<open>Some e\<close> an error), and
  beyond its end statements succeed. \<open>NOW()\<close> is the time \<open>pg_now\<close>; \<open>ORDER BY task_id\<close> sorts
  by the collation of the database, the argument \<open>order_by\<close>.
\<close>

subsection \<open>Tables and statements\<close>

record 'v result_row =
  rw_task_id :: string
  rw_result :: 'v
  rw_expires_at :: "DateTime option"

record 'v group_row =
  gw_group_id :: string
  gw_task_id :: string
  gw_result :: "'v option"
  gw_completed :: bool

record 'v pg_db =
  kojin_results :: "'v result_row list"
  kojin_groups :: "'v group_row list"
  pg_now :: DateTime
  pg_faults :: "string option list"

definition pg_exec :: "('v pg_db \<Rightarrow> 'a \<times> 'v pg_db) \<Rightarrow> 'v pg_db \<Rightarrow> (string + 'a) \<times> 'v pg_db" where
  "pg_exec stmt s =
     (case pg_faults s of
        Some e # fs \<Rightarrow> (Inl e, s\<lparr>pg_faults := fs\<rparr>)
      | None # fs \<Rightarrow> (let (a, s') = stmt (s\<lparr>pg_faults := fs\<rparr>) in (Inr a, s'))
      | [] \<Rightarrow> (let (a, s') = stmt s in (Inr a, s')))"

lemma pg_exec_ok: "pg_faults s = [] \<Longrightarrow> pg_exec stmt s = (Inr (fst (stmt s)), snd (stmt s))"
  by (simp add: pg_exec_def case_prod_beta Let_def)

text \<open>\<open>INSERT ... ON CONFLICT (key) DO UPDATE\<close> / \<open>DO NOTHING\<close>.\<close>

fun upsert :: "('r \<Rightarrow> bool) \<Rightarrow> ('r \<Rightarrow> 'r) \<Rightarrow> 'r \<Rightarrow> 'r list \<Rightarrow> 'r list" where
  "upsert same upd new [] = [new]"
| "upsert same upd new (r # rs) = (if same r then upd r # rs else r # upsert same upd new rs)"

definition insert_or_ignore :: "('r \<Rightarrow> bool) \<Rightarrow> 'r \<Rightarrow> 'r list \<Rightarrow> 'r list" where
  "insert_or_ignore same new rs = upsert same (\<lambda>r. r) new rs"

subsection \<open>The backend\<close>

record PostgresResultBackend =
  pr_ttl :: Duration

definition postgres_backend_new :: PostgresResultBackend where
  "postgres_backend_new = \<lparr>pr_ttl = duration_from_secs 86400\<rparr>"

text \<open>\<open>connect\<close> opens the pool; \<open>pool_connect\<close> is \<open>PgPool::connect\<close>.\<close>

definition postgres_connect :: "(string \<Rightarrow> string + unit) \<Rightarrow> string \<Rightarrow> PostgresResultBackend TaskResult" where
  "postgres_connect pool_connect url =
     (case pool_connect url of Inl e \<Rightarrow> Inl (ResultBackend e) | Inr _ \<Rightarrow> Inr postgres_backend_new)"

definition pr_with_ttl :: "Duration \<Rightarrow> PostgresResultBackend \<Rightarrow> PostgresResultBackend" where
  "pr_with_ttl t b = b\<lparr>pr_ttl := t\<rparr>"

text \<open>\<open>migrate\<close> creates the tables if they do not exist: the rows stay as they are.\<close>

definition pr_migrate :: "'v pg_db \<Rightarrow> unit TaskResult \<times> 'v pg_db" where
  "pr_migrate =
     try_then (map_err ResultBackend (pg_exec (\<lambda>s. ((), s)))) (\<lambda>_.
       try_then (map_err ResultBackend (pg_exec (\<lambda>s. ((), s)))) (\<lambda>_.
         map_err ResultBackend (pg_exec (\<lambda>s. ((), s)))))"

text \<open>Points in time are unbounded here; a lifetime beyond the range of \<open>chrono\<close> is a panic in the source.\<close>

definition pr_store :: "(uuid \<Rightarrow> string) \<Rightarrow> PostgresResultBackend \<Rightarrow> TaskId \<Rightarrow> 'v \<Rightarrow> 'v pg_db \<Rightarrow>
    unit TaskResult \<times> 'v pg_db" where
  "pr_store uuid_fmt b i v s =
     (let expires = pg_now s + sint (of_nat (pr_ttl b div nanos_per_sec) :: 64 word) * int nanos_per_sec;
          tid = taskid_display uuid_fmt i
      in map_err ResultBackend (pg_exec (\<lambda>s.
           ((), s\<lparr>kojin_results := upsert (\<lambda>r. rw_task_id r = tid)
                    (\<lambda>r. r\<lparr>rw_result := v, rw_expires_at := Some expires\<rparr>)
                    \<lparr>rw_task_id = tid, rw_result = v, rw_expires_at = Some expires\<rparr>
                    (kojin_results s)\<rparr>))) s)"

definition row_live :: "DateTime \<Rightarrow> 'v result_row \<Rightarrow> bool" where
  "row_live now r \<longleftrightarrow> (case rw_expires_at r of None \<Rightarrow> True | Some t \<Rightarrow> t > now)"

definition pr_get :: "(uuid \<Rightarrow> string) \<Rightarrow> TaskId \<Rightarrow> 'v pg_db \<Rightarrow> 'v option TaskResult \<times> 'v pg_db" where
  "pr_get uuid_fmt i =
     map_err ResultBackend (pg_exec (\<lambda>s.
       (map_option rw_result (find (\<lambda>r. rw_task_id r = taskid_display uuid_fmt i \<and>
          row_live (pg_now s) r) (kojin_results s)), s)))"

definition pr_wait :: "(uuid \<Rightarrow> string) \<Rightarrow> (nat \<Rightarrow> Duration \<times> ('v pg_db \<Rightarrow> 'v pg_db)) \<Rightarrow> Instant \<Rightarrow>
    TaskId \<Rightarrow> Duration \<Rightarrow> 'v pg_db \<Rightarrow> ('v TaskResult \<times> 'v pg_db) option" where
  "pr_wait uuid_fmt env now i timeout s =
     wait_for (pr_get uuid_fmt i) (duration_from_millis 100) env now timeout s"

definition pr_delete :: "(uuid \<Rightarrow> string) \<Rightarrow> TaskId \<Rightarrow> 'v pg_db \<Rightarrow> unit TaskResult \<times> 'v pg_db" where
  "pr_delete uuid_fmt i =
     map_err ResultBackend (pg_exec (\<lambda>s.
       ((), s\<lparr>kojin_results :=
          filter (\<lambda>r. rw_task_id r \<noteq> taskid_display uuid_fmt i) (kojin_results s)\<rparr>)))"

definition placeholder_id :: "string \<Rightarrow> nat \<Rightarrow> string" where
  "placeholder_id g k = g @ '':placeholder:'' @ show_nat k"

definition insert_placeholder :: "string \<Rightarrow> nat \<Rightarrow> 'v pg_db \<Rightarrow> unit \<times> 'v pg_db" where
  "insert_placeholder g k s =
     ((), s\<lparr>kojin_groups :=
        insert_or_ignore (\<lambda>r. gw_group_id r = g \<and> gw_task_id r = placeholder_id g k)
          \<lparr>gw_group_id = g, gw_task_id = placeholder_id g k, gw_result = None, gw_completed = False\<rparr>
          (kojin_groups s)\<rparr>)"

fun placeholder_loop :: "string \<Rightarrow> nat list \<Rightarrow> 'v pg_db \<Rightarrow> unit TaskResult \<times> 'v pg_db" where
  "placeholder_loop g [] s = (Inr (), s)"
| "placeholder_loop g (k # ks) s =
     try_then (map_err ResultBackend (pg_exec (insert_placeholder g k)))
       (\<lambda>_. placeholder_loop g ks) s"

definition pr_init_group :: "string \<Rightarrow> u32 \<Rightarrow> 'v pg_db \<Rightarrow> unit TaskResult \<times> 'v pg_db" where
  "pr_init_group g n = placeholder_loop g [0 ..< unat n]"

text \<open>Completing a member is two statements, each atomic on its own.\<close>

definition upsert_member :: "string \<Rightarrow> string \<Rightarrow> 'v \<Rightarrow> 'v pg_db \<Rightarrow> unit \<times> 'v pg_db" where
  "upsert_member g tid v s =
     ((), s\<lparr>kojin_groups := upsert (\<lambda>r. gw_group_id r = g \<and> gw_task_id r = tid)
              (\<lambda>r. r\<lparr>gw_result := Some v, gw_completed := True\<rparr>)
              \<lparr>gw_group_id = g, gw_task_id = tid, gw_result = Some v, gw_completed = True\<rparr>
              (kojin_groups s)\<rparr>)"

definition completed_rows :: "string \<Rightarrow> 'v group_row list \<Rightarrow> 'v group_row list" where
  "completed_rows g rs = filter (\<lambda>r. gw_group_id r = g \<and> gw_completed r \<and> gw_result r \<noteq> None) rs"

definition count_members :: "string \<Rightarrow> 'v pg_db \<Rightarrow> u32 \<times> 'v pg_db" where
  "count_members g s = (of_nat (length (completed_rows g (kojin_groups s))), s)"

definition pr_complete_group_member :: "(uuid \<Rightarrow> string) \<Rightarrow> string \<Rightarrow> TaskId \<Rightarrow> 'v \<Rightarrow> 'v pg_db \<Rightarrow>
    u32 TaskResult \<times> 'v pg_db" where
  "pr_complete_group_member uuid_fmt g i v =
     try_then (map_err ResultBackend (pg_exec (upsert_member g (taskid_display uuid_fmt i) v)))
       (\<lambda>_. map_err ResultBackend (pg_exec (count_members g)))"

definition pr_get_group_results :: "('v group_row list \<Rightarrow> 'v group_row list) \<Rightarrow> string \<Rightarrow> 'v pg_db \<Rightarrow>
    'v list TaskResult \<times> 'v pg_db" where
  "pr_get_group_results order_by g =
     map_err ResultBackend (pg_exec (\<lambda>s.
       (List.map_filter gw_result (order_by (completed_rows g (kojin_groups s))), s)))"

definition postgres_result_backend :: "(uuid \<Rightarrow> string) \<Rightarrow> ('v group_row list \<Rightarrow> 'v group_row list) \<Rightarrow>
    PostgresResultBackend \<Rightarrow> ('v pg_db, 'v) ResultBackend" where
  "postgres_result_backend uuid_fmt order_by b =
     \<lparr>r_store = pr_store uuid_fmt b, r_get = pr_get uuid_fmt, r_delete = pr_delete uuid_fmt,
      r_init_group = pr_init_group, r_complete_group_member = pr_complete_group_member uuid_fmt,
      r_get_group_results = pr_get_group_results order_by\<rparr>"

subsection \<open>Groups\<close>

definition key_unique :: "'v group_row list \<Rightarrow> bool" where
  "key_unique rs \<longleftrightarrow> distinct (map (\<lambda>r. (gw_group_id r, gw_task_id r)) rs)"

abbreviation row_entry :: "'v group_row \<Rightarrow> string \<times> 'v option" where
  "row_entry r \<equiv> (gw_task_id r, gw_result r)"

definition pr_grp :: "(uuid \<Rightarrow> string) \<Rightarrow> string \<Rightarrow> (TaskId \<times> 'v) list \<Rightarrow> 'v pg_db \<Rightarrow> bool" where
  "pr_grp uuid_fmt g xs s \<longleftrightarrow>
     pg_faults s = [] \<and> key_unique (kojin_groups s) \<and>
     mset (map row_entry (completed_rows g (kojin_groups s)))
       = mset (map (\<lambda>(i, v). (taskid_display uuid_fmt i, Some v)) xs)"

definition pr_fresh :: "string \<Rightarrow> 'v pg_db \<Rightarrow> bool" where
  "pr_fresh g s \<longleftrightarrow> pg_faults s = [] \<and> key_unique (kojin_groups s) \<and>
     completed_rows g (kojin_groups s) = []"

lemma upsert_keys:
  assumes "\<And>r. same r \<Longrightarrow> key (upd r) = key r" and "\<And>r. same r \<longleftrightarrow> key r = key new"
  shows "distinct (map key rs) \<Longrightarrow> distinct (map key (upsert same upd new rs)) \<and>
    key ` set (upsert same upd new rs) = insert (key new) (key ` set rs)"
proof (induction rs)
  case (Cons r rs)
  then show ?case by (cases "same r") (auto simp: assms)
qed simp

lemma key_unique_upsert_member:
  "key_unique (kojin_groups s) \<Longrightarrow> key_unique (kojin_groups (snd (upsert_member g t v s)))"
  unfolding key_unique_def upsert_member_def
  by (simp, rule conjunct1 [OF upsert_keys]) auto


lemma completed_upsert:
  assumes "t \<notin> gw_task_id ` set (completed_rows g (kojin_groups s))"
  shows "mset (map row_entry (completed_rows g (kojin_groups (snd (upsert_member g t v s)))))
     = add_mset (t, Some v) (mset (map row_entry (completed_rows g (kojin_groups s))))"
proof -
  have "mset (map row_entry (completed_rows g
        (upsert (\<lambda>r. gw_group_id r = g \<and> gw_task_id r = t)
          (\<lambda>r. r\<lparr>gw_result := Some v, gw_completed := True\<rparr>)
          \<lparr>gw_group_id = g, gw_task_id = t, gw_result = Some v, gw_completed = True\<rparr> rs)))
     = add_mset (t, Some v) (mset (map row_entry (completed_rows g rs)))"
    if "t \<notin> gw_task_id ` set (completed_rows g rs)" for rs
    using that by (induction rs) (auto simp: completed_rows_def)
  from this [OF assms] show ?thesis by (simp add: upsert_member_def)
qed

lemma insert_placeholder_rows:
  "completed_rows h (kojin_groups (snd (insert_placeholder g k s))) = completed_rows h (kojin_groups s)"
  "key_unique (kojin_groups s) \<Longrightarrow> key_unique (kojin_groups (snd (insert_placeholder g k s)))"
  "pg_faults (snd (insert_placeholder g k s)) = pg_faults s"
proof -
  have "completed_rows h (upsert same (\<lambda>r. r) \<lparr>gw_group_id = g, gw_task_id = t, gw_result = None,
      gw_completed = False\<rparr> rs) = completed_rows h rs" for same t and rs :: "'a group_row list"
    by (induction rs) (auto simp: completed_rows_def)
  then show "completed_rows h (kojin_groups (snd (insert_placeholder g k s))) =
      completed_rows h (kojin_groups s)"
    by (simp add: insert_placeholder_def insert_or_ignore_def)
  show "key_unique (kojin_groups s) \<Longrightarrow> key_unique (kojin_groups (snd (insert_placeholder g k s)))"
    unfolding key_unique_def insert_placeholder_def insert_or_ignore_def
    by (simp, rule conjunct1 [OF upsert_keys]) auto
  show "pg_faults (snd (insert_placeholder g k s)) = pg_faults s"
    by (simp add: insert_placeholder_def)
qed

lemma placeholder_loop_rows:
  "pg_faults s = [] \<Longrightarrow> key_unique (kojin_groups s) \<Longrightarrow>
   fst (placeholder_loop g ks s) = Inr () \<and> pg_faults (snd (placeholder_loop g ks s)) = [] \<and>
   key_unique (kojin_groups (snd (placeholder_loop g ks s))) \<and>
   completed_rows h (kojin_groups (snd (placeholder_loop g ks s))) = completed_rows h (kojin_groups s)"
proof (induction ks arbitrary: s)
  case (Cons k ks)
  have "placeholder_loop g (k # ks) s = placeholder_loop g ks (snd (insert_placeholder g k s))"
    using Cons.prems by (simp add: call_simps pg_exec_ok)
  with Cons.IH [of "snd (insert_placeholder g k s)"] Cons.prems show ?case
    by (simp add: insert_placeholder_rows)
qed simp

text \<open>
  What the backend relies on: UUIDs print injectively and \<open>ORDER BY\<close> permutes the rows.
\<close>

locale postgres_groups =
  fixes uuid_fmt :: "uuid \<Rightarrow> string" and order_by :: "'v group_row list \<Rightarrow> 'v group_row list"
  assumes uuid_inj: "uuid_fmt a = uuid_fmt b \<Longrightarrow> a = b"
    and order_by_perm: "mset (order_by rs) = mset rs"
begin

lemma display_inject: "taskid_display uuid_fmt i = taskid_display uuid_fmt j \<longleftrightarrow> i = j"
  by (cases i; cases j) (auto simp: taskid_display_def dest: uuid_inj)

lemma new_member:
  assumes "pr_grp uuid_fmt g xs s" and "i \<notin> fst ` set xs"
  shows "taskid_display uuid_fmt i \<notin> gw_task_id ` set (completed_rows g (kojin_groups s))"
proof
  assume "taskid_display uuid_fmt i \<in> gw_task_id ` set (completed_rows g (kojin_groups s))"
  then have "taskid_display uuid_fmt i \<in>
      fst ` set_mset (mset (map row_entry (completed_rows g (kojin_groups s))))" by force
  with assms(1) have "taskid_display uuid_fmt i \<in>
      fst ` (\<lambda>(i, v). (taskid_display uuid_fmt i, Some v)) ` set xs" by (simp add: pr_grp_def)
  with assms(2) show False by (force simp: display_inject)
qed

lemma upsert_member_grp:
  assumes "pr_grp uuid_fmt g xs s" and "i \<notin> fst ` set xs"
  shows "pr_grp uuid_fmt g (xs @ [(i, v)]) (snd (upsert_member g (taskid_display uuid_fmt i) v s))"
proof -
  let ?t = "taskid_display uuid_fmt i"
  have "key_unique (kojin_groups (snd (upsert_member g ?t v s)))"
    using assms(1) by (simp add: pr_grp_def key_unique_upsert_member)
  moreover have "pg_faults (snd (upsert_member g ?t v s)) = []"
    using assms(1) by (simp add: pr_grp_def upsert_member_def)
  ultimately show ?thesis
    using assms(1) completed_upsert [OF new_member [OF assms], of v] by (simp add: pr_grp_def)
qed

lemma count_members_grp:
  assumes "pr_grp uuid_fmt g xs s"
  shows "fst (count_members g s) = of_nat (length xs)"
proof -
  from assms have "size (mset (map row_entry (completed_rows g (kojin_groups s))))
      = size (mset (map (\<lambda>(i, v). (taskid_display uuid_fmt i, Some v)) xs))"
    by (simp only: pr_grp_def)
  then show ?thesis by (simp add: count_members_def)
qed

lemma results_perm:
  assumes "pr_grp uuid_fmt g xs s"
  shows "mset (List.map_filter gw_result (order_by (completed_rows g (kojin_groups s))))
     = image_mset snd (mset xs)"
proof -
  have filter: "image_mset Some (mset (List.map_filter gw_result rs)) = image_mset gw_result (mset rs)"
    if "\<forall>r\<in>set rs. gw_result r \<noteq> None" for rs :: "'v group_row list"
    using that by (induction rs) (auto simp: map_filter_simps split: option.splits)
  let ?rs = "completed_rows g (kojin_groups s)"
  have "\<forall>r\<in>set (order_by ?rs). gw_result r \<noteq> None"
    using mset_eq_setD [OF order_by_perm [of ?rs]] by (auto simp: completed_rows_def)
  from filter [OF this] have "image_mset Some (mset (List.map_filter gw_result (order_by ?rs)))
      = image_mset snd (mset (map row_entry ?rs))"
    by (simp add: order_by_perm image_mset.compositionality comp_def)
  also have "\<dots> = image_mset Some (image_mset snd (mset xs))"
    using assms by (simp add: pr_grp_def image_mset.compositionality comp_def case_prod_beta)
  finally have "image_mset the (image_mset Some (mset (List.map_filter gw_result (order_by ?rs))))
      = image_mset the (image_mset Some (image_mset snd (mset xs)))" by simp
  then show ?thesis by (simp add: image_mset.compositionality comp_def)
qed

end

sublocale postgres_groups \<subseteq> groups: group_store pr_init_group "pr_complete_group_member uuid_fmt"
    "pr_get_group_results order_by" pr_fresh "pr_grp uuid_fmt"
proof unfold_locales
  fix g n and s :: "'v pg_db"
  assume "pr_fresh g s"
  then show "fst (pr_init_group g n s) = Inr ()"
    and "pr_grp uuid_fmt g [] (snd (pr_init_group g n s))"
    using placeholder_loop_rows [of s g "[0..<unat n]" g]
    by (simp_all add: pr_init_group_def pr_fresh_def pr_grp_def)
next
  fix g xs i v and s :: "'v pg_db"
  assume grp: "pr_grp uuid_fmt g xs s" "i \<notin> fst ` set xs"
  let ?s = "snd (upsert_member g (taskid_display uuid_fmt i) v s)"
  have s: "pr_grp uuid_fmt g (xs @ [(i, v)]) ?s" by (rule upsert_member_grp [OF grp])
  have "pg_faults s = []" "pg_faults ?s = []" using grp(1) s by (simp_all add: pr_grp_def)
  then have eq: "pr_complete_group_member uuid_fmt g i v s = (Inr (fst (count_members g ?s)), ?s)"
    by (simp add: pr_complete_group_member_def call_simps pg_exec_ok count_members_def)
  show "fst (pr_complete_group_member uuid_fmt g i v s) = Inr (of_nat (Suc (length xs)))"
    using count_members_grp [OF s] by (simp add: eq)
  show "pr_grp uuid_fmt g (xs @ [(i, v)]) (snd (pr_complete_group_member uuid_fmt g i v s))"
    using s by (simp add: eq)
next
  fix g xs and s :: "'v pg_db"
  assume grp: "pr_grp uuid_fmt g xs s"
  then have "pg_faults s = []" by (simp add: pr_grp_def)
  with results_perm [OF grp] show
    "\<exists>vs. fst (pr_get_group_results order_by g s) = Inr vs \<and> mset vs = image_mset snd (mset xs)"
    by (simp add: pr_get_group_results_def call_simps pg_exec_ok)
qed

context postgres_groups
begin

lemma postgres_last_member:
  assumes "pr_fresh g s" and "distinct (map fst ys)" and "length ys = n" and "0 < n" and "n < 2 ^ 32"
  defines "out \<equiv> complete_all (pr_complete_group_member uuid_fmt) g ys (snd (pr_init_group g (of_nat n) s))"
  shows "[k \<leftarrow> [0..<n]. fst out ! k = Inr (of_nat n)] = [n - 1] \<and>
    (\<exists>vs. fst (pr_get_group_results order_by g (snd out)) = Inr vs \<and> mset vs = mset (map snd ys))"
  using groups.last_member_completes [OF assms(1-5)] by (simp add: out_def)

text \<open>Two members that complete at the same time: both insert before either counts.\<close>

lemma postgres_concurrent_members:
  fixes v w :: 'v
  assumes "pr_grp uuid_fmt g xs s" and "i \<notin> fst ` set xs" and "j \<notin> fst ` set xs" and "i \<noteq> j"
  defines "s' \<equiv> snd (upsert_member g (taskid_display uuid_fmt j) w
                  (snd (upsert_member g (taskid_display uuid_fmt i) v s)))"
  shows "fst (count_members g s') = of_nat (length xs + 2)"
proof -
  have "pr_grp uuid_fmt g ((xs @ [(i, v)]) @ [(j, w)]) s'"
    unfolding s'_def using assms(1-4) by (intro upsert_member_grp) auto
  from count_members_grp [OF this] show ?thesis by simp
qed

end

interpretation postgres_hex: postgres_groups "\<lambda>u. to_hex (unat u)" "\<lambda>rs. rs"
  by unfold_locales (auto simp: to_hex_inject dest: unsigned_word_eqI)

subsection \<open>Properties\<close>

definition pg_empty :: "'v pg_db" where
  "pg_empty = \<lparr>kojin_results = [], kojin_groups = [], pg_now = 0, pg_faults = []\<rparr>"

text \<open>C32: when the members of a PostgreSQL group complete one after the other, exactly the last of them
  is told the total, and it then reads the results of all members. UUIDs print injectively
  and \<open>ORDER BY\<close> permutes the rows (\<open>postgres_groups\<close>).\<close>

theorem postgres_group_last_member:
  assumes "postgres_groups uuid_fmt order_by" and "pr_fresh g s" and "distinct (map fst ys)"
    and "length ys = n" and "0 < n" and "n < 2 ^ 32"
    and "complete_all (pr_complete_group_member uuid_fmt) g ys (snd (pr_init_group g (of_nat n) s)) = (rs, s')"
  shows "[k \<leftarrow> [0..<n]. rs ! k = Inr (of_nat n)] = [n - 1] \<and>
    (\<exists>vs. fst (pr_get_group_results order_by g s') = Inr vs \<and> mset vs = mset (map snd ys))"
  using postgres_groups.postgres_last_member [OF assms(1-6)] assms(7) by simp

theorem postgres_group_last_member_witness:
  "\<exists>rs s'. complete_all (pr_complete_group_member (\<lambda>u. to_hex (unat u))) ''g''
       [(TaskId 1, ''x''), (TaskId 2, ''y'')] (snd (pr_init_group ''g'' 2 pg_empty)) = (rs, s') \<and>
     [k \<leftarrow> [0..<2]. rs ! k = Inr 2] = [1]"
proof -
  let ?ys = "[(TaskId 1, ''x''), (TaskId 2, ''y'')]"
  obtain rs s' where run: "complete_all (pr_complete_group_member (\<lambda>u. to_hex (unat u))) ''g'' ?ys
      (snd (pr_init_group ''g'' (of_nat 2) pg_empty)) = (rs, s')" by fastforce
  have "pr_fresh ''g'' (pg_empty :: string pg_db)"
    by (simp add: pr_fresh_def pg_empty_def key_unique_def completed_rows_def)
  from postgres_group_last_member [OF postgres_hex.postgres_groups_axioms this _ _ _ _ run]
  have "[k \<leftarrow> [0..<2]. rs ! k = Inr (of_nat 2)] = [2 - 1]" by simp
  then show ?thesis using run by auto
qed



end
