(* ===== verification/Kojin_Agent.thy ===== *)
theory Kojin_Agent
  imports Kojin_Registry
begin

text \<open>
  The \<open>kojin-agent\<close> crate: invocations of an agent process (\<open>runner.rs\<close>), a runner with a
  concurrency limit (\<open>concurrency.rs\<close>), and the two task types that use a runner
  (\<open>task.rs\<close>, \<open>helpers.rs\<close>, \<open>sdd.rs\<close>).

  What a process does is a parameter: running a command takes the state \<open>'x\<close> of the outside
  world (the file system the processes share) to the next one and yields the process output
  or the text of an I/O error. The type \<open>'f\<close> stands for \<open>f64\<close>. Decoding bytes lossily and
  parsing the JSON report are parameters as well.
\<close>

subsection \<open>Runners (runner.rs)\<close>

record 'f RunArgs =
  ra_model :: "string option"
  ra_system_prompt :: "string option"
  ra_max_turns :: "u32 option"
  ra_max_budget_usd :: "'f option"
  ra_allowed_tools :: "string list option"
  ra_cwd :: "string option"

definition run_args_default :: "'f RunArgs" where
  "run_args_default =
     \<lparr>ra_model = None, ra_system_prompt = None, ra_max_turns = None, ra_max_budget_usd = None,
      ra_allowed_tools = None, ra_cwd = None\<rparr>"

definition ra_with_model :: "string \<Rightarrow> 'f RunArgs \<Rightarrow> 'f RunArgs" where
  "ra_with_model model a = a\<lparr>ra_model := Some model\<rparr>"

definition ra_with_system_prompt :: "string \<Rightarrow> 'f RunArgs \<Rightarrow> 'f RunArgs" where
  "ra_with_system_prompt prompt a = a\<lparr>ra_system_prompt := Some prompt\<rparr>"

definition ra_with_max_turns :: "u32 \<Rightarrow> 'f RunArgs \<Rightarrow> 'f RunArgs" where
  "ra_with_max_turns n a = a\<lparr>ra_max_turns := Some n\<rparr>"

definition ra_with_max_budget_usd :: "'f \<Rightarrow> 'f RunArgs \<Rightarrow> 'f RunArgs" where
  "ra_with_max_budget_usd budget a = a\<lparr>ra_max_budget_usd := Some budget\<rparr>"

definition ra_with_allowed_tools :: "string list \<Rightarrow> 'f RunArgs \<Rightarrow> 'f RunArgs" where
  "ra_with_allowed_tools tools a = a\<lparr>ra_allowed_tools := Some tools\<rparr>"

definition ra_with_cwd :: "string \<Rightarrow> 'f RunArgs \<Rightarrow> 'f RunArgs" where
  "ra_with_cwd cwd a = a\<lparr>ra_cwd := Some cwd\<rparr>"

record 'f RunOutput =
  ro_result :: string
  ro_session_id :: "string option"
  ro_cost_usd :: "'f option"
  ro_duration_ms :: "u64 option"
  ro_num_turns :: "u32 option"

record 'f RawOutput =
  raw_result :: "string option"
  raw_session_id :: "string option"
  raw_cost_usd :: "'f option"
  raw_duration_ms :: "u64 option"
  raw_num_turns :: "u32 option"

text \<open>A trait object \<open>dyn ClaudeRunner\<close> is its \<open>run\<close> method.\<close>

type_synonym ('f, 'x) ClaudeRunner = "string \<Rightarrow> 'f RunArgs \<Rightarrow> 'x \<Rightarrow> 'f RunOutput TaskResult \<times> 'x"

record command =
  cmd_program :: string
  cmd_args :: "string list"
  cmd_dir :: "string option"

definition command_new :: "string \<Rightarrow> command" where
  "command_new program = \<lparr>cmd_program = program, cmd_args = [], cmd_dir = None\<rparr>"

definition cmd_arg :: "string \<Rightarrow> command \<Rightarrow> command" where
  "cmd_arg a c = c\<lparr>cmd_args := cmd_args c @ [a]\<rparr>"

record process_output =
  po_success :: bool
  po_status :: string
  po_stdout :: "u8 list"
  po_stderr :: "u8 list"

record ('f, 'x) process_api =
  os_output :: "command \<Rightarrow> 'x \<Rightarrow> (string + process_output) \<times> 'x"
  utf8_lossy :: "u8 list \<Rightarrow> string"
  raw_from_slice :: "u8 list \<Rightarrow> string + 'f RawOutput"
  show_f64 :: "'f \<Rightarrow> string"

record ProcessRunner =
  claude_bin :: "string option"

definition process_runner_new :: ProcessRunner where
  "process_runner_new = \<lparr>claude_bin = None\<rparr>"

definition process_runner_with_bin :: "string \<Rightarrow> ProcessRunner" where
  "process_runner_with_bin b = \<lparr>claude_bin = Some b\<rparr>"

definition runner_bin :: "ProcessRunner \<Rightarrow> string" where
  "runner_bin r = (case claude_bin r of None \<Rightarrow> ''claude'' | Some b \<Rightarrow> b)"

definition opt_arg :: "string \<Rightarrow> ('a \<Rightarrow> string) \<Rightarrow> 'a option \<Rightarrow> command \<Rightarrow> command" where
  "opt_arg flag show v c = (case v of None \<Rightarrow> c | Some a \<Rightarrow> cmd_arg (show a) (cmd_arg flag c))"

definition claude_command :: "('f \<Rightarrow> string) \<Rightarrow> ProcessRunner \<Rightarrow> string \<Rightarrow> 'f RunArgs \<Rightarrow> command" where
  "claude_command show r prompt args =
     (let c0 = command_new (runner_bin r);
          c1 = fold cmd_arg [''--bare'', ''-p'', prompt, ''--output-format'', ''json'',
                 ''--no-session-persistence''] c0;
          c2 = opt_arg ''--model'' id (ra_model args) c1;
          c3 = opt_arg ''--append-system-prompt'' id (ra_system_prompt args) c2;
          c4 = opt_arg ''--max-turns'' (\<lambda>n. show_nat (unat n)) (ra_max_turns args) c3;
          c5 = opt_arg ''--max-budget-usd'' show (ra_max_budget_usd args) c4;
          c6 = opt_arg ''--allowedTools'' (str_join '','') (ra_allowed_tools args) c5
      in case ra_cwd args of None \<Rightarrow> c6 | Some d \<Rightarrow> c6\<lparr>cmd_dir := Some d\<rparr>)"

definition exit_error :: "('f, 'x) process_api \<Rightarrow> process_output \<Rightarrow> KojinError" where
  "exit_error A out =
     (let err = utf8_lossy A (po_stderr out); std = utf8_lossy A (po_stdout out)
      in TaskFailed (''claude exited with '' @ po_status out @ '': '' @ trim err
           @ (if err = [] then std else [])))"

definition process_run :: "('f, 'x) process_api \<Rightarrow> ProcessRunner \<Rightarrow> ('f, 'x) ClaudeRunner" where
  "process_run A r prompt args x =
     (case os_output A (claude_command (show_f64 A) r prompt args) x of
        (Inl e, x') \<Rightarrow> (Inl (Broker (''failed to spawn claude process: '' @ e)), x')
      | (Inr out, x') \<Rightarrow>
          (if \<not> po_success out then (Inl (exit_error A out), x')
           else
             (case raw_from_slice A (po_stdout out) of
                Inl e \<Rightarrow>
                  (Inl (TaskFailed (''failed to parse claude JSON output: '' @ e @ [CHR 0x0A]
                     @ ''stdout: '' @ utf8_lossy A (po_stdout out))), x')
              | Inr raw \<Rightarrow>
                  (Inr \<lparr>ro_result = (case raw_result raw of None \<Rightarrow> [] | Some t \<Rightarrow> t),
                        ro_session_id = raw_session_id raw, ro_cost_usd = raw_cost_usd raw,
                        ro_duration_ms = raw_duration_ms raw, ro_num_turns = raw_num_turns raw\<rparr>, x'))))"

subsection \<open>A runner with a concurrency limit (concurrency.rs)\<close>

text \<open>
  One call with nobody else around. The semaphore is never closed by the crate; the branch
  exists for a semaphore closed from elsewhere.
\<close>

record ('f, 'x) SemaphoreRunner =
  sr_inner :: "('f, 'x) ClaudeRunner"
  sr_max_concurrent :: nat

definition semaphore_runner_new :: "('f, 'x) ClaudeRunner \<Rightarrow> nat \<Rightarrow> ('f, 'x) SemaphoreRunner" where
  "semaphore_runner_new inner n = \<lparr>sr_inner = inner, sr_max_concurrent = n\<rparr>"

definition semaphore_run :: "bool \<Rightarrow> ('f, 'x) SemaphoreRunner \<Rightarrow> ('f, 'x) ClaudeRunner" where
  "semaphore_run closed r prompt args x =
     (if closed then (Inl (Other ''concurrency semaphore closed''), x)
      else sr_inner r prompt args x)"

text \<open>
  Many calls. A call waits for a permit (tokio's semaphore serves the waiters in the order in
  which they came), then holds it while the inner runner works, and gives it back when that
  ends or the call is dropped; a waiting call may be dropped too.
\<close>

record 'c sem_state =
  sem_available :: nat
  sem_waiting :: "'c list"
  sem_inside :: "'c list"

datatype 'c sem_event = Arrive 'c | Grant | Leave nat | GiveUp nat

definition sem_new :: "('f, 'x) SemaphoreRunner \<Rightarrow> 'c sem_state" where
  "sem_new r = \<lparr>sem_available = sr_max_concurrent r, sem_waiting = [], sem_inside = []\<rparr>"

fun sem_step :: "'c sem_event \<Rightarrow> 'c sem_state \<Rightarrow> 'c sem_state option" where
  "sem_step (Arrive c) s = Some (s\<lparr>sem_waiting := sem_waiting s @ [c]\<rparr>)"
| "sem_step Grant s =
     (case sem_waiting s of
        [] \<Rightarrow> None
      | c # cs \<Rightarrow>
          if 0 < sem_available s then
            Some (s\<lparr>sem_available := sem_available s - 1, sem_waiting := cs,
                    sem_inside := sem_inside s @ [c]\<rparr>)
          else None)"
| "sem_step (Leave k) s =
     (if k < length (sem_inside s) then
        Some (s\<lparr>sem_available := Suc (sem_available s), sem_inside := remove_nth k (sem_inside s)\<rparr>)
      else None)"
| "sem_step (GiveUp k) s =
     (if k < length (sem_waiting s) then Some (s\<lparr>sem_waiting := remove_nth k (sem_waiting s)\<rparr>)
      else None)"

definition available_permits :: "'c sem_state \<Rightarrow> nat" where
  "available_permits s = sem_available s"

inductive sem_reachable :: "('f, 'x) SemaphoreRunner \<Rightarrow> 'c sem_state \<Rightarrow> bool" for r where
  start: "sem_reachable r (sem_new r)"
| step: "sem_reachable r s \<Longrightarrow> sem_step ev s = Some s' \<Longrightarrow> sem_reachable r s'"

lemma sem_step_permits:
  assumes "sem_step ev s = Some s'"
  shows "sem_available s' + length (sem_inside s') = sem_available s + length (sem_inside s)"
  using assms by (cases ev) (auto simp: remove_nth_def split: if_splits list.splits)

lemma sem_reachable_permits:
  "sem_reachable r s \<Longrightarrow> sem_available s + length (sem_inside s) = sr_max_concurrent r"
  by (induction rule: sem_reachable.induct) (simp_all add: sem_new_def sem_step_permits)

subsection \<open>Agent tasks (task.rs, helpers.rs)\<close>

text \<open>
  The runner is looked up in the context under the identifier \<open>rt\<close> of the type
  \<open>Arc<dyn ClaudeRunner>\<close>; a value boxed under it is a runner (\<open>as_runner\<close>).
\<close>

definition no_runner :: KojinError where
  "no_runner = Other (''ClaudeRunner not configured '' @ [CHR 0xE2, CHR 0x80, CHR 0x94]
     @ '' add Arc<dyn ClaudeRunner> via KojinBuilder::data()'')"

record 'f ClaudeCodeTask =
  cc_prompt :: string
  cc_args :: "'f RunArgs"

definition claude_task_new :: "string \<Rightarrow> 'f ClaudeCodeTask" where
  "claude_task_new p = \<lparr>cc_prompt = p, cc_args = run_args_default\<rparr>"

definition claude_task_with_args :: "string \<Rightarrow> 'f RunArgs \<Rightarrow> 'f ClaudeCodeTask" where
  "claude_task_with_args p a = \<lparr>cc_prompt = p, cc_args = a\<rparr>"

definition claude_task_run :: "'k \<Rightarrow> ('a \<Rightarrow> ('f, 'x) ClaudeRunner) \<Rightarrow> 'f ClaudeCodeTask \<Rightarrow>
    ('k, 'a) TaskContext \<Rightarrow> 'x \<Rightarrow> 'f RunOutput TaskResult \<times> 'x" where
  "claude_task_run rt as_runner t ctx x =
     (case context_data rt ctx of
        None \<Rightarrow> (Inl no_runner, x)
      | Some a \<Rightarrow> as_runner a (cc_prompt t) (cc_args t) x)"

text \<open>What serde derives for the task and for its output are parameters.\<close>

definition claude_code_task :: "'k \<Rightarrow> ('a \<Rightarrow> ('f, 'x) ClaudeRunner) \<Rightarrow> ('v \<Rightarrow> string + 'f ClaudeCodeTask) \<Rightarrow>
    ('f ClaudeCodeTask \<Rightarrow> string + 'v) \<Rightarrow> ('f RunOutput \<Rightarrow> string + 'v) \<Rightarrow>
    ('f ClaudeCodeTask, 'f RunOutput, 'v, ('k, 'a) TaskContext, 'x) Task" where
  "claude_code_task rt as_runner from to out =
     \<lparr>t_NAME = ''claude_code'', t_QUEUE = ''agents'', t_MAX_RETRIES = 1,
      t_backoff = task_default_backoff, t_run = claude_task_run rt as_runner,
      t_from_value = from, t_to_value = to, t_output_to_value = out\<rparr>"

definition claude_sig :: "('f ClaudeCodeTask, 'f RunOutput, 'v, ('k, 'a) TaskContext, 'x) Task \<Rightarrow> string \<Rightarrow>
    'f RunArgs \<Rightarrow> 'v Signature option" where
  "claude_sig T p args = task_signature T (claude_task_with_args p args)"

subsection \<open>Generate, test, fix (sdd.rs)\<close>

record 'f SddTask =
  sdd_spec :: string
  sdd_test_command :: "string list"
  sdd_cwd :: "string option"
  sdd_max_fix_attempts :: u32
  sdd_args :: "'f RunArgs"

definition sdd_task_new :: "string \<Rightarrow> 'f SddTask" where
  "sdd_task_new spec =
     \<lparr>sdd_spec = spec, sdd_test_command = [''cargo'', ''test''], sdd_cwd = None,
      sdd_max_fix_attempts = 3, sdd_args = run_args_default\<rparr>"

definition sdd_with_test_command :: "string list \<Rightarrow> 'f SddTask \<Rightarrow> 'f SddTask" where
  "sdd_with_test_command c t = t\<lparr>sdd_test_command := c\<rparr>"

definition sdd_with_cwd :: "string \<Rightarrow> 'f SddTask \<Rightarrow> 'f SddTask" where
  "sdd_with_cwd d t = t\<lparr>sdd_cwd := Some d\<rparr>"

definition sdd_with_max_fix_attempts :: "u32 \<Rightarrow> 'f SddTask \<Rightarrow> 'f SddTask" where
  "sdd_with_max_fix_attempts n t = t\<lparr>sdd_max_fix_attempts := n\<rparr>"

definition sdd_with_args :: "'f RunArgs \<Rightarrow> 'f SddTask \<Rightarrow> 'f SddTask" where
  "sdd_with_args a t = t\<lparr>sdd_args := a\<rparr>"

record 'f SddOutput =
  so_passed :: bool
  so_attempts :: u32
  so_gen_output :: "'f RunOutput"
  so_fix_outputs :: "'f RunOutput list"
  so_last_test_stdout :: string
  so_last_test_stderr :: string

definition run_test_command :: "('f, 'x) process_api \<Rightarrow> string list \<Rightarrow> string option \<Rightarrow> 'x \<Rightarrow>
    process_output TaskResult \<times> 'x" where
  "run_test_command A c cwd x =
     (case c of
        [] \<Rightarrow> (Inl (Other ''test_command is empty''), x)
      | program # args \<Rightarrow>
          (case os_output A ((fold cmd_arg args (command_new program))\<lparr>cmd_dir := cwd\<rparr>) x of
             (Inl e, x') \<Rightarrow> (Inl (Broker (''failed to run test command: '' @ e)), x')
           | (Inr out, x') \<Rightarrow> (Inr out, x')))"

definition gen_prompt :: "'f SddTask \<Rightarrow> string" where
  "gen_prompt t =
     (let nl = [CHR 0x0A]
      in ''Implement the following specification. Write the code directly to files.'' @ nl @ nl
         @ ''## Specification'' @ nl @ nl @ sdd_spec t @ nl @ nl
         @ ''## Verification'' @ nl @ nl
         @ ''The code will be verified by running: `'' @ str_join '' '' (sdd_test_command t) @ ''`'')"

definition fix_prompt :: "'f SddTask \<Rightarrow> string \<Rightarrow> string \<Rightarrow> string" where
  "fix_prompt t std err =
     (let nl = [CHR 0x0A]
      in ''The verification command `'' @ str_join '' '' (sdd_test_command t) @ ''` failed. Fix the code.''
         @ nl @ nl @ ''## Test Output'' @ nl @ nl
         @ ''### stdout'' @ nl @ ''```'' @ nl @ take_chars 4000 std @ nl @ ''```'' @ nl @ nl
         @ ''### stderr'' @ nl @ ''```'' @ nl @ take_chars 4000 err @ nl @ ''```'' @ nl @ nl
         @ ''## Original Specification'' @ nl @ nl @ sdd_spec t)"

text \<open>
  The loop \<open>for attempt in 0..=max_fix_attempts\<close>: \<open>left\<close> is the number of iterations after this
  one. \<open>attempt + 1\<close> wraps in a release build.
\<close>

fun sdd_loop :: "('f, 'x) process_api \<Rightarrow> ('f, 'x) ClaudeRunner \<Rightarrow> 'f SddTask \<Rightarrow> 'f RunArgs \<Rightarrow>
    'f RunOutput \<Rightarrow> nat \<Rightarrow> u32 \<Rightarrow> 'f RunOutput list \<Rightarrow> 'x \<Rightarrow> 'f SddOutput TaskResult \<times> 'x" where
  "sdd_loop A run t args gen_out left attempt fixes x =
     (case run_test_command A (sdd_test_command t) (sdd_cwd t) x of
        (Inl e, x1) \<Rightarrow> (Inl e, x1)
      | (Inr r, x1) \<Rightarrow>
          (let std = utf8_lossy A (po_stdout r); err = utf8_lossy A (po_stderr r)
           in if po_success r then
                (Inr \<lparr>so_passed = True, so_attempts = attempt + 1, so_gen_output = gen_out,
                      so_fix_outputs = fixes, so_last_test_stdout = std, so_last_test_stderr = err\<rparr>, x1)
              else
                (case left of
                   0 \<Rightarrow>
                     (Inr \<lparr>so_passed = False, so_attempts = sdd_max_fix_attempts t + 1,
                           so_gen_output = gen_out, so_fix_outputs = fixes,
                           so_last_test_stdout = std, so_last_test_stderr = err\<rparr>, x1)
                 | Suc k \<Rightarrow>
                     (case run (fix_prompt t std err) args x1 of
                        (Inl e, x2) \<Rightarrow> (Inl e, x2)
                      | (Inr out, x2) \<Rightarrow>
                          sdd_loop A run t args gen_out k (attempt + 1) (fixes @ [out]) x2))))"

declare sdd_loop.simps [simp del]

definition sdd_run :: "('f, 'x) process_api \<Rightarrow> 'k \<Rightarrow> ('a \<Rightarrow> ('f, 'x) ClaudeRunner) \<Rightarrow> 'f SddTask \<Rightarrow>
    ('k, 'a) TaskContext \<Rightarrow> 'x \<Rightarrow> 'f SddOutput TaskResult \<times> 'x" where
  "sdd_run A rt as_runner t ctx x =
     (case context_data rt ctx of
        None \<Rightarrow> (Inl no_runner, x)
      | Some a \<Rightarrow>
          (let args = (case sdd_cwd t of None \<Rightarrow> sdd_args t | Some d \<Rightarrow> ra_with_cwd d (sdd_args t))
           in case as_runner a (gen_prompt t) args x of
                (Inl e, x1) \<Rightarrow> (Inl e, x1)
              | (Inr gen_out, x1) \<Rightarrow>
                  sdd_loop A (as_runner a) t args gen_out (unat (sdd_max_fix_attempts t)) 0 [] x1))"

definition sdd_task :: "('f, 'x) process_api \<Rightarrow> 'k \<Rightarrow> ('a \<Rightarrow> ('f, 'x) ClaudeRunner) \<Rightarrow>
    ('v \<Rightarrow> string + 'f SddTask) \<Rightarrow> ('f SddTask \<Rightarrow> string + 'v) \<Rightarrow> ('f SddOutput \<Rightarrow> string + 'v) \<Rightarrow>
    ('f SddTask, 'f SddOutput, 'v, ('k, 'a) TaskContext, 'x) Task" where
  "sdd_task A rt as_runner from to out =
     \<lparr>t_NAME = ''sdd'', t_QUEUE = ''agents'', t_MAX_RETRIES = 0,
      t_backoff = task_default_backoff, t_run = sdd_run A rt as_runner,
      t_from_value = from, t_to_value = to, t_output_to_value = out\<rparr>"

definition sdd_sig :: "('f SddTask, 'f SddOutput, 'v, ('k, 'a) TaskContext, 'x) Task \<Rightarrow> string \<Rightarrow>
    string list \<Rightarrow> 'f RunArgs \<Rightarrow> 'v Signature option" where
  "sdd_sig T spec c args =
     task_signature T (sdd_with_args args (sdd_with_test_command c (sdd_task_new spec)))"

subsection \<open>The outcome of the loop\<close>

text \<open>
  One repair: the tests fail and the agent is asked to fix the code. \<open>repaired\<close> is the world
  after \<open>j\<close> repairs in a row, if the tests failed each time.
\<close>

definition repair :: "('f, 'x) process_api \<Rightarrow> ('f, 'x) ClaudeRunner \<Rightarrow> 'f SddTask \<Rightarrow> 'f RunArgs \<Rightarrow>
    'x \<Rightarrow> 'x option" where
  "repair A run t args x =
     (case run_test_command A (sdd_test_command t) (sdd_cwd t) x of
        (Inr r, x1) \<Rightarrow>
          if po_success r then None
          else (case run (fix_prompt t (utf8_lossy A (po_stdout r)) (utf8_lossy A (po_stderr r))) args x1 of
                  (Inr out, x2) \<Rightarrow> Some x2 | (Inl e, x2) \<Rightarrow> None)
      | (Inl e, x1) \<Rightarrow> None)"

fun repaired :: "('f, 'x) process_api \<Rightarrow> ('f, 'x) ClaudeRunner \<Rightarrow> 'f SddTask \<Rightarrow> 'f RunArgs \<Rightarrow> nat \<Rightarrow>
    'x \<Rightarrow> 'x option" where
  "repaired A run t args 0 x = Some x"
| "repaired A run t args (Suc j) x = Option.bind (repair A run t args x) (repaired A run t args j)"

text \<open>Neither the agent nor the operating system fails to run a process.\<close>

definition processes_run :: "('f, 'x) process_api \<Rightarrow> ('f, 'x) ClaudeRunner \<Rightarrow> bool" where
  "processes_run A run \<longleftrightarrow>
     (\<forall>p args x. \<exists>out y. run p args x = (Inr out, y)) \<and> (\<forall>c x. \<exists>out y. os_output A c x = (Inr out, y))"

definition sdd_verdict :: "('f, 'x) process_api \<Rightarrow> nat \<Rightarrow> u32 \<Rightarrow> process_output \<Rightarrow> 'f SddOutput \<Rightarrow> bool" where
  "sdd_verdict A fixes n r out \<longleftrightarrow>
     so_passed out = po_success r \<and> so_attempts out = n \<and> length (so_fix_outputs out) = fixes \<and>
     so_last_test_stdout out = utf8_lossy A (po_stdout r) \<and>
     so_last_test_stderr out = utf8_lossy A (po_stderr r)"

lemma run_test_command_total:
  assumes "processes_run A run" and "c \<noteq> []"
  obtains r y where "run_test_command A c cwd x = (Inr r, y)"
proof -
  from assms(2) obtain p args where c: "c = p # args" by (cases c) auto
  let ?c = "(fold cmd_arg args (command_new p))\<lparr>cmd_dir := cwd\<rparr>"
  from assms(1) obtain out y where "os_output A ?c x = (Inr out, y)"
    unfolding processes_run_def by blast
  with c that show thesis by (simp add: run_test_command_def)
qed

lemma sdd_loop_outcome:
  assumes run: "processes_run A run" and cmd: "sdd_test_command t \<noteq> []"
  shows "\<exists>out y j y0 r. sdd_loop A run t args g left attempt outs x = (Inr out, y) \<and> j \<le> left \<and>
    repaired A run t args j x = Some y0 \<and>
    run_test_command A (sdd_test_command t) (sdd_cwd t) y0 = (Inr r, y) \<and> (po_success r \<or> j = left) \<and>
    so_gen_output out = g \<and>
    sdd_verdict A (length outs + j)
      (if po_success r then attempt + of_nat (Suc j) else sdd_max_fix_attempts t + 1) r out"
proof (induction left arbitrary: attempt outs x)
  case 0
  obtain r y where test: "run_test_command A (sdd_test_command t) (sdd_cwd t) x = (Inr r, y)"
    using run_test_command_total [OF run cmd] .
  then show ?case
    by (auto simp: sdd_loop.simps [of _ _ _ _ _ 0] Let_def sdd_verdict_def intro!: exI [of _ "0::nat"] exI [of _ x])
next
  case (Suc left)
  obtain r y where test: "run_test_command A (sdd_test_command t) (sdd_cwd t) x = (Inr r, y)"
    using run_test_command_total [OF run cmd] .
  show ?case
  proof (cases "po_success r")
    case True
    with test show ?thesis
      by (auto simp: sdd_loop.simps [of _ _ _ _ _ "Suc left"] Let_def sdd_verdict_def
          intro!: exI [of _ "0::nat"] exI [of _ x])
  next
    case False
    let ?p = "fix_prompt t (utf8_lossy A (po_stdout r)) (utf8_lossy A (po_stderr r))"
    from run obtain o2 x2 where fixed: "run ?p args y = (Inr o2, x2)"
      unfolding processes_run_def by blast
    have loop: "sdd_loop A run t args g (Suc left) attempt outs x
        = sdd_loop A run t args g left (attempt + 1) (outs @ [o2]) x2"
      using test False fixed by (simp add: sdd_loop.simps [of _ _ _ _ _ "Suc left"] Let_def)
    have rep: "repair A run t args x = Some x2" using test False fixed by (simp add: repair_def)
    from Suc.IH [of "attempt + 1" "outs @ [o2]" x2] obtain out z j y0 r' where
      IH: "sdd_loop A run t args g left (attempt + 1) (outs @ [o2]) x2 = (Inr out, z)" "j \<le> left"
      "repaired A run t args j x2 = Some y0"
      "run_test_command A (sdd_test_command t) (sdd_cwd t) y0 = (Inr r', z)"
      "po_success r' \<or> j = left" "so_gen_output out = g"
      "sdd_verdict A (length (outs @ [o2]) + j)
        (if po_success r' then attempt + 1 + of_nat (Suc j) else sdd_max_fix_attempts t + 1) r' out"
      by blast
    have "Suc j \<le> Suc left" "repaired A run t args (Suc j) x = Some y0"
      "po_success r' \<or> Suc j = Suc left" using IH(2,3,5) rep by simp_all
    moreover have "sdd_verdict A (length outs + Suc j) (if po_success r' then attempt + of_nat (Suc (Suc j))
        else sdd_max_fix_attempts t + 1) r' out"
      using IH(7) by (cases "po_success r'") (simp_all add: algebra_simps)
    ultimately show ?thesis unfolding loop using IH(1,4,6) by blast
  qed
qed

subsection \<open>An example\<close>

text \<open>The world counts the calls of the agent, and the tests pass after two of them.\<close>

definition counting_processes :: "(unit, nat) process_api" where
  "counting_processes =
     \<lparr>os_output = (\<lambda>c x. (Inr \<lparr>po_success = (2 \<le> x), po_status = ''exit status'', po_stdout = [],
                              po_stderr = []\<rparr>, x)),
      utf8_lossy = (\<lambda>b. map (\<lambda>w. char_of (unat w)) b),
      raw_from_slice = (\<lambda>b. Inl ''no JSON''), show_f64 = (\<lambda>f. [])\<rparr>"

definition counting_runner :: "(unit, nat) ClaudeRunner" where
  "counting_runner p args x =
     (Inr \<lparr>ro_result = p, ro_session_id = None, ro_cost_usd = None, ro_duration_ms = None,
           ro_num_turns = None\<rparr>, Suc x)"

definition one_permit :: "(unit, nat) SemaphoreRunner" where
  "one_permit = semaphore_runner_new counting_runner 1"

lemma counting_processes_run: "processes_run counting_processes counting_runner"
  by (simp add: processes_run_def counting_processes_def counting_runner_def)

subsection \<open>Properties\<close>

text \<open>C38: the generate-test-fix loop ends with the verdict of its last test. When processes can be run, a
  task with a runner and a test command succeeds; there is a number \<open>j\<close> of repairs, at most
  \<open>max_fix_attempts\<close>, such that the tests failed before each of them, the last test ran in
  the world after them and nothing ran after it; the task reports that test's verdict and
  output, \<open>j\<close> fix outputs and \<open>j + 1\<close> attempts; and it gives up with a failed test only when
  all \<open>max_fix_attempts\<close> repairs are used up.\<close>

theorem sdd_reports_last_test:
  assumes "context_data rt ctx = Some a" and "processes_run A (as_runner a)"
    and "sdd_test_command t \<noteq> []" and "sdd_max_fix_attempts t < - 1"
  shows "\<exists>out y j args x1 x2 r. sdd_run A rt as_runner t ctx x = (Inr out, y) \<and>
    as_runner a (gen_prompt t) args x = (Inr (so_gen_output out), x1) \<and>
    j \<le> unat (sdd_max_fix_attempts t) \<and> repaired A (as_runner a) t args j x1 = Some x2 \<and>
    run_test_command A (sdd_test_command t) (sdd_cwd t) x2 = (Inr r, y) \<and>
    so_passed out = po_success r \<and> unat (so_attempts out) = Suc j \<and> length (so_fix_outputs out) = j \<and>
    so_last_test_stdout out = utf8_lossy A (po_stdout r) \<and>
    (so_passed out \<or> j = unat (sdd_max_fix_attempts t))"
proof -
  let ?args = "case sdd_cwd t of None \<Rightarrow> sdd_args t | Some d \<Rightarrow> ra_with_cwd d (sdd_args t)"
  let ?n = "unat (sdd_max_fix_attempts t)"
  from assms(2) obtain g x1 where gen: "as_runner a (gen_prompt t) ?args x = (Inr g, x1)"
    unfolding processes_run_def by blast
  then have run: "sdd_run A rt as_runner t ctx x = sdd_loop A (as_runner a) t ?args g ?n 0 [] x1"
    using assms(1) by (simp add: sdd_run_def Let_def)
  from sdd_loop_outcome [OF assms(2,3), of ?args g ?n 0 "[]" x1] obtain out y j x2 r where
    loop: "sdd_loop A (as_runner a) t ?args g ?n 0 [] x1 = (Inr out, y)" "j \<le> ?n"
      "repaired A (as_runner a) t ?args j x1 = Some x2"
      "run_test_command A (sdd_test_command t) (sdd_cwd t) x2 = (Inr r, y)" "po_success r \<or> j = ?n"
      "so_gen_output out = g"
    and out: "sdd_verdict A j (if po_success r then of_nat (Suc j) else sdd_max_fix_attempts t + 1) r out"
    unfolding list.size add_0 by blast
  have "?n < 2 ^ 32 - 1" using assms(4) by (simp add: word_less_nat_alt unsigned_minus_1_eq_mask mask_eq_exp_minus_1)
  then have n: "unat (of_nat (Suc j) :: u32) = Suc j" "unat (sdd_max_fix_attempts t + 1) = Suc ?n"
    using loop(2) by (simp_all add: unsigned_of_nat take_bit_nat_eq_self unat_word_ariths del: of_nat_Suc)
  have "unat (so_attempts out) = Suc j"
    using out loop(5) n unfolding sdd_verdict_def by (auto split: if_splits)
  with out loop gen show ?thesis unfolding run sdd_verdict_def by blast
qed

theorem sdd_reports_last_test_witness:
  "\<exists>out y j. sdd_run counting_processes () (\<lambda>r. r) (sdd_task_new ''spec'')
      (context_insert () counting_runner context_new) 0 = (Inr out, y) \<and> j \<le> 3 \<and>
    unat (so_attempts out) = Suc j \<and> length (so_fix_outputs out) = j \<and> (so_passed out \<or> j = 3)"
proof -
  let ?t = "sdd_task_new ''spec'' :: unit SddTask"
  let ?ctx = "context_insert () counting_runner context_new"
  have t: "sdd_test_command ?t \<noteq> []" "sdd_max_fix_attempts ?t < - 1" "unat (sdd_max_fix_attempts ?t) = 3"
    by (simp_all add: sdd_task_new_def word_less_nat_alt unsigned_minus_1_eq_mask mask_eq_exp_minus_1)
  have "context_data () ?ctx = Some counting_runner" by (simp add: context_data_insert)
  from sdd_reports_last_test [where as_runner = "\<lambda>r. r", OF this counting_processes_run t(1,2), of 0]
  show ?thesis unfolding t(3) by blast
qed

text \<open>With \<open>SemaphoreRunner\<close>, however calls arrive, are served, end or are dropped, the free permits
  and the calls inside the inner runner add up to \<open>max_concurrent\<close>, so that no more calls than
  that are inside; and a call waits only while all permits are in use or a permit is about to
  be granted.\<close>

lemma semaphore_runner_bounded:
  assumes "sem_reachable r s"
  shows "available_permits s + length (sem_inside s) = sr_max_concurrent r \<and>
    (sem_waiting s \<noteq> [] \<and> sem_step Grant s = None \<longrightarrow> length (sem_inside s) = sr_max_concurrent r)"
  using sem_reachable_permits [OF assms]
  by (auto simp: available_permits_def split: list.splits if_splits)

lemma semaphore_runner_bounded_example:
  "available_permits \<lparr>sem_available = 0, sem_waiting = [''b''], sem_inside = [''a'']\<rparr> + length [''a'']
     = sr_max_concurrent one_permit"
proof -
  let ?s = "\<lparr>sem_available = 0, sem_waiting = [''b''], sem_inside = [''a'']\<rparr>"
  have "sem_reachable one_permit \<lparr>sem_available = 1, sem_waiting = [], sem_inside = []\<rparr>"
    using sem_reachable.start [of one_permit]
    by (simp add: sem_new_def one_permit_def semaphore_runner_new_def)
  then have "sem_reachable one_permit \<lparr>sem_available = 1, sem_waiting = [''a''], sem_inside = []\<rparr>"
    by (rule sem_reachable.step [where ev = "Arrive ''a''"]) simp
  then have "sem_reachable one_permit \<lparr>sem_available = 1, sem_waiting = [''a'', ''b''], sem_inside = []\<rparr>"
    by (rule sem_reachable.step [where ev = "Arrive ''b''"]) simp
  then have "sem_reachable one_permit ?s" by (rule sem_reachable.step [where ev = Grant]) simp
  from semaphore_runner_bounded [OF this] show ?thesis by simp
qed

end
