(* ===== verification/Kojin_Redis_Worker.thy ===== *)
theory Kojin_Redis_Worker
  imports Kojin_Redis Kojin_Worker_Loop
begin

text \<open>
  A worker on the Redis broker. Over any server that follows the documentation
  (\<open>redis_server\<close>) the broker meets the contract \<open>single_task_broker\<close>, for tasks without
  deduplication key whose JSON texts read back and contain the identifier by which
  \<open>ack\<close> finds them (\<open>redis_good\<close>; the theory \<open>Kojin_Wire\<close> shows that the wire format has this property). The retry and chain lemmas of \<open>Kojin_Worker_Correct\<close> then hold of it. The
  Redis result backend meets \<open>group_counter\<close>, so that chords are safe under interleaving.
\<close>

subsection \<open>One task on the server\<close>

definition codes :: "'v json_api \<Rightarrow> (uuid \<Rightarrow> string) \<Rightarrow> string \<Rightarrow> 'v TaskMessage \<Rightarrow> bool" where
  "codes J f t m \<longleftrightarrow> encodes J t m \<and> str_contains (taskid_display f (msg_id m)) t"

definition redis_good :: "'v json_api \<Rightarrow> (uuid \<Rightarrow> string) \<Rightarrow> 'v TaskMessage \<Rightarrow> bool" where
  "redis_good J f m \<longleftrightarrow> dedup_key (mfields m) = None \<and> (\<forall>n. same_task m n \<longrightarrow> (\<exists>t. codes J f t n))"

definition redis_dead :: "'v json_api \<Rightarrow> RedisBroker \<Rightarrow> (string \<Rightarrow> 'v TaskMessage list) \<Rightarrow> redis_db \<Rightarrow> bool"
where
  "redis_dead J b d v \<longleftrightarrow> (\<forall>q. list_all2 (encodes J) (rev (db_lists v (key_dlq (rb_keys b) q))) (d q))"

definition redis_lists :: "RedisBroker \<Rightarrow> (string \<Rightarrow> string list) \<Rightarrow> string list \<Rightarrow> redis_db \<Rightarrow> bool" where
  "redis_lists b qs ps v \<longleftrightarrow>
     (\<forall>q. db_lists v (key_queue (rb_keys b) q) = qs q) \<and>
     db_lists v (key_processing (rb_keys b) (rb_worker_id b)) = ps"

definition redis_vacant :: "('d \<Rightarrow> redis_db) \<Rightarrow> 'v json_api \<Rightarrow> RedisBroker \<Rightarrow>
    (string \<Rightarrow> 'v TaskMessage list) \<Rightarrow> 'd \<Rightarrow> bool" where
  "redis_vacant view J b d s \<longleftrightarrow> redis_lists b (\<lambda>_. []) [] (view s) \<and> redis_dead J b d (view s)"

definition redis_holds :: "('d \<Rightarrow> redis_db) \<Rightarrow> 'v json_api \<Rightarrow> (uuid \<Rightarrow> string) \<Rightarrow> RedisBroker \<Rightarrow>
    'v TaskMessage \<Rightarrow> (string \<Rightarrow> 'v TaskMessage list) \<Rightarrow> 'd \<Rightarrow> bool" where
  "redis_holds view J f b m d s \<longleftrightarrow>
     (\<exists>t. codes J f t m \<and> redis_lists b ((\<lambda>_. [])(msg_queue m := [t])) [] (view s)) \<and>
     redis_dead J b d (view s)"

definition redis_flying :: "('d \<Rightarrow> redis_db) \<Rightarrow> 'v json_api \<Rightarrow> (uuid \<Rightarrow> string) \<Rightarrow> RedisBroker \<Rightarrow>
    'v TaskMessage \<Rightarrow> (string \<Rightarrow> 'v TaskMessage list) \<Rightarrow> 'd \<Rightarrow> bool" where
  "redis_flying view J f b m d s \<longleftrightarrow>
     (\<exists>t. codes J f t m \<and> redis_lists b (\<lambda>_. []) [t] (view s)) \<and> redis_dead J b d (view s)"

lemma redis_key_neq [simp]:
  "key_queue K q \<noteq> key_processing K w" "key_processing K w \<noteq> key_queue K q"
  "key_queue K q \<noteq> key_dlq K q'" "key_dlq K q' \<noteq> key_queue K q"
  "key_processing K w \<noteq> key_dlq K q'" "key_dlq K q' \<noteq> key_processing K w"
  by (simp_all add: key_queue_def key_processing_def key_dlq_def)

lemma redis_key_eq [simp]:
  "key_queue K q = key_queue K q' \<longleftrightarrow> q = q'" "key_dlq K q = key_dlq K q' \<longleftrightarrow> q = q'"
  by (simp_all add: key_queue_def key_dlq_def)

lemma redis_good_codes: "redis_good J f m \<Longrightarrow> \<exists>t. codes J f t m"
  by (simp add: redis_good_def)

context redis_server
begin

lemma rb_scan_finds:
  assumes "codes J f t m"
  shows "redis_lists b ((\<lambda>_. [])(msg_queue m := [t])) [] (view s) \<Longrightarrow> msg_queue m \<in> set qs \<Longrightarrow>
    fst (rb_scan A J b tm qs s) = Inr (Some m) \<and>
    view (snd (rb_scan A J b tm qs s)) = (view s)\<lparr>db_lists := (db_lists (view s))
      (key_queue (rb_keys b) (msg_queue m) := [], key_processing (rb_keys b) (rb_worker_id b) := [t])\<rparr>"
proof (induction qs arbitrary: s)
  case (Cons q qs)
  let ?k = "key_queue (rb_keys b) q" and ?p = "key_processing (rb_keys b) (rb_worker_id b)"
  have from_J: "js_message_from J t = Inr m" using assms by (simp add: codes_def encodes_def)
  show ?case
  proof (cases "q = msg_queue m")
    case True
    with Cons.prems have "db_lists (view s) ?k = [] @ [t]" "db_lists (view s) ?p = []"
      by (simp_all add: redis_lists_def)
    with blmove_move [of s ?k "[]" t ?p tm] from_J True show ?thesis by (simp add: call_simps fun_upd_def)
  next
    case False
    with Cons.prems have "db_lists (view s) ?k = []" by (simp add: redis_lists_def)
    note empty = blmove_empty [OF this, of ?p tm]
    let ?s = "snd (rd_blmove A ?k ?p tm s)"
    have "redis_lists b ((\<lambda>_. [])(msg_queue m := [t])) [] (view ?s)" "msg_queue m \<in> set qs"
      using Cons.prems False empty by (simp_all add: fun_upd_def)
    from Cons.IH [OF this] empty show ?thesis by (simp add: call_simps)
  qed
qed simp

lemma rb_ack_flying:
  assumes "redis_flying view J f b m d s"
  shows "fst (rb_ack A f b (msg_id m) s) = Inr ()" "redis_vacant view J b d (snd (rb_ack A f b (msg_id m) s))"
  using assms
  by (auto simp: rb_ack_view redis_flying_def redis_vacant_def redis_lists_def redis_dead_def codes_def)

lemma rb_enqueue_vacant:
  assumes "redis_vacant view J b d s" and "redis_good J f m"
  shows "redis_holds view J f b m d (snd (rb_enqueue A J b m s))"
proof -
  from redis_good_codes [OF assms(2)] obtain t where t: "codes J f t m" ..
  then have "js_message_to J m = Inr t" by (simp add: codes_def encodes_def)
  moreover have "dedup_key (mfields m) = None" using assms(2) by (simp add: redis_good_def)
  ultimately show ?thesis using assms(1) t
    by (auto simp: rb_enqueue_plain redis_vacant_def redis_holds_def redis_lists_def redis_dead_def
        intro!: exI [of _ t])
qed

lemma rb_dead_letter_flying:
  assumes flying: "redis_flying view J f b m d s" and n: "same_task m n" "redis_good J f n"
  shows "redis_vacant view J b (d(msg_queue m := d (msg_queue m) @ [n])) (snd (rb_dead_letter A f J b n s))"
proof -
  from redis_good_codes [OF n(2)] obtain t where t: "js_message_to J n = Inr t" "encodes J t n"
    by (auto simp: codes_def encodes_def)
  let ?c = "snd (rd_conn A s)" and ?s = "snd (rb_ack A f b (msg_id n) (snd (rd_conn A s)))"
  have id: "msg_id n = msg_id m" "msg_queue n = msg_queue m" using n(1) by (simp_all add: same_task_def)
  have "redis_flying view J f b m d ?c" using flying by (simp add: redis_flying_def conn)
  note ack = rb_ack_flying [OF this]
  have "snd (rb_dead_letter A f J b n s) = snd (rb_push A J (key_dlq (rb_keys b) (msg_queue m)) n ?s)"
    using ack(1) by (simp add: rb_dead_letter_def call_simps conn id)
  with ack(2) t show ?thesis
    by (auto simp: rb_push_view [OF t(1)] redis_vacant_def redis_lists_def redis_dead_def id
        list_all2_appendI)
qed

end

sublocale redis_server \<subseteq> task: single_task_broker "redis_broker A f J b" "redis_good J f"
    "redis_vacant view J b" "redis_holds view J f b" "redis_flying view J f b"
proof unfold_locales
  fix m n
  assume "redis_good J f m" "same_task m n"
  then show "redis_good J f n"
    by (auto simp: redis_good_def same_task_def)
next
  fix m d s qs t
  assume "redis_holds view J f b m d s" and q: "msg_queue m \<in> set qs"
  then obtain tx where tx: "codes J f tx m" "redis_dead J b d (view s)"
    and "redis_lists b ((\<lambda>_. [])(msg_queue m := [tx])) [] (view (snd (rd_conn A s)))"
    by (auto simp: redis_holds_def conn)
  note found = rb_scan_finds [OF tx(1) this(3) q, of t]
  then show "fst (b_dequeue (redis_broker A f J b) qs t s) = Inr (Some m)"
    by (simp add: broker_simps rb_dequeue_def call_simps conn)
  from found tx \<open>redis_lists b _ [] _\<close>
  show "redis_flying view J f b m d (snd (b_dequeue (redis_broker A f J b) qs t s))"
    by (auto simp: broker_simps rb_dequeue_def call_simps conn redis_flying_def redis_lists_def
        redis_dead_def intro!: exI [of _ tx])
next
  fix m n d s
  assume flying: "redis_flying view J f b m d s" and n: "same_task m n" "redis_good J f n"
  then show "redis_vacant view J b (d(msg_queue m := d (msg_queue m) @ [n]))
      (snd (b_dead_letter (redis_broker A f J b) n s))"
    by (simp add: broker_simps rb_dead_letter_flying)
  have "msg_id n = msg_id m" using n(1) by (simp add: same_task_def)
  with rb_ack_flying [OF flying] n(2)
  show "redis_holds view J f b n d (snd (b_nack (redis_broker A f J b) n s))"
    by (simp add: broker_simps rb_nack_def call_simps rb_enqueue_vacant)
qed (simp_all add: broker_simps rb_ack_flying rb_enqueue_vacant)

text \<open>The counter of a group is incremented by a script, which the server runs atomically.\<close>

definition rr_counter :: "('d \<Rightarrow> redis_db) \<Rightarrow> RedisResultBackend \<Rightarrow> string \<Rightarrow> 'd \<Rightarrow> nat option" where
  "rr_counter view b g d = Some (db_counters (view d) (key_group_completed (rr_keys b) g))"

context redis_server
begin

lemma rr_complete_eq:
  "rr_complete_group_member A J b g i v d =
     (case js_value_to J v of
        Inl e \<Rightarrow> (Inl (Serialization e), snd (rd_conn A d))
      | Inr t \<Rightarrow>
          (let k = key_group_completed (rr_keys b) g; d1 = snd (rd_conn A d)
           in (Inr (of_nat (Suc (db_counters (view d) k))),
               rl_rpush A (key_group_results (rr_keys b) g) t (snd (rl_incr A k d1)))))"
  by (cases "js_value_to J v")
     (simp_all add: rr_complete_group_member_def try_then_def map_err_def pure_call_def eval conn incr
        group_complete_script_def case_prod_beta prod_eq_iff Let_def split: sum.split)

end

sublocale redis_server \<subseteq> counting: group_counter "redis_result_backend A f J b" "rr_counter view b"
proof unfold_locales
  fix g i v d
  show "rr_counter view b g (snd (r_store (redis_result_backend A f J b) i v d)) = rr_counter view b g d"
    by (cases "js_value_to J v")
       (simp_all add: redis_result_backend_def rr_store_def call_simps conn set_ex_others snd_map_err rr_counter_def)
next
  fix g h d
  show "rr_counter view b g (snd (r_get_group_results (redis_result_backend A f J b) h d)) = rr_counter view b g d"
    by (simp add: redis_result_backend_def rr_get_group_results_def call_simps pure_call_def conn lrange rr_counter_def)
qed (auto simp: redis_result_backend_def rr_complete_eq Let_def rr_counter_def conn incr script_rpush
       split: sum.splits)

context redis_server
begin

lemmas redis_told_once = counting.told_once
lemmas redis_failing_task_exhausts = task.failing_task_exhausts
lemmas redis_chain_runs = task.chain_runs

end

lemma starts_with_contains: "starts_with p s \<Longrightarrow> str_contains p s"
  by (cases s) (simp_all add: starts_with_def)

lemma redis_empty_vacant: "redis_vacant (\<lambda>d. d) J b (\<lambda>_. []) redis_empty"
  by (simp add: redis_vacant_def redis_lists_def redis_dead_def redis_empty_def)

subsection \<open>Retries and chains\<close>

text \<open>Retries work on Redis: a task without deduplication key, enqueued on a Redis broker that is
  otherwise idle and failing every time it runs, is executed once more than it has retries
  left, with the default backoff after each failure but the last, and then lies at the end of
  the dead-letter list of its queue, marked \<open>DeadLettered\<close>, and in no other list. The server
  follows the documentation and the JSON texts of the task read back (\<open>redis_good\<close>).\<close>

lemma redis_failing_task_ends:
  assumes "redis_server A view" and "wk_broker W = redis_broker A f J b"
    and "\<forall>x. \<exists>e y. dispatch (wk_registry W) (task_name (mfields m)) (payload (mfields m))
               (wk_context W) x = (Inl e, y)"
    and "retries (mfields m) \<le> max_retries (mfields m)"
    and "msg_queue m \<in> set (wc_queues (wk_config W))" and "eta (mfields m) = None"
    and "redis_good J f m" and "redis_vacant view J b d s"
    and "w_broker w = snd (rb_enqueue A J b m s)"
    and "n = unat (max_retries (mfields m)) - unat (retries (mfields m))"
  shows "\<exists>dead. redis_vacant view J b (d(msg_queue m := d (msg_queue m) @ [dead]))
               (w_broker ((worker_round W ^^ Suc n) w)) \<and>
           same_task m dead \<and> state (mfields dead) = DeadLettered \<and>
           retries (mfields dead) = max_retries (mfields m) \<and>
           w_clock ((worker_round W ^^ Suc n) w) = w_clock w +
             (\<Sum>k = unat (retries (mfields m)) ..< unat (max_retries (mfields m)). min (2 ^ k) 300)
             * nanos_per_sec"
proof -
  have "redis_holds view J f b m d (w_broker w)"
    unfolding assms(9) by (rule redis_server.rb_enqueue_vacant [OF assms(1,8,7)])
  from redis_server.redis_failing_task_exhausts [OF assms(1,2) _ assms(10,4,5) refl refl assms(6,7) this]
    assms(3) show ?thesis by (simp add: backoff_total_def exponential_spec_def)
qed

text \<open>A chain runs to its end on Redis: once the first message of a chain is enqueued on a Redis
  broker that is otherwise idle, a worker runs the tasks in order, each exactly once and each
  after its predecessor succeeded, and leaves all queues and the processing list empty.\<close>

lemma redis_chain_ends:
  assumes "redis_server A view" and "wk_broker W = redis_broker A f J b"
    and "wk_result_backend W = Some R" and "\<forall>M\<in>set (wk_middlewares W). observer M"
    and "chain_message (wk_serde W) sig rest m" and "chain_serde (wk_serde W) rest"
    and "list_all (chain_step_ok (wc_queues (wk_config W))) (sig # rest)"
    and "redis_good J f m"
    and "\<forall>sg sgs u t v. suffix (sg # sgs) rest \<longrightarrow>
           redis_good J f (next_chain_message (wk_serde W) u t (correlation_id (mfields m)) v sg sgs)"
    and "redis_vacant view J b d s" and "w_broker w = snd (rb_enqueue A J b m s)"
    and "run_sigs (wk_registry W) (wk_context W) (sig # rest) (w_app w) = Some (vs, y)"
  shows "redis_vacant view J b d (w_broker ((worker_round W ^^ length (sig # rest)) w)) \<and>
    w_app ((worker_round W ^^ length (sig # rest)) w) = y"
proof -
  have "redis_holds view J f b m d (w_broker w)"
    unfolding assms(11) by (rule redis_server.rb_enqueue_vacant [OF assms(1,10,8)])
  moreover have "redis_good J f (next_chain_message (wk_serde W) u t (correlation_id (mfields m)) v sg sgs)"
    if "suffix (sg # sgs) rest" for u t v sg sgs
    using assms(9) that by blast
  ultimately show ?thesis
    using redis_server.redis_chain_runs [OF assms(1-4) _ assms(5) refl assms(6) suffix_order.order_refl
        assms(7,12)] by blast
qed

subsection \<open>Properties\<close>

text \<open>C6: chords are safe on Redis however the members of a group run concurrently: over any server that
  follows the documentation, if the counter of the group goes from \<open>c\<close> to \<open>c'\<close> in a run of the
  worker (any broker, any interleaving of its tasks' steps, nobody else counting members), then
  for every \<open>n\<close> with \<open>c < n \<le> c'\<close> exactly one member is told that \<open>n\<close> have completed, and for
  other \<open>n\<close> none; so at most one member goes on to enqueue the callback.\<close>

theorem redis_group_total_told_once:
  assumes "redis_server A view" and "wk_result_backend W = Some (redis_result_backend A f J b)"
    and "run_steps W evs s = Some s'" and "count_events (alters_group (rr_counter view b) g) W evs s = 0"
    and "rr_counter view b g (w_backend (rs_world s)) = Some c" and "c + length evs < 2 ^ 32"
  shows "\<exists>c'. rr_counter view b g (w_backend (rs_world s')) = Some c' \<and>
    count_events (told (redis_result_backend A f J b) g n) W evs s
      = (if c < unat n \<and> unat n \<le> c' then 1 else 0) \<and>
    count_events (fires W g n) W evs s \<le> 1"
  by (rule redis_server.redis_told_once [OF assms])

definition plain_serde :: "string serde_api" where
  "plain_serde =
     \<lparr>sigs_from_str = (\<lambda>s. Inr []), sigs_to_str = (\<lambda>xs. Inr ''[]''), value_to_str = Inr,
      values_to_str = (\<lambda>vs. Inr (concat vs))\<rparr>"

abbreviation group_results :: "(redis_db, string) ResultBackend" where
  "group_results \<equiv> redis_result_backend redis_ref (\<lambda>u. []) name_codec example_results"

definition group_worker :: "(redis_db, redis_db, unit, string list, string, unit) Worker" where
  "group_worker =
     \<lparr>wk_broker = redis_broker redis_ref (\<lambda>u. []) name_codec example_redis,
      wk_registry = \<lparr>handlers = Map.empty\<rparr>, wk_middlewares = [], wk_context = (),
      wk_config = worker_config_default, wk_result_backend = Some group_results,
      wk_serde = plain_serde, wk_now_v7 = of_nat\<rparr>"

definition member :: "string TaskMessage" where
  "member = with_group ''g'' 2 (message_new 7 0 ''a'' ''default'' [])"

definition redis_members :: "(redis_db, redis_db, unit, string list, string) run_state" where
  "redis_members =
     \<lparr>rs_phase = LoopTop, rs_permits = 8, rs_running = [Grouping member [], Grouping member []],
      rs_cancelled = False,
      rs_world = \<lparr>w_broker = redis_empty, w_backend = redis_empty, w_mw = (), w_app = [], w_now = 0,
        w_clock = 0, w_drawn = 0\<rparr>\<rparr>"

theorem redis_group_total_told_once_witness:
  "count_events (told group_results ''g'' 2) group_worker [Resume 1, Resume 0] redis_members = 1 \<and>
   count_events (fires group_worker ''g'' 2) group_worker [Resume 1, Resume 0] redis_members \<le> 1"
proof -
  let ?evs = "[Resume 1, Resume 0]" and ?w = "rs_world redis_members"
  let ?G = "\<lambda>r. snd (rr_complete_group_member redis_ref name_codec example_results ''g'' (msg_id member) [] r)"
  let ?w2 = "?w\<lparr>w_backend := ?G (?G (w_backend ?w))\<rparr>"
  have "group_id (mfields member) = Some ''g''" "chord_callback member = None"
    by (simp_all add: member_def with_group_def message_new_def)
  then have step: "task_step group_worker (Grouping member []) w = (Some (Chaining member []), w\<lparr>w_backend := ?G (w_backend w)\<rparr>)"
    for w by (simp add: group_worker_def group_step_def redis_result_backend_def on_backend_def case_prod_beta
        split: sum.split)
  have run: "run_steps group_worker ?evs redis_members =
      Some (redis_members\<lparr>rs_running := [Chaining member [], Chaining member []], rs_world := ?w2\<rparr>)"
    by (simp add: redis_members_def resume_task_def step del: task_step.simps)
  have alters: "count_events (alters_group (rr_counter (\<lambda>d. d) example_results) ''g'') group_worker ?evs redis_members = 0"
    by (simp add: alters_group_def redis_members_def)
  have serial: "js_value_to name_codec v = Inr v" for v by (simp add: name_codec_def)
  have counts: "rr_counter (\<lambda>d. d) example_results ''g'' (w_backend ?w) = Some 0"
    "rr_counter (\<lambda>d. d) example_results ''g'' (w_backend ?w2) = Some 2"
    by (simp_all add: redis_members_def rr_counter_def redis_reference.rr_complete_eq serial redis_reference.conn
        redis_reference.incr redis_reference.script_rpush redis_empty_def Let_def)
  have W: "wk_result_backend group_worker = Some group_results" by (simp add: group_worker_def)
  show ?thesis
    using redis_group_total_told_once [OF redis_reference.redis_server_axioms W run alters counts(1), of 2] counts(2)
    by (simp add: del: count_events.simps)
qed

end
