(* ===== verification/Kojin_Wire.thy ===== *)
theory Kojin_Wire
  imports Kojin_Redis_Worker "HOL-Library.Monad_Syntax"
begin

text \<open>
  The wire format of messages: what the \<open>serde\<close> attributes of \<open>message.rs\<close>, \<open>signature.rs\<close>,
  \<open>state.rs\<close>, \<open>task_id.rs\<close> and \<open>backoff.rs\<close> make of a value, and how it is read back. The
  attributes give the field names and their order, which fields are left out when they are
  \<open>None\<close> (\<open>skip_serializing_if\<close>), which may be absent (\<open>default\<close>, and every \<open>Option\<close>), and the
  spelling of the states. A JSON document is a \<open>json\<close>; an object keeps the order and the
  duplicates of its text.

  What other crates contribute is the record \<open>wire_formats\<close>: the texts of UUIDs and points in time,
  the conversions between \<open>serde_json::Value\<close> and documents, the order in which a \<open>HashMap\<close> is
  traversed, and the conversions between documents and texts. Reading gives \<open>None\<close> where
  \<open>serde\<close> reports an error; \<open>wf_explain\<close> is the text of that error. The parser rejects texts that
  are nested deeper than \<open>wf_depth\<close>.
\<close>

subsection \<open>Documents and formats\<close>

datatype json =
    JNull
  | JBool bool
  | JInt int
  | JFloat string
  | JStr string
  | JArr "json list"
  | JObj "(string \<times> json) list"

record 'v wire_formats =
  wf_uuid :: "uuid \<Rightarrow> string"
  wf_uuid_from :: "string \<Rightarrow> uuid option"
  wf_time :: "DateTime \<Rightarrow> string"
  wf_time_from :: "string \<Rightarrow> DateTime option"
  wf_value :: "'v \<Rightarrow> json"
  wf_value_from :: "json \<Rightarrow> 'v"
  wf_iter :: "(string \<rightharpoonup> string) \<Rightarrow> (string \<times> string) list"
  wf_print :: "json \<Rightarrow> string"
  wf_parse :: "string \<Rightarrow> string + json"
  wf_explain :: "json \<Rightarrow> string"
  wf_depth :: nat

subsection \<open>Structs\<close>

text \<open>
  A struct is written as an object; a field that \<open>skip_serializing_if\<close> leaves out is \<open>None\<close>. A struct
  is read from an object, whose unknown fields are ignored and whose known fields occur at
  most once, or from an array that lists the fields in order, where only fields with the
  attribute \<open>default\<close> may be missing at the end. \<open>slots\<close> finds the document of each field; its
  first argument are the fields, each with whether it has the attribute.
\<close>

fun write_struct :: "(string \<times> json option) list \<Rightarrow> (string \<times> json) list" where
  "write_struct [] = []"
| "write_struct ((k, None) # fs) = write_struct fs"
| "write_struct ((k, Some d) # fs) = (k, d) # write_struct fs"

fun slots :: "(string \<times> bool) list \<Rightarrow> json \<Rightarrow> (string \<rightharpoonup> json) option" where
  "slots fs (JObj kvs) =
     (if distinct (filter (\<lambda>k. k \<in> fst ` set fs) (map fst kvs))
      then Some (\<lambda>k. if k \<in> fst ` set fs then map_of kvs k else None) else None)"
| "slots fs (JArr xs) =
     (if length xs \<le> length fs \<and> list_all snd (drop (length xs) fs)
      then Some (map_of (zip (map fst fs) xs)) else None)"
| "slots fs _ = None"

definition required :: "(json \<Rightarrow> 'a option) \<Rightarrow> json option \<Rightarrow> 'a option" where
  "required r x = Option.bind x r"

definition optional :: "(json \<Rightarrow> 'a option) \<Rightarrow> json option \<Rightarrow> 'a option option" where
  "optional r x =
     (case x of
        None \<Rightarrow> Some None
      | Some d \<Rightarrow> if d = JNull then Some None else map_option Some (r d))"

definition option_doc :: "('a \<Rightarrow> json) \<Rightarrow> 'a option \<Rightarrow> json" where
  "option_doc w x = (case x of None \<Rightarrow> JNull | Some a \<Rightarrow> w a)"

subsection \<open>Leaves\<close>

fun str_of_doc :: "json \<Rightarrow> string option" where
  "str_of_doc (JStr s) = Some s"
| "str_of_doc _ = None"

definition word_doc :: "'a::len word \<Rightarrow> json" where
  "word_doc n = JInt (uint n)"

fun word_of_doc :: "json \<Rightarrow> 'a::len word option" where
  "word_of_doc (JInt i) = (if 0 \<le> i \<and> i < 2 ^ LENGTH('a) then Some (word_of_int i) else None)"
| "word_of_doc _ = None"

definition taskid_doc :: "'v wire_formats \<Rightarrow> TaskId \<Rightarrow> json" where
  "taskid_doc F i = JStr (wf_uuid F (as_uuid i))"

definition taskid_of_doc :: "'v wire_formats \<Rightarrow> json \<Rightarrow> TaskId option" where
  "taskid_of_doc F d = Option.bind (str_of_doc d) (\<lambda>s. map_option TaskId (wf_uuid_from F s))"

definition time_doc :: "'v wire_formats \<Rightarrow> DateTime \<Rightarrow> json" where
  "time_doc F t = JStr (wf_time F t)"

definition time_of_doc :: "'v wire_formats \<Rightarrow> json \<Rightarrow> DateTime option" where
  "time_of_doc F d = Option.bind (str_of_doc d) (wf_time_from F)"

text \<open>A state is written as its snake-case name and read as the name or as an object that maps
  the name to null.\<close>

fun state_doc :: "TaskState \<Rightarrow> json" where
  "state_doc Pending = JStr ''pending''"
| "state_doc Received = JStr ''received''"
| "state_doc Started = JStr ''started''"
| "state_doc Success = JStr ''success''"
| "state_doc Failure = JStr ''failure''"
| "state_doc Retry = JStr ''retry''"
| "state_doc StateRevoked = JStr ''revoked''"
| "state_doc DeadLettered = JStr ''dead_lettered''"

definition state_of_name :: "string \<Rightarrow> TaskState option" where
  "state_of_name s =
     map_of [(''pending'', Pending), (''received'', Received), (''started'', Started),
      (''success'', Success), (''failure'', Failure), (''retry'', Retry),
      (''revoked'', StateRevoked), (''dead_lettered'', DeadLettered)] s"

fun state_of_doc :: "json \<Rightarrow> TaskState option" where
  "state_of_doc (JStr s) = state_of_name s"
| "state_of_doc (JObj [(s, JNull)]) = state_of_name s"
| "state_of_doc _ = None"

text \<open>A \<open>HashMap<String, String>\<close> is an object; when a key is repeated the last value stays.\<close>

definition headers_doc :: "'v wire_formats \<Rightarrow> (string \<rightharpoonup> string) \<Rightarrow> json" where
  "headers_doc F h = JObj (map (\<lambda>(k, v). (k, JStr v)) (wf_iter F h))"

fun read_headers :: "(string \<times> json) list \<Rightarrow> (string \<rightharpoonup> string) \<Rightarrow> (string \<rightharpoonup> string) option" where
  "read_headers [] h = Some h"
| "read_headers ((k, d) # kvs) h =
     (case str_of_doc d of None \<Rightarrow> None | Some v \<Rightarrow> read_headers kvs (h(k \<mapsto> v)))"

fun headers_of_doc :: "json \<Rightarrow> (string \<rightharpoonup> string) option" where
  "headers_of_doc (JObj kvs) = read_headers kvs Map.empty"
| "headers_of_doc _ = None"

subsection \<open>Messages (message.rs)\<close>

definition message_entries :: "'v wire_formats \<Rightarrow> 'v task_fields \<Rightarrow> json option \<Rightarrow> (string \<times> json option) list"
where
  "message_entries F f cb =
     [(''id'', Some (taskid_doc F (task_id f))),
      (''task_name'', Some (JStr (task_name f))),
      (''queue'', Some (JStr (queue f))),
      (''payload'', Some (wf_value F (payload f))),
      (''state'', Some (state_doc (state f))),
      (''retries'', Some (word_doc (retries f))),
      (''max_retries'', Some (word_doc (max_retries f))),
      (''created_at'', Some (time_doc F (created_at f))),
      (''updated_at'', Some (time_doc F (updated_at f))),
      (''eta'', Some (option_doc (time_doc F) (eta f))),
      (''headers'', Some (headers_doc F (headers f))),
      (''parent_id'', map_option (taskid_doc F) (parent_id f)),
      (''correlation_id'', map_option JStr (correlation_id f)),
      (''group_id'', map_option JStr (group_id f)),
      (''group_total'', map_option word_doc (group_total f)),
      (''chord_callback'', cb),
      (''priority'', map_option word_doc (priority f)),
      (''dedup_key'', map_option JStr (dedup_key f))]"

primrec message_doc :: "'v wire_formats \<Rightarrow> 'v TaskMessage \<Rightarrow> json" where
  "message_doc F (TaskMessage f cb) =
     JObj (write_struct (message_entries F f (map_option (message_doc F) cb)))"

definition message_schema :: "(string \<times> bool) list" where
  "message_schema =
     [(''id'', False), (''task_name'', False), (''queue'', False), (''payload'', False),
      (''state'', False), (''retries'', False), (''max_retries'', False), (''created_at'', False),
      (''updated_at'', False), (''eta'', False), (''headers'', False), (''parent_id'', True),
      (''correlation_id'', True), (''group_id'', True), (''group_total'', True),
      (''chord_callback'', True), (''priority'', True), (''dedup_key'', True)]"

definition fields_of :: "'v wire_formats \<Rightarrow> (string \<rightharpoonup> json) \<Rightarrow> 'v task_fields option" where
  "fields_of F f = do {
     i \<leftarrow> required (taskid_of_doc F) (f ''id'');
     n \<leftarrow> required str_of_doc (f ''task_name'');
     q \<leftarrow> required str_of_doc (f ''queue'');
     p \<leftarrow> required (\<lambda>d. Some (wf_value_from F d)) (f ''payload'');
     st \<leftarrow> required state_of_doc (f ''state'');
     r \<leftarrow> required word_of_doc (f ''retries'');
     mr \<leftarrow> required word_of_doc (f ''max_retries'');
     c \<leftarrow> required (time_of_doc F) (f ''created_at'');
     u \<leftarrow> required (time_of_doc F) (f ''updated_at'');
     e \<leftarrow> optional (time_of_doc F) (f ''eta'');
     h \<leftarrow> required headers_of_doc (f ''headers'');
     pa \<leftarrow> optional (taskid_of_doc F) (f ''parent_id'');
     co \<leftarrow> optional str_of_doc (f ''correlation_id'');
     g \<leftarrow> optional str_of_doc (f ''group_id'');
     gt \<leftarrow> optional word_of_doc (f ''group_total'');
     pr \<leftarrow> optional word_of_doc (f ''priority'');
     dk \<leftarrow> optional str_of_doc (f ''dedup_key'');
     Some \<lparr>task_id = i, task_name = n, queue = q, payload = p, state = st, retries = r,
       max_retries = mr, created_at = c, updated_at = u, eta = e, headers = h, parent_id = pa,
       correlation_id = co, group_id = g, group_total = gt, priority = pr, dedup_key = dk\<rparr> }"

lemma map_of_size: "map_of kvs k = Some d \<Longrightarrow> size d < size (JObj kvs)"
  by (induction kvs) (auto split: if_splits)

lemma slots_size:
  assumes "slots fs d = Some f" and "f k = Some c"
  shows "size c < size d"
proof (cases d)
  case (JArr xs)
  with assms have "c \<in> set xs"
    by (auto split: if_splits dest!: map_of_SomeD set_zip_rightD)
  then have "size c < Suc (size_list size xs)" by (simp add: less_Suc_eq_le size_list_estimation')
  with JArr show ?thesis by simp
next
  case (JObj kvs)
  with assms map_of_size show ?thesis by (auto split: if_splits)
qed (use assms in simp_all)

function message_of_doc :: "'v wire_formats \<Rightarrow> json \<Rightarrow> 'v TaskMessage option" where
  "message_of_doc F d =
     (case slots message_schema d of
        None \<Rightarrow> None
      | Some f \<Rightarrow>
          (case f ''chord_callback'' of
             None \<Rightarrow> map_option (\<lambda>fs. TaskMessage fs None) (fields_of F f)
           | Some c \<Rightarrow>
               if c = JNull then map_option (\<lambda>fs. TaskMessage fs None) (fields_of F f)
               else Option.bind (message_of_doc F c)
                      (\<lambda>cb. map_option (\<lambda>fs. TaskMessage fs (Some cb)) (fields_of F f))))"
  by pat_completeness auto
termination
  by (relation "measure (\<lambda>(F, d). size d)") (auto dest: slots_size)

declare message_of_doc.simps [simp del]

subsection \<open>Signatures (signature.rs)\<close>

definition signature_entries :: "'v wire_formats \<Rightarrow> 'v Signature \<Rightarrow> (string \<times> json option) list" where
  "signature_entries F s =
     [(''task_name'', Some (JStr (sig_task_name s))),
      (''queue'', Some (JStr (sig_queue s))),
      (''payload'', Some (wf_value F (sig_payload s))),
      (''max_retries'', Some (word_doc (sig_max_retries s))),
      (''eta'', Some (option_doc (time_doc F) (sig_eta s))),
      (''headers'', Some (headers_doc F (sig_headers s))),
      (''priority'', map_option word_doc (sig_priority s)),
      (''dedup_key'', map_option JStr (sig_dedup_key s))]"

definition signature_doc :: "'v wire_formats \<Rightarrow> 'v Signature \<Rightarrow> json" where
  "signature_doc F s = JObj (write_struct (signature_entries F s))"

definition signature_schema :: "(string \<times> bool) list" where
  "signature_schema =
     [(''task_name'', False), (''queue'', False), (''payload'', False), (''max_retries'', False),
      (''eta'', False), (''headers'', False), (''priority'', True), (''dedup_key'', True)]"

definition signature_of_doc :: "'v wire_formats \<Rightarrow> json \<Rightarrow> 'v Signature option" where
  "signature_of_doc F d = do {
     f \<leftarrow> slots signature_schema d;
     n \<leftarrow> required str_of_doc (f ''task_name'');
     q \<leftarrow> required str_of_doc (f ''queue'');
     p \<leftarrow> required (\<lambda>x. Some (wf_value_from F x)) (f ''payload'');
     mr \<leftarrow> required word_of_doc (f ''max_retries'');
     e \<leftarrow> optional (time_of_doc F) (f ''eta'');
     h \<leftarrow> required headers_of_doc (f ''headers'');
     pr \<leftarrow> optional word_of_doc (f ''priority'');
     dk \<leftarrow> optional str_of_doc (f ''dedup_key'');
     Some \<lparr>sig_task_name = n, sig_queue = q, sig_payload = p, sig_max_retries = mr, sig_eta = e,
       sig_headers = h, sig_priority = pr, sig_dedup_key = dk\<rparr> }"

text \<open>A vector is an array.\<close>

fun read_all :: "(json \<Rightarrow> 'a option) \<Rightarrow> json list \<Rightarrow> 'a list option" where
  "read_all r [] = Some []"
| "read_all r (d # ds) = Option.bind (r d) (\<lambda>x. map_option ((#) x) (read_all r ds))"

fun vec_of_doc :: "(json \<Rightarrow> 'a option) \<Rightarrow> json \<Rightarrow> 'a list option" where
  "vec_of_doc r (JArr ds) = read_all r ds"
| "vec_of_doc r _ = None"

subsection \<open>Backoff strategies (backoff.rs)\<close>

text \<open>
  The strategy is an object whose field \<open>type\<close> names the variant and whose other fields are
  those of the variant. How an array is read is the parameter \<open>pos\<close>.
\<close>

fun backoff_doc :: "BackoffStrategy \<Rightarrow> json" where
  "backoff_doc (Fixed d) = JObj [(''type'', JStr ''fixed''), (''delay_secs'', word_doc d)]"
| "backoff_doc (Exponential b m) =
     JObj [(''type'', JStr ''exponential''), (''base_secs'', word_doc b), (''max_secs'', word_doc m)]"

definition variant_of_fields :: "string \<Rightarrow> (string \<times> json) list \<Rightarrow> BackoffStrategy option" where
  "variant_of_fields tag kvs =
     (if tag = ''fixed'' then do {
        f \<leftarrow> slots [(''delay_secs'', False)] (JObj kvs);
        d \<leftarrow> required word_of_doc (f ''delay_secs'');
        Some (Fixed d) }
      else if tag = ''exponential'' then do {
        f \<leftarrow> slots [(''base_secs'', False), (''max_secs'', False)] (JObj kvs);
        b \<leftarrow> required word_of_doc (f ''base_secs'');
        m \<leftarrow> required word_of_doc (f ''max_secs'');
        Some (Exponential b m) }
      else None)"

fun backoff_of_doc :: "(json list \<Rightarrow> BackoffStrategy option) \<Rightarrow> json \<Rightarrow> BackoffStrategy option" where
  "backoff_of_doc pos (JObj kvs) = do {
     f \<leftarrow> slots [(''type'', False)] (JObj kvs);
     tag \<leftarrow> required str_of_doc (f ''type'');
     variant_of_fields tag (filter (\<lambda>x. fst x \<noteq> ''type'') kvs) }"
| "backoff_of_doc pos (JArr ds) = pos ds"
| "backoff_of_doc pos _ = None"

subsection \<open>Texts\<close>

definition doc_from :: "'v wire_formats \<Rightarrow> (json \<Rightarrow> 'a option) \<Rightarrow> string \<Rightarrow> string + 'a" where
  "doc_from F r s =
     (case wf_parse F s of
        Inl e \<Rightarrow> Inl e
      | Inr d \<Rightarrow> (case r d of None \<Rightarrow> Inl (wf_explain F d) | Some x \<Rightarrow> Inr x))"

text \<open>The conversions of \<open>Kojin_Redis\<close> and \<open>Kojin_Worker\<close>, made of these. \<open>lua_queue\<close> is Lua's
  \<open>cjson.decode(item).queue\<close>.\<close>

definition wire_json :: "'v wire_formats \<Rightarrow> (string \<Rightarrow> string) \<Rightarrow> 'v json_api" where
  "wire_json F lua_queue =
     \<lparr>js_message_to = (\<lambda>m. Inr (wf_print F (message_doc F m))),
      js_message_from = doc_from F (message_of_doc F),
      js_value_to = (\<lambda>v. Inr (wf_print F (wf_value F v))),
      js_value_from = doc_from F (\<lambda>d. Some (wf_value_from F d)),
      js_lua_queue = lua_queue\<rparr>"

definition wire_serde :: "'v wire_formats \<Rightarrow> 'v serde_api" where
  "wire_serde F =
     \<lparr>sigs_from_str = doc_from F (vec_of_doc (signature_of_doc F)),
      sigs_to_str = (\<lambda>ss. Inr (wf_print F (JArr (map (signature_doc F) ss)))),
      value_to_str = (\<lambda>v. Inr (wf_print F (wf_value F v))),
      values_to_str = (\<lambda>vs. Inr (wf_print F (JArr (map (wf_value F) vs))))\<rparr>"

subsection \<open>Reading back what was written\<close>

named_theorems wire_simps

text \<open>What the formats of the other crates promise.\<close>

definition formats_ok :: "'v wire_formats \<Rightarrow> bool" where
  "formats_ok F \<longleftrightarrow>
     (\<forall>u. wf_uuid_from F (wf_uuid F u) = Some u) \<and>
     (\<forall>t. wf_time_from F (wf_time F t) = Some t) \<and>
     (\<forall>h. finite (dom h) \<longrightarrow> distinct (map fst (wf_iter F h)) \<and> map_of (wf_iter F h) = h)"

text \<open>The parts of a message that have no fixed format read back: it has finitely many headers and
  a payload that survives the conversion to a document (numbers may not).\<close>

definition part_ok :: "'v wire_formats \<Rightarrow> 'v \<Rightarrow> (string \<rightharpoonup> string) \<Rightarrow> bool" where
  "part_ok F v h \<longleftrightarrow> wf_value_from F (wf_value F v) = v \<and> finite (dom h)"

primrec sendable :: "'v wire_formats \<Rightarrow> 'v TaskMessage \<Rightarrow> bool" where
  "sendable F (TaskMessage f cb) \<longleftrightarrow>
     part_ok F (payload f) (headers f) \<and> pred_option (\<lambda>b. b) (map_option (sendable F) cb)"

lemma str_of_doc_JStr [wire_simps]: "str_of_doc (JStr s) = Some s"
  by simp

lemma word_roundtrip [wire_simps]: "word_of_doc (word_doc n) = Some n"
  using uint_bounded [of n] by (simp add: word_doc_def)

lemma state_roundtrip [wire_simps]: "state_of_doc (state_doc s) = Some s"
  by (cases s) (simp_all add: state_of_name_def)

lemma state_doc_display: "state_doc s = JStr (state_display s)"
  by (cases s) simp_all

lemma taskid_roundtrip [wire_simps]:
  "formats_ok F \<Longrightarrow> taskid_of_doc F (taskid_doc F i) = Some i"
  by (simp add: formats_ok_def taskid_of_doc_def taskid_doc_def)

lemma time_roundtrip [wire_simps]: "formats_ok F \<Longrightarrow> time_of_doc F (time_doc F t) = Some t"
  by (simp add: formats_ok_def time_of_doc_def time_doc_def)

lemma read_headers_strings:
  "distinct (map fst kvs) \<Longrightarrow> read_headers (map (\<lambda>(k, v). (k, JStr v)) kvs) h = Some (h ++ map_of kvs)"
proof (induction kvs arbitrary: h)
  case (Cons kv kvs)
  then have "map_of kvs (fst kv) = None" by (simp add: map_of_eq_None_iff)
  with Cons show ?case by (cases kv) (auto simp: fun_eq_iff map_add_def split: option.split)
qed simp

lemma headers_roundtrip:
  "formats_ok F \<Longrightarrow> part_ok F v h \<Longrightarrow> headers_of_doc (headers_doc F h) = Some h"
  by (simp add: formats_ok_def part_ok_def headers_doc_def read_headers_strings)

lemma value_roundtrip: "part_ok F v h \<Longrightarrow> wf_value_from F (wf_value F v) = v"
  by (simp add: part_ok_def)

lemma doc_not_null [wire_simps]:
  "JStr s \<noteq> JNull" "taskid_doc F i \<noteq> JNull" "time_doc F t \<noteq> JNull" "word_doc n \<noteq> JNull"
  "message_doc F m \<noteq> JNull"
  by (simp_all add: taskid_doc_def time_doc_def word_doc_def) (cases m, simp)

lemma required_Some [wire_simps]: "required r (Some d) = r d"
  by (simp add: required_def)

lemma optional_map:
  "(\<And>a. r (w a) = Some a) \<Longrightarrow> (\<And>a. w a \<noteq> JNull) \<Longrightarrow> optional r (map_option w x) = Some x"
  by (cases x) (simp_all add: optional_def)

lemma optional_leaves [wire_simps]:
  "optional str_of_doc (map_option JStr s) = Some s"
  "optional word_of_doc (map_option word_doc n) = Some n"
  "formats_ok F \<Longrightarrow> optional (taskid_of_doc F) (map_option (taskid_doc F) i) = Some i"
  by (auto intro!: optional_map simp: wire_simps)

lemma optional_time [wire_simps]:
  "formats_ok F \<Longrightarrow> optional (time_of_doc F) (Some (option_doc (time_doc F) t)) = Some t"
  by (cases t) (simp_all add: optional_def option_doc_def wire_simps)

text \<open>An object with skipped fields has the keys of the struct, each at most once.\<close>

lemma map_of_fresh: "k \<notin> fst ` set kvs \<Longrightarrow> map_of kvs k = None"
  by (simp add: map_of_eq_None_iff)

lemma keys_write_struct: "k \<in> fst ` set (write_struct fs) \<Longrightarrow> k \<in> fst ` set fs"
  by (induction fs rule: write_struct.induct) auto

lemma distinct_write_struct: "distinct (map fst fs) \<Longrightarrow> distinct (map fst (write_struct fs))"
  by (induction fs rule: write_struct.induct) (auto dest: keys_write_struct [OF imageI])

lemma map_of_write_struct:
  "distinct (map fst fs) \<Longrightarrow> map_of (write_struct fs) k = Option.bind (map_of fs k) (\<lambda>x. x)"
  by (induction fs rule: write_struct.induct) (auto simp: map_of_fresh)

lemma slots_write_struct:
  assumes "map fst fs = map fst sch" and "distinct (map fst sch)"
  shows "slots sch (JObj (write_struct fs)) = Some (\<lambda>k. Option.bind (map_of fs k) (\<lambda>x. x))"
proof -
  have keys: "fst ` set sch = fst ` set fs" using assms(1) by (metis set_map)
  have dist: "distinct (map fst fs)" using assms by simp
  have "(if k \<in> fst ` set sch then map_of (write_struct fs) k else None)
      = Option.bind (map_of fs k) (\<lambda>x. x)" for k
    by (simp add: keys map_of_write_struct [OF dist] map_of_fresh)
  with distinct_write_struct [OF dist] show ?thesis by (simp add: distinct_filter fun_eq_iff)
qed

lemma fields_roundtrip:
  assumes "formats_ok F" and "part_ok F (payload f) (headers f)"
  shows "fields_of F (\<lambda>k. Option.bind (map_of (message_entries F f cb) k) (\<lambda>x. x)) = Some f"
  unfolding fields_of_def message_entries_def by (simp add: wire_simps assms headers_roundtrip [OF assms] value_roundtrip [OF assms(2)])

lemma message_slots:
  "slots message_schema (message_doc F (TaskMessage f cb))
     = Some (\<lambda>k. Option.bind (map_of (message_entries F f (map_option (message_doc F) cb)) k) (\<lambda>x. x))"
  unfolding message_doc.simps
  by (rule slots_write_struct) (simp_all add: message_entries_def message_schema_def)

lemma callback_entry [simp]: "map_of (message_entries F f cb) ''chord_callback'' = Some cb"
  by (simp add: message_entries_def)

lemma message_roundtrip:
  "formats_ok F \<Longrightarrow> sendable F m \<Longrightarrow> message_of_doc F (message_doc F m) = Some m"
proof (induction m)
  case (TaskMessage f cb)
  then have fields: "fields_of F (\<lambda>k. Option.bind (map_of (message_entries F f x) k) (\<lambda>x. x)) = Some f"
    for x by (intro fields_roundtrip) simp_all
  have callback: "message_of_doc F (message_doc F c) = Some c" if "cb = Some c" for c
    using TaskMessage that by simp
  show ?case
    unfolding message_of_doc.simps [of F "message_doc F (TaskMessage f cb)"] message_slots
    by (cases cb) (simp_all add: fields callback wire_simps del: message_doc.simps)
qed

lemma signature_roundtrip:
  assumes "formats_ok F" and "part_ok F (sig_payload s) (sig_headers s)"
  shows "signature_of_doc F (signature_doc F s) = Some s"
proof -
  have "slots signature_schema (signature_doc F s)
      = Some (\<lambda>k. Option.bind (map_of (signature_entries F s) k) (\<lambda>x. x))"
    unfolding signature_doc_def
    by (rule slots_write_struct) (simp_all add: signature_entries_def signature_schema_def)
  then show ?thesis
    by (simp add: signature_of_doc_def signature_entries_def wire_simps assms
        headers_roundtrip [OF assms] value_roundtrip [OF assms(2)])
qed

lemma read_all_map: "\<forall>x\<in>set xs. r (w x) = Some x \<Longrightarrow> read_all r (map w xs) = Some xs"
  by (induction xs) simp_all

lemma backoff_roundtrip: "backoff_of_doc pos (backoff_doc s) = Some s"
  by (cases s) (simp_all add: variant_of_fields_def required_def word_roundtrip)

subsection \<open>Documents of other versions\<close>

definition optional_keys :: "string set" where
  "optional_keys = {''eta'', ''parent_id'', ''correlation_id'', ''group_id'', ''group_total'',
     ''chord_callback'', ''priority'', ''dedup_key''}"

definition keep :: "string set \<Rightarrow> string \<Rightarrow> 'a option \<Rightarrow> 'a option" where
  "keep K k x = (if k \<in> K then None else x)"

definition forget_fields :: "string set \<Rightarrow> 'v task_fields \<Rightarrow> 'v task_fields" where
  "forget_fields K f =
     f\<lparr>eta := keep K ''eta'' (eta f), parent_id := keep K ''parent_id'' (parent_id f),
       correlation_id := keep K ''correlation_id'' (correlation_id f),
       group_id := keep K ''group_id'' (group_id f), group_total := keep K ''group_total'' (group_total f),
       priority := keep K ''priority'' (priority f), dedup_key := keep K ''dedup_key'' (dedup_key f)\<rparr>"

definition forget_optional :: "string set \<Rightarrow> 'v TaskMessage \<Rightarrow> 'v TaskMessage" where
  "forget_optional K m =
     TaskMessage (forget_fields K (mfields m)) (keep K ''chord_callback'' (chord_callback m))"

lemma slots_JObj_eq:
  "slots fs (JObj kvs) = Some f \<longleftrightarrow>
     (let known = filter (\<lambda>x. fst x \<in> fst ` set fs) kvs in distinct (map fst known) \<and> f = map_of known)"
proof -
  have "map_of (filter (\<lambda>x. fst x \<in> fst ` set fs) kvs)
      = (\<lambda>k. if k \<in> fst ` set fs then map_of kvs k else None)"
    by (induction kvs) (auto simp: fun_eq_iff)
  then show ?thesis by (auto simp: Let_def filter_map comp_def)
qed

lemma slots_other_version:
  assumes "slots fs (JObj kvs) = Some f" and "fst ` set extra \<inter> fst ` set fs = {}"
    and "mset kvs' = mset (filter (\<lambda>x. fst x \<notin> K) kvs @ extra)"
  shows "slots fs (JObj kvs') = Some (\<lambda>k. keep K k (f k))"
proof -
  let ?N = "fst ` set fs"
  let ?known = "filter (\<lambda>x. fst x \<in> ?N)"
  have known: "distinct (map fst (?known kvs))" "f = map_of (?known kvs)"
    using assms(1) unfolding slots_JObj_eq Let_def by simp_all
  have "?known extra = []" using assms(2) by (auto simp: filter_empty_conv)
  moreover have "mset (?known kvs') = mset (?known (filter (\<lambda>x. fst x \<notin> K) kvs @ extra))"
    by (simp only: mset_filter assms(3))
  ultimately have same: "mset (?known kvs') = mset (filter (\<lambda>x. fst x \<notin> K) (?known kvs))"
    by (simp add: conj_commute)
  have dist: "distinct (map fst (filter (\<lambda>x. fst x \<notin> K) (?known kvs)))"
    by (rule distinct_map_filter [OF known(1)])
  have "mset (map fst (?known kvs')) = mset (map fst (filter (\<lambda>x. fst x \<notin> K) (?known kvs)))"
    by (simp only: mset_map same)
  then have dist': "distinct (map fst (?known kvs'))" using dist mset_eq_imp_distinct_iff by blast
  have "map_of (?known kvs') = map_of (filter (\<lambda>x. fst x \<notin> K) (?known kvs))"
    using map_of_inject_set [OF dist' dist] mset_eq_setD [OF same] by blast
  moreover have "map_of (filter (\<lambda>x. fst x \<notin> K) xs) = (\<lambda>k. keep K k (map_of xs k))"
    for xs :: "(string \<times> json) list"
    by (induction xs) (auto simp: fun_eq_iff keep_def)
  ultimately show ?thesis
    unfolding slots_JObj_eq Let_def using dist' by (simp only: known(2) simp_thms)
qed

lemma optional_keep: "optional r x = Some y \<Longrightarrow> optional r (keep K k x) = Some (keep K k y)"
  by (simp add: keep_def optional_def)

lemma required_keep: "k \<notin> K \<Longrightarrow> required r (keep K k x) = required r x"
  by (simp add: keep_def)

lemma fields_of_keep:
  assumes "fields_of F f = Some fs" and "K \<subseteq> optional_keys"
  shows "fields_of F (\<lambda>k. keep K k (f k)) = Some (forget_fields K fs)"
proof -
  have "k \<notin> K" if "k \<notin> optional_keys" for k using assms(2) that by blast
  then have "''id'' \<notin> K" "''task_name'' \<notin> K" "''queue'' \<notin> K" "''payload'' \<notin> K" "''state'' \<notin> K"
    "''retries'' \<notin> K" "''max_retries'' \<notin> K" "''created_at'' \<notin> K" "''updated_at'' \<notin> K"
    "''headers'' \<notin> K"
    by (simp_all add: optional_keys_def)
  then show ?thesis
    using assms(1) unfolding fields_of_def
    by (clarsimp simp only: bind_eq_Some_conv) (simp add: required_keep optional_keep forget_fields_def)
qed

lemma message_of_doc_keep:
  assumes "message_of_doc F d = Some m" and "slots message_schema d = Some f"
    and "slots message_schema d' = Some (\<lambda>k. keep K k (f k))" and "K \<subseteq> optional_keys"
  shows "message_of_doc F d' = Some (forget_optional K m)"
proof -
  have "fields_of F f = Some (mfields m)"
    using assms(1,2)
    by (auto simp: message_of_doc.simps [of F d] bind_eq_Some_conv split: option.splits if_splits)
  note fields = fields_of_keep [OF this assms(4)]
  show ?thesis
    using assms(1-3)
    by (auto simp: message_of_doc.simps [of F d] message_of_doc.simps [of F d'] fields [unfolded keep_def]
        keep_def forget_optional_def bind_eq_Some_conv split: option.splits if_splits)
qed

subsection \<open>Texts\<close>

primrec depth :: "json \<Rightarrow> nat" where
  "depth JNull = 0"
| "depth (JBool b) = 0"
| "depth (JInt i) = 0"
| "depth (JFloat s) = 0"
| "depth (JStr s) = 0"
| "depth (JArr ds) = Suc (fold max (map depth ds) 0)"
| "depth (JObj kvs) = Suc (fold max (map snd (map (map_prod (\<lambda>k. k) depth) kvs)) 0)"

text \<open>
  What the texts promise: a document that is not nested too deeply reads back; a string that
  needs no escapes stands in the text of its object as it is; UUIDs need no escapes; Lua finds
  the field of an object.
\<close>

definition unescaped :: "string \<Rightarrow> bool" where
  "unescaped s \<longleftrightarrow> list_all (\<lambda>c. 0x20 \<le> (of_char c :: nat) \<and> c \<noteq> CHR ''\"'' \<and> c \<noteq> CHR 0x5C) s"

definition texts_ok :: "'v wire_formats \<Rightarrow> (string \<Rightarrow> string) \<Rightarrow> bool" where
  "texts_ok F lua_queue \<longleftrightarrow>
     (\<forall>d. depth d \<le> wf_depth F \<longrightarrow> wf_parse F (wf_print F d) = Inr d) \<and>
     (\<forall>kvs k s. (k, JStr s) \<in> set kvs \<and> unescaped s \<longrightarrow> str_contains s (wf_print F (JObj kvs))) \<and>
     (\<forall>u. unescaped (wf_uuid F u)) \<and>
     (\<forall>kvs q. depth (JObj kvs) \<le> wf_depth F \<and> distinct (map fst kvs) \<and> (''queue'', JStr q) \<in> set kvs \<longrightarrow>
        lua_queue (wf_print F (JObj kvs)) = q)"

definition wire_ok :: "'v wire_formats \<Rightarrow> 'v TaskMessage \<Rightarrow> bool" where
  "wire_ok F m \<longleftrightarrow> sendable F m \<and> depth (message_doc F m) \<le> wf_depth F"

lemma wire_encodes:
  assumes "formats_ok F" and "texts_ok F lq" and "wire_ok F m"
  shows "encodes (wire_json F lq) (wf_print F (message_doc F m)) m"
proof -
  have "message_of_doc F (message_doc F m) = Some m"
    using assms(1,3) by (intro message_roundtrip) (simp_all add: wire_ok_def)
  with assms(2,3) show ?thesis
    by (simp add: encodes_def wire_json_def doc_from_def texts_ok_def wire_ok_def)
qed

lemma message_doc_eq:
  "message_doc F m = JObj (write_struct (message_entries F (mfields m)
     (map_option (message_doc F) (chord_callback m))))"
  by (cases m) simp

lemma wire_contains_id:
  assumes "texts_ok F lq"
  shows "str_contains (taskid_display (wf_uuid F) (msg_id m)) (wf_print F (message_doc F m))"
proof -
  have "(''id'', JStr (wf_uuid F (as_uuid (msg_id m))))
      \<in> set (write_struct (message_entries F (mfields m) (map_option (message_doc F) (chord_callback m))))"
    by (simp add: message_entries_def taskid_doc_def)
  with assms show ?thesis
    unfolding message_doc_eq [of F m] taskid_display_def texts_ok_def by blast
qed

lemma wire_lua_queue:
  assumes "texts_ok F lq" and "wire_ok F m"
  shows "lq (wf_print F (message_doc F m)) = msg_queue m"
proof -
  let ?es = "message_entries F (mfields m) (map_option (message_doc F) (chord_callback m))"
  have "distinct (map fst (write_struct ?es))"
    by (rule distinct_write_struct) (simp add: message_entries_def)
  moreover have "(''queue'', JStr (msg_queue m)) \<in> set (write_struct ?es)"
    by (simp add: message_entries_def)
  moreover have "depth (JObj (write_struct ?es)) \<le> wf_depth F"
    using assms(2) unfolding wire_ok_def message_doc_eq [of F m] by blast
  ultimately show ?thesis
    using assms(1) unfolding message_doc_eq [of F m] texts_ok_def by blast
qed

subsection \<open>A worker on Redis\<close>

lemma sendable_eq:
  "sendable F m \<longleftrightarrow> part_ok F (payload (mfields m)) (headers (mfields m)) \<and>
     pred_option (\<lambda>b. b) (map_option (sendable F) (chord_callback m))"
  by (cases m) simp

lemma depth_leaf [simp]:
  "depth (taskid_doc F i) = 0" "depth (time_doc F t) = 0" "depth (word_doc n) = 0" "depth (state_doc st) = 0"
  by (simp_all add: taskid_doc_def time_doc_def word_doc_def state_doc_display)

lemma depth_headers [simp]: "depth (headers_doc F h) = Suc 0"
proof -
  have "fold max (map (\<lambda>x. 0) xs) 0 = (0 :: nat)" for xs :: "(string \<times> string) list"
    by (induction xs) simp_all
  then show ?thesis by (simp add: headers_doc_def comp_def case_prod_beta)
qed

definition option_depth :: "json option \<Rightarrow> nat" where
  "option_depth x = (case x of None \<Rightarrow> 0 | Some d \<Rightarrow> depth d)"

lemma option_depth_simps [simp]: "option_depth None = 0" "option_depth (Some d) = depth d"
  by (simp_all add: option_depth_def)

lemma option_depth_leaf [simp]:
  "option_depth (map_option (taskid_doc F) i) = 0" "option_depth (map_option word_doc n) = 0"
  "option_depth (map_option JStr s) = 0" "depth (option_doc (time_doc F) t) = 0"
  by (simp_all add: option_depth_def option_doc_def split: option.split)

lemma depth_write_struct:
  "depth (JObj (write_struct es)) = Suc (fold max (map (\<lambda>e. option_depth (snd e)) es) 0)"
proof -
  have "fold max (map (depth \<circ> snd) (write_struct es)) n = fold max (map (\<lambda>e. option_depth (snd e)) es) n" for n
    by (induction es arbitrary: n rule: write_struct.induct) simp_all
  then show ?thesis by simp
qed

lemma depth_message_doc:
  "depth (message_doc F m) = Suc (max (option_depth (map_option (message_doc F) (chord_callback m)))
     (max 1 (depth (wf_value F (payload (mfields m))))))"
  unfolding message_doc_eq [of F m] depth_write_struct by (simp add: message_entries_def)

lemma depth_signature_doc: "depth (signature_doc F s) = Suc (max 1 (depth (wf_value F (sig_payload s))))"
  unfolding signature_doc_def depth_write_struct by (simp add: signature_entries_def)

lemma wire_ok_eq:
  "wire_ok F m \<longleftrightarrow> part_ok F (payload (mfields m)) (headers (mfields m)) \<and>
     pred_option (\<lambda>b. b) (map_option (sendable F) (chord_callback m)) \<and>
     Suc (max (option_depth (map_option (message_doc F) (chord_callback m)))
       (max 1 (depth (wf_value F (payload (mfields m)))))) \<le> wf_depth F"
  unfolding wire_ok_def sendable_eq [of F m] depth_message_doc by simp

lemma wire_ok_same_task: "same_task m n \<Longrightarrow> wire_ok F m \<Longrightarrow> wire_ok F n"
  unfolding wire_ok_eq by (simp add: same_task_def)

lemma wire_redis_good:
  assumes "formats_ok F" and "texts_ok F lq" and "wire_ok F m" and "dedup_key (mfields m) = None"
  shows "redis_good (wire_json F lq) (wf_uuid F) m"
  unfolding redis_good_def codes_def
  using wire_encodes [OF assms(1,2) wire_ok_same_task [OF _ assms(3)]] wire_contains_id [OF assms(2)]
    assms(4) by blast

text \<open>The rest of a chain travels as the text of an array of signatures.\<close>

definition sigs_ok :: "'v wire_formats \<Rightarrow> 'v Signature list \<Rightarrow> bool" where
  "sigs_ok F ss \<longleftrightarrow>
     list_all (\<lambda>s. part_ok F (sig_payload s) (sig_headers s) \<and> Suc (depth (signature_doc F s)) \<le> wf_depth F) ss"

lemma depth_JArr_le: "depth (JArr ds) \<le> n \<longleftrightarrow> 0 < n \<and> (\<forall>d\<in>set ds. Suc (depth d) \<le> n)"
proof -
  have "fold max xs k \<le> j \<longleftrightarrow> k \<le> j \<and> (\<forall>x\<in>set xs. x \<le> j)" for xs :: "nat list" and k j
    by (induction xs arbitrary: k) auto
  then show ?thesis by (cases n) auto
qed

lemma wire_sigs_round_trip:
  assumes "formats_ok F" and "texts_ok F lq" and "sigs_ok F ss" and "0 < wf_depth F"
  shows "sigs_from_str (wire_serde F) (wf_print F (JArr (map (signature_doc F) ss))) = Inr ss"
proof -
  have "\<forall>s\<in>set ss. signature_of_doc F (signature_doc F s) = Some s"
    using assms(1,3) by (auto simp: sigs_ok_def list_all_iff intro!: signature_roundtrip)
  note read = read_all_map [OF this]
  have "depth (JArr (map (signature_doc F) ss)) \<le> wf_depth F"
    using assms(3,4) by (simp only: depth_JArr_le) (auto simp: sigs_ok_def list_all_iff)
  then have "wf_parse F (wf_print F (JArr (map (signature_doc F) ss)))
      = Inr (JArr (map (signature_doc F) ss))"
    using assms(2) unfolding texts_ok_def by blast
  then show ?thesis by (simp add: wire_serde_def doc_from_def read)
qed

lemma wire_chain_serde:
  assumes "formats_ok F" and "texts_ok F lq" and "0 < wf_depth F"
  shows "sigs_ok F ss \<Longrightarrow> chain_serde (wire_serde F) ss"
proof (induction ss)
  case (Cons s ss)
  have "sigs_to_str (wire_serde F) (s # ss) = Inr (wf_print F (JArr (map (signature_doc F) (s # ss))))"
    by (simp add: wire_serde_def)
  with wire_sigs_round_trip [OF assms(1,2) Cons.prems assms(3)] Cons.IH Cons.prems show ?case
    by (simp add: sigs_ok_def)
qed simp

text \<open>What the worker adds to the next message of a chain keeps it fit for the wire.\<close>

lemma wire_ok_with_header: "wire_ok F m \<Longrightarrow> wire_ok F (with_header k v m)"
  unfolding wire_ok_eq by (simp add: with_header_def part_ok_def)

lemma wire_ok_with_correlation_id: "wire_ok F m \<Longrightarrow> wire_ok F (with_correlation_id c m)"
  unfolding wire_ok_eq by (simp add: with_correlation_id_def)

lemma wire_ok_into_message:
  "part_ok F (sig_payload s) (sig_headers s) \<Longrightarrow> depth (signature_doc F s) \<le> wf_depth F \<Longrightarrow>
    wire_ok F (into_message u t s)"
  unfolding wire_ok_eq depth_signature_doc by (simp add: into_message_fields into_message_callback)

lemma wire_ok_next_chain_message:
  assumes "sigs_ok F (s # ss)"
  shows "wire_ok F (next_chain_message S u t corr v s ss)"
  using assms
  by (auto simp: next_chain_message_def Let_def sigs_ok_def split: sum.split option.split
      intro!: wire_ok_with_header wire_ok_with_correlation_id wire_ok_into_message)

end
