(* ===== verification/Kojin_Wire_Ref.thy ===== *)
theory Kojin_Wire_Ref
  imports Kojin_Wire "HOL-Library.List_Lexorder" "HOL-Library.Char_ord"
begin

text \<open>
  An executable reference of the formats that \<open>Kojin_Wire\<close> leaves to other crates: a notation
  close to JSON, with its parser and the proof that every document reads back. Values are
  documents themselves. It shows that the promises \<open>formats_ok\<close> and \<open>texts_ok\<close> can be kept together,
  and serves the examples.
\<close>

subsection \<open>Numbers\<close>

definition hex_value :: "char \<Rightarrow> nat" where
  "hex_value c = length (takeWhile (\<lambda>d. d \<noteq> c) ''0123456789abcdef'')"

definition of_hex :: "string \<Rightarrow> nat" where
  "of_hex s = foldl (\<lambda>n c. 16 * n + hex_value c) 0 s"

lemma less_16_cases: "d < 16 \<Longrightarrow> d \<in> {0, 1, 2, 3, 4, 5, 6, 7, 8, 9, 10, 11, 12, 13, 14, 15 :: nat}"
  by (simp only: insert_iff empty_iff) presburger

lemma hex_value_digit: "d < 16 \<Longrightarrow> hex_value (hex_digit d) = d"
  by (drule less_16_cases) (auto simp: hex_value_def hex_digit_def)

lemma of_hex_to_hex: "of_hex (to_hex n) = n"
proof (induction n rule: to_hex.induct)
  case (1 n)
  show ?case
  proof (cases "n < 16")
    case True
    then show ?thesis by (simp add: to_hex.simps [of n] of_hex_def hex_value_digit)
  next
    case False
    with 1 have "of_hex (to_hex (n div 16)) = n div 16" by simp
    with False show ?thesis by (simp add: to_hex.simps [of n] of_hex_def hex_value_digit)
  qed
qed

lemma set_to_hex: "set (to_hex n) \<subseteq> set ''0123456789abcdef''"
proof (induction n rule: to_hex.induct)
  case (1 n)
  have "hex_digit d \<in> set ''0123456789abcdef''" if "d < 16" for d
    unfolding hex_digit_def by (rule nth_mem) (use that in simp)
  with 1 show ?case by (simp add: to_hex.simps [of n])
qed

definition int_text :: "int \<Rightarrow> string" where
  "int_text i = (if i < 0 then CHR ''-'' else CHR ''+'') # to_hex (nat \<bar>i\<bar>)"

fun int_from_text :: "string \<Rightarrow> int option" where
  "int_from_text [] = None"
| "int_from_text (c # s) = Some (if c = CHR ''-'' then - int (of_hex s) else int (of_hex s))"

lemma int_from_int_text: "int_from_text (int_text i) = Some i"
  by (simp add: int_text_def of_hex_to_hex)

lemma int_text_chars: "c \<in> set (int_text i) \<Longrightarrow> c \<noteq> CHR ''.''"
  using set_to_hex [of "nat \<bar>i\<bar>"] by (auto simp: int_text_def split: if_splits)

subsection \<open>Strings\<close>

abbreviation backslash :: char where
  "backslash \<equiv> CHR 0x5C"

fun quoted :: "string \<Rightarrow> string" where
  "quoted [] = [CHR ''\"'']"
| "quoted (c # cs) =
     (if c = CHR ''\"'' \<or> c = backslash then backslash # c # quoted cs else c # quoted cs)"

fun unquote :: "string \<Rightarrow> (string \<times> string) option" where
  "unquote [] = None"
| "unquote (c # cs) =
     (if c = CHR ''\"'' then Some ([], cs)
      else if c = backslash then
        (case cs of [] \<Rightarrow> None | d # ds \<Rightarrow> map_option (apfst ((#) d)) (unquote ds))
      else map_option (apfst ((#) c)) (unquote cs))"

lemma unquote_quoted: "unquote (quoted s @ r) = Some (s, r)"
  by (induction s) simp_all

lemma quoted_unescaped: "unescaped s \<Longrightarrow> quoted s = s @ [CHR ''\"'']"
  by (induction s) (auto simp: unescaped_def)

subsection \<open>Documents\<close>

primrec ref_print :: "json \<Rightarrow> string" where
  "ref_print JNull = ''n''"
| "ref_print (JBool b) = (if b then ''t'' else ''f'')"
| "ref_print (JInt i) = CHR ''i'' # int_text i @ ''.''"
| "ref_print (JFloat s) = CHR ''e'' # quoted s"
| "ref_print (JStr s) = CHR ''\"'' # quoted s"
| "ref_print (JArr ds) = CHR ''['' # concat (map ref_print ds) @ '']''"
| "ref_print (JObj kvs) =
     CHR ''{'' # concat (map (\<lambda>(k, t). CHR '':'' # quoted k @ t) (map (map_prod (\<lambda>k. k) ref_print) kvs)) @ ''}''"

fun ref_doc :: "nat \<Rightarrow> string \<Rightarrow> (json \<times> string) option"
  and ref_items :: "nat \<Rightarrow> string \<Rightarrow> (json list \<times> string) option"
  and ref_fields :: "nat \<Rightarrow> string \<Rightarrow> ((string \<times> json) list \<times> string) option"
where
  "ref_doc (Suc n) (c # cs) =
     (if c = CHR ''n'' then Some (JNull, cs)
      else if c = CHR ''t'' then Some (JBool True, cs)
      else if c = CHR ''f'' then Some (JBool False, cs)
      else if c = CHR ''i'' then
        map_option (\<lambda>i. (JInt i, tl (dropWhile (\<lambda>x. x \<noteq> CHR ''.'') cs)))
          (int_from_text (takeWhile (\<lambda>x. x \<noteq> CHR ''.'') cs))
      else if c = CHR ''e'' then map_option (apfst JFloat) (unquote cs)
      else if c = CHR ''\"'' then map_option (apfst JStr) (unquote cs)
      else if c = CHR ''['' then map_option (apfst JArr) (ref_items n cs)
      else if c = CHR ''{'' then map_option (apfst JObj) (ref_fields n cs)
      else None)"
| "ref_doc _ _ = None"
| "ref_items (Suc n) s =
     (if s \<noteq> [] \<and> hd s = CHR '']'' then Some ([], tl s)
      else do { (d, r) \<leftarrow> ref_doc n s; (ds, r') \<leftarrow> ref_items n r; Some (d # ds, r') })"
| "ref_items 0 s = None"
| "ref_fields (Suc n) s =
     (if s \<noteq> [] \<and> hd s = CHR ''}'' then Some ([], tl s)
      else do { (k, r) \<leftarrow> unquote (tl s); (d, r') \<leftarrow> ref_doc n r; (kvs, r'') \<leftarrow> ref_fields n r';
        Some ((k, d) # kvs, r'') })"
| "ref_fields 0 s = None"

definition ref_parse :: "string \<Rightarrow> string + json" where
  "ref_parse s = (case ref_doc (length s) s of Some (d, []) \<Rightarrow> Inr d | _ \<Rightarrow> Inl ''syntax'')"

lemma span_int_text:
  "takeWhile (\<lambda>x. x \<noteq> CHR ''.'') (int_text i @ CHR ''.'' # r) = int_text i"
  "dropWhile (\<lambda>x. x \<noteq> CHR ''.'') (int_text i @ CHR ''.'' # r) = CHR ''.'' # r"
  using int_text_chars [of _ i] by (auto simp: takeWhile_append dropWhile_append)

lemma ref_print_start: "\<exists>c t. ref_print d = c # t \<and> c \<noteq> CHR '']''"
  by (cases d) simp_all

definition reads :: "json \<Rightarrow> bool" where
  "reads d \<longleftrightarrow> (\<forall>n r. length (ref_print d) \<le> n \<longrightarrow> ref_doc n (ref_print d @ r) = Some (d, r))"

lemma ref_items_concat:
  assumes "\<forall>d\<in>set ds. reads d"
  shows "Suc (length (concat (map ref_print ds))) \<le> n \<Longrightarrow>
    ref_items n (concat (map ref_print ds) @ CHR '']'' # r) = Some (ds, r)"
  using assms
proof (induction ds arbitrary: n)
  case Nil
  then show ?case by (cases n) simp_all
next
  case (Cons d ds)
  obtain c t where d: "ref_print d = c # t" "c \<noteq> CHR '']''" using ref_print_start by blast
  obtain m where n: "n = Suc m" using Cons.prems by (cases n) simp_all
  let ?r = "concat (map ref_print ds) @ CHR '']'' # r"
  have "ref_doc m (ref_print d @ ?r) = Some (d, ?r)"
    using Cons.prems n d by (simp add: reads_def)
  moreover have "ref_items m ?r = Some (ds, r)"
    using Cons.prems n d by (intro Cons.IH) simp_all
  ultimately show ?case using d by (simp add: n)
qed

abbreviation field_text :: "string \<times> json \<Rightarrow> string" where
  "field_text kv \<equiv> CHR '':'' # quoted (fst kv) @ ref_print (snd kv)"

lemma ref_fields_concat:
  assumes "\<forall>kv\<in>set kvs. reads (snd kv)"
  shows "Suc (length (concat (map field_text kvs))) \<le> n \<Longrightarrow>
    ref_fields n (concat (map field_text kvs) @ CHR ''}'' # r) = Some (kvs, r)"
  using assms
proof (induction kvs arbitrary: n)
  case Nil
  then show ?case by (cases n) simp_all
next
  case (Cons kv kvs)
  obtain m where n: "n = Suc m" using Cons.prems by (cases n) simp_all
  let ?r = "concat (map field_text kvs) @ CHR ''}'' # r"
  have "ref_doc m (ref_print (snd kv) @ ?r) = Some (snd kv, ?r)"
    using Cons.prems n by (simp add: reads_def)
  moreover have "ref_fields m ?r = Some (kvs, r)"
    using Cons.prems n by (intro Cons.IH) simp_all
  ultimately show ?case by (simp add: n unquote_quoted)
qed

lemma ref_print_JObj: "ref_print (JObj kvs) = CHR ''{'' # concat (map field_text kvs) @ ''}''"
  by (simp add: comp_def case_prod_beta)

lemma reads_Suc:
  assumes "\<And>n r. length (ref_print d) \<le> Suc n \<Longrightarrow> ref_doc (Suc n) (ref_print d @ r) = Some (d, r)"
  shows "reads d"
  unfolding reads_def
proof (intro allI impI)
  fix n r assume "length (ref_print d) \<le> n"
  then show "ref_doc n (ref_print d @ r) = Some (d, r)"
    using ref_print_start [of d] assms by (cases n) auto
qed

lemma ref_doc_print: "reads d"
proof (induction d)
  case (JArr ds)
  then have "\<forall>d\<in>set ds. reads d" by blast
  then show ?case by (intro reads_Suc) (simp add: ref_items_concat)
next
  case (JObj kvs)
  then have "\<forall>kv\<in>set kvs. reads (snd kv)" by (metis prod.collapse snds.intros)
  then show ?case by (intro reads_Suc) (simp add: ref_print_JObj ref_fields_concat del: ref_print.simps)
qed (rule reads_Suc, simp add: unquote_quoted span_int_text int_from_int_text)+

lemma ref_parse_print: "ref_parse (ref_print d) = Inr d"
proof -
  have "ref_doc (length (ref_print d)) (ref_print d @ []) = Some (d, [])"
    using ref_doc_print [of d] unfolding reads_def by blast
  then show ?thesis by (simp add: ref_parse_def)
qed

subsection \<open>The formats\<close>

definition ref_uuid_from :: "string \<Rightarrow> uuid option" where
  "ref_uuid_from s = Some (of_nat (of_hex s))"

definition ref_iter :: "(string \<rightharpoonup> string) \<Rightarrow> (string \<times> string) list" where
  "ref_iter h = map (\<lambda>k. (k, the (h k))) (sorted_list_of_set (dom h))"

definition ref_formats :: "json wire_formats" where
  "ref_formats =
     \<lparr>wf_uuid = (\<lambda>u. to_hex (unat u)), wf_uuid_from = ref_uuid_from, wf_time = int_text,
      wf_time_from = int_from_text, wf_value = (\<lambda>v. v), wf_value_from = (\<lambda>d. d), wf_iter = ref_iter,
      wf_print = ref_print, wf_parse = ref_parse, wf_explain = (\<lambda>d. ''data''), wf_depth = 127\<rparr>"

definition ref_lua_queue :: "string \<Rightarrow> string" where
  "ref_lua_queue s =
     (case ref_parse s of
        Inr (JObj kvs) \<Rightarrow> (case map_of kvs ''queue'' of Some (JStr q) \<Rightarrow> q | _ \<Rightarrow> [])
      | _ \<Rightarrow> [])"

lemma ref_iter_ok:
  assumes "finite (dom h)"
  shows "distinct (map fst (ref_iter h))" "map_of (ref_iter h) = h"
proof -
  show "distinct (map fst (ref_iter h))" by (simp add: ref_iter_def comp_def)
  have "map_of (map (\<lambda>k. (k, the (h k))) ks) = (\<lambda>k. if k \<in> set ks then Some (the (h k)) else None)" for ks
    by (induction ks) auto
  then show "map_of (ref_iter h) = h" using assms by (auto simp: ref_iter_def fun_eq_iff domIff)
qed

lemma ref_formats_ok: "formats_ok ref_formats"
  by (simp add: formats_ok_def ref_formats_def ref_uuid_from_def of_hex_to_hex int_from_int_text ref_iter_ok)

lemma contains_middle: "str_contains s (a @ s @ b)"
  by (induction a) (simp_all add: starts_with_contains starts_with_def)

lemma ref_print_contains:
  assumes "(k, JStr s) \<in> set kvs" and "unescaped s"
  shows "str_contains s (ref_print (JObj kvs))"
proof -
  obtain xs ys where "kvs = xs @ (k, JStr s) # ys" using assms(1) by (meson split_list)
  then have "ref_print (JObj kvs) = (CHR ''{'' # concat (map field_text xs) @ CHR '':'' # quoted k @ ''\"'')
      @ s @ ''\"'' @ concat (map field_text ys) @ ''}''"
    unfolding ref_print_JObj by (simp add: quoted_unescaped [OF assms(2)])
  then show ?thesis by (simp only: contains_middle)
qed

lemma ref_texts_ok: "texts_ok ref_formats ref_lua_queue"
proof -
  have "unescaped (to_hex n)" for n
  proof -
    have "unescaped ''0123456789abcdef''" by (simp add: unescaped_def)
    then show ?thesis using set_to_hex [of n] by (auto simp only: unescaped_def list_all_iff)
  qed
  moreover have "ref_lua_queue (ref_print (JObj kvs)) = q"
    if "distinct (map fst kvs)" "(''queue'', JStr q) \<in> set kvs" for kvs q
    using map_of_is_SomeI [OF that] by (simp add: ref_lua_queue_def ref_parse_print del: ref_print.simps)
  ultimately show ?thesis
    by (auto simp: texts_ok_def ref_formats_def ref_parse_print intro: ref_print_contains simp del: ref_print.simps)
qed

end
