(* ===== verification/Kojin_Agent_Wire.thy ===== *)
theory Kojin_Agent_Wire
  imports Kojin_Agent Kojin_Wire_Ref
begin

text \<open>
  The JSON form of the types of the \<open>kojin-agent\<close> crate (\<open>runner.rs\<close>, \<open>task.rs\<close>, \<open>sdd.rs\<close>): what their
  derived serde implementations write and read, and that the two task types reach a worker
  unchanged. A payload is a \<open>serde_json::Value\<close>; \<open>to_value\<close> and \<open>from_value\<close> go through the documents of
  \<open>Kojin_Wire\<close>. Of a value made from a document only the order of the keys of its objects may
  differ (\<open>values_ok\<close>). A path is written as text and fails to be written when it is not UTF-8
  (\<open>fa_utf8\<close>); the formats of \<open>f64\<close> are parameters.
\<close>

record 'f agent_formats =
  fa_float :: "'f \<Rightarrow> json"
  fa_float_from :: "json \<Rightarrow> 'f option"
  fa_utf8 :: "string \<Rightarrow> bool"

abbreviation strings_doc :: "string list \<Rightarrow> json" where
  "strings_doc ss \<equiv> JArr (map JStr ss)"

subsection \<open>Arguments and outputs of a run (runner.rs)\<close>

definition run_args_entries :: "'f agent_formats \<Rightarrow> 'f RunArgs \<Rightarrow> (string \<times> json option) list" where
  "run_args_entries P a =
     [(''model'', Some (option_doc JStr (ra_model a))),
      (''system_prompt'', Some (option_doc JStr (ra_system_prompt a))),
      (''max_turns'', Some (option_doc word_doc (ra_max_turns a))),
      (''max_budget_usd'', Some (option_doc (fa_float P) (ra_max_budget_usd a))),
      (''allowed_tools'', Some (option_doc strings_doc (ra_allowed_tools a))),
      (''cwd'', Some (option_doc JStr (ra_cwd a)))]"

definition run_args_doc :: "'f agent_formats \<Rightarrow> 'f RunArgs \<Rightarrow> json option" where
  "run_args_doc P a =
     (if pred_option (fa_utf8 P) (ra_cwd a) then Some (JObj (write_struct (run_args_entries P a))) else None)"

definition run_args_schema :: "(string \<times> bool) list" where
  "run_args_schema =
     [(''model'', False), (''system_prompt'', False), (''max_turns'', False), (''max_budget_usd'', False),
      (''allowed_tools'', False), (''cwd'', False)]"

definition run_args_of_doc :: "'f agent_formats \<Rightarrow> json \<Rightarrow> 'f RunArgs option" where
  "run_args_of_doc P d = do {
     f \<leftarrow> slots run_args_schema d;
     m \<leftarrow> optional str_of_doc (f ''model'');
     s \<leftarrow> optional str_of_doc (f ''system_prompt'');
     t \<leftarrow> optional word_of_doc (f ''max_turns'');
     b \<leftarrow> optional (fa_float_from P) (f ''max_budget_usd'');
     a \<leftarrow> optional (vec_of_doc str_of_doc) (f ''allowed_tools'');
     c \<leftarrow> optional str_of_doc (f ''cwd'');
     Some \<lparr>ra_model = m, ra_system_prompt = s, ra_max_turns = t, ra_max_budget_usd = b,
       ra_allowed_tools = a, ra_cwd = c\<rparr> }"

definition run_output_doc :: "'f agent_formats \<Rightarrow> 'f RunOutput \<Rightarrow> json" where
  "run_output_doc P r = JObj (write_struct
     [(''result'', Some (JStr (ro_result r))),
      (''session_id'', Some (option_doc JStr (ro_session_id r))),
      (''cost_usd'', Some (option_doc (fa_float P) (ro_cost_usd r))),
      (''duration_ms'', Some (option_doc word_doc (ro_duration_ms r))),
      (''num_turns'', Some (option_doc word_doc (ro_num_turns r)))])"

text \<open>The report of the process has the same fields, all of them optional.\<close>

definition raw_output_of_doc :: "'f agent_formats \<Rightarrow> json \<Rightarrow> 'f RawOutput option" where
  "raw_output_of_doc P d = do {
     f \<leftarrow> slots [(''result'', False), (''session_id'', False), (''cost_usd'', False), (''duration_ms'', False),
            (''num_turns'', False)] d;
     r \<leftarrow> optional str_of_doc (f ''result'');
     s \<leftarrow> optional str_of_doc (f ''session_id'');
     c \<leftarrow> optional (fa_float_from P) (f ''cost_usd'');
     m \<leftarrow> optional word_of_doc (f ''duration_ms'');
     n \<leftarrow> optional word_of_doc (f ''num_turns'');
     Some \<lparr>raw_result = r, raw_session_id = s, raw_cost_usd = c, raw_duration_ms = m, raw_num_turns = n\<rparr> }"

subsection \<open>The tasks (task.rs, sdd.rs)\<close>

definition claude_task_doc :: "'f agent_formats \<Rightarrow> 'f ClaudeCodeTask \<Rightarrow> json option" where
  "claude_task_doc P t = map_option (\<lambda>a. JObj (write_struct
     [(''prompt'', Some (JStr (cc_prompt t))), (''args'', Some a)])) (run_args_doc P (cc_args t))"

definition claude_task_of_doc :: "'f agent_formats \<Rightarrow> json \<Rightarrow> 'f ClaudeCodeTask option" where
  "claude_task_of_doc P d = do {
     f \<leftarrow> slots [(''prompt'', False), (''args'', False)] d;
     p \<leftarrow> required str_of_doc (f ''prompt'');
     a \<leftarrow> required (run_args_of_doc P) (f ''args'');
     Some \<lparr>cc_prompt = p, cc_args = a\<rparr> }"

definition sdd_task_doc :: "'f agent_formats \<Rightarrow> 'f SddTask \<Rightarrow> json option" where
  "sdd_task_doc P t =
     (if pred_option (fa_utf8 P) (sdd_cwd t)
      then map_option (\<lambda>a. JObj (write_struct
        [(''spec'', Some (JStr (sdd_spec t))),
         (''test_command'', Some (strings_doc (sdd_test_command t))),
         (''cwd'', Some (option_doc JStr (sdd_cwd t))),
         (''max_fix_attempts'', Some (word_doc (sdd_max_fix_attempts t))),
         (''args'', Some a)])) (run_args_doc P (sdd_args t))
      else None)"

definition sdd_task_of_doc :: "'f agent_formats \<Rightarrow> json \<Rightarrow> 'f SddTask option" where
  "sdd_task_of_doc P d = do {
     f \<leftarrow> slots [(''spec'', False), (''test_command'', False), (''cwd'', False), (''max_fix_attempts'', False),
            (''args'', False)] d;
     s \<leftarrow> required str_of_doc (f ''spec'');
     t \<leftarrow> required (vec_of_doc str_of_doc) (f ''test_command'');
     c \<leftarrow> optional str_of_doc (f ''cwd'');
     m \<leftarrow> required word_of_doc (f ''max_fix_attempts'');
     a \<leftarrow> required (run_args_of_doc P) (f ''args'');
     Some \<lparr>sdd_spec = s, sdd_test_command = t, sdd_cwd = c, sdd_max_fix_attempts = m, sdd_args = a\<rparr> }"

definition sdd_output_doc :: "'f agent_formats \<Rightarrow> 'f SddOutput \<Rightarrow> json" where
  "sdd_output_doc P r = JObj (write_struct
     [(''passed'', Some (JBool (so_passed r))),
      (''attempts'', Some (word_doc (so_attempts r))),
      (''gen_output'', Some (run_output_doc P (so_gen_output r))),
      (''fix_outputs'', Some (JArr (map (run_output_doc P) (so_fix_outputs r)))),
      (''last_test_stdout'', Some (JStr (so_last_test_stdout r))),
      (''last_test_stderr'', Some (JStr (so_last_test_stderr r)))])"

subsection \<open>Values\<close>

definition doc_to_value :: "'v wire_formats \<Rightarrow> json option \<Rightarrow> string + 'v" where
  "doc_to_value F x =
     (case x of None \<Rightarrow> Inl ''path contains invalid UTF-8 characters'' | Some d \<Rightarrow> Inr (wf_value_from F d))"

definition doc_from_value :: "'v wire_formats \<Rightarrow> (json \<Rightarrow> 'a option) \<Rightarrow> 'v \<Rightarrow> string + 'a" where
  "doc_from_value F r v =
     (case r (wf_value F v) of None \<Rightarrow> Inl (wf_explain F (wf_value F v)) | Some x \<Rightarrow> Inr x)"

definition wire_claude_task :: "'v wire_formats \<Rightarrow> 'f agent_formats \<Rightarrow> 'k \<Rightarrow> ('a \<Rightarrow> ('f, 'x) ClaudeRunner) \<Rightarrow>
    ('f ClaudeCodeTask, 'f RunOutput, 'v, ('k, 'a) TaskContext, 'x) Task" where
  "wire_claude_task F P rt as_runner =
     claude_code_task rt as_runner (doc_from_value F (claude_task_of_doc P))
       (\<lambda>t. doc_to_value F (claude_task_doc P t)) (\<lambda>r. Inr (wf_value_from F (run_output_doc P r)))"

definition wire_sdd_task :: "'v wire_formats \<Rightarrow> 'f agent_formats \<Rightarrow> ('f, 'x) process_api \<Rightarrow> 'k \<Rightarrow>
    ('a \<Rightarrow> ('f, 'x) ClaudeRunner) \<Rightarrow> ('f SddTask, 'f SddOutput, 'v, ('k, 'a) TaskContext, 'x) Task" where
  "wire_sdd_task F P A rt as_runner =
     sdd_task A rt as_runner (doc_from_value F (sdd_task_of_doc P))
       (\<lambda>t. doc_to_value F (sdd_task_doc P t)) (\<lambda>r. Inr (wf_value_from F (sdd_output_doc P r)))"

subsection \<open>Reading back\<close>

definition norm_doc :: "'v wire_formats \<Rightarrow> json \<Rightarrow> json" where
  "norm_doc F d = wf_value F (wf_value_from F d)"

definition values_ok :: "'v wire_formats \<Rightarrow> bool" where
  "values_ok F \<longleftrightarrow>
     norm_doc F JNull = JNull \<and> (\<forall>b. norm_doc F (JBool b) = JBool b) \<and> (\<forall>s. norm_doc F (JStr s) = JStr s) \<and>
     (\<forall>i. 0 \<le> i \<and> i < 2 ^ 64 \<longrightarrow> norm_doc F (JInt i) = JInt i) \<and>
     (\<forall>ds. norm_doc F (JArr ds) = JArr (map (norm_doc F) ds)) \<and>
     (\<forall>kvs. distinct (map fst kvs) \<longrightarrow> (\<exists>kvs'. norm_doc F (JObj kvs) = JObj kvs' \<and>
        mset kvs' = mset (map (map_prod (\<lambda>k. k) (norm_doc F)) kvs)))"

text \<open>The spending limit is a number that JSON can carry.\<close>

definition budget_ok :: "'v wire_formats \<Rightarrow> 'f agent_formats \<Rightarrow> 'f RunArgs \<Rightarrow> bool" where
  "budget_ok F P a \<longleftrightarrow>
     pred_option (\<lambda>b. fa_float_from P (norm_doc F (fa_float P b)) = Some b \<and> norm_doc F (fa_float P b) \<noteq> JNull)
       (ra_max_budget_usd a)"

lemma values_ok_simps:
  assumes "values_ok F"
  shows "norm_doc F JNull = JNull" "norm_doc F (JStr s) = JStr s"
    "norm_doc F (strings_doc ss) = strings_doc ss"
    "norm_doc F (word_doc (n :: u32)) = word_doc n"
  using assms uint_bounded [of n] by (simp_all add: values_ok_def word_doc_def comp_def)

lemma write_struct_map:
  "map (map_prod (\<lambda>k. k) g) (write_struct es) = write_struct (map (map_prod (\<lambda>k. k) (map_option g)) es)"
  by (induction es rule: write_struct.induct) simp_all

lemma slots_norm_doc:
  assumes "values_ok F" and "map fst es = map fst sch" and "distinct (map fst sch)"
  shows "slots sch (norm_doc F (JObj (write_struct es)))
    = Some (\<lambda>k. map_option (norm_doc F) (Option.bind (map_of es k) (\<lambda>x. x)))"
proof -
  let ?n = "map_prod (\<lambda>k. k) (map_option (norm_doc F)) :: string \<times> json option \<Rightarrow> _"
  have "distinct (map fst (write_struct es))" using assms(2,3) by (intro distinct_write_struct) simp
  then obtain kvs where kvs: "norm_doc F (JObj (write_struct es)) = JObj kvs"
    and perm: "mset kvs = mset (write_struct (map ?n es))"
    using assms(1) unfolding values_ok_def write_struct_map [symmetric] by blast
  have "map fst (map ?n es) = map fst sch" by (simp add: assms(2) comp_def)
  note slots = slots_write_struct [OF this assms(3)]
  have "map_of (map ?n es) k = map_option (map_option (norm_doc F)) (map_of es k)" for k
    by (induction es) (auto simp: map_prod_def)
  then have "Option.bind (map_of (map ?n es) k) (\<lambda>x. x)
      = map_option (norm_doc F) (Option.bind (map_of es k) (\<lambda>x. x))" for k
    by (cases "map_of es k") simp_all
  with slots_other_version [OF slots, of "[]" kvs "{}"] perm show ?thesis
    unfolding kvs by (simp add: keep_def)
qed

lemma optional_norm_doc:
  assumes "values_ok F" and "\<And>a. x = Some a \<Longrightarrow> r (norm_doc F (w a)) = Some a \<and> norm_doc F (w a) \<noteq> JNull"
  shows "optional r (Some (norm_doc F (option_doc w x))) = Some x"
  using assms by (cases x) (simp_all add: optional_def option_doc_def values_ok_simps)

lemma read_strings: "vec_of_doc str_of_doc (strings_doc ss) = Some ss"
  by (simp add: read_all_map)

lemma run_args_roundtrip:
  assumes "values_ok F" and "budget_ok F P a" and "run_args_doc P a = Some d"
  shows "run_args_of_doc P (norm_doc F d) = Some a"
proof -
  have d: "d = JObj (write_struct (run_args_entries P a))"
    using assms(3) by (simp add: run_args_doc_def split: if_splits)
  have slots: "slots run_args_schema (norm_doc F d)
      = Some (\<lambda>k. map_option (norm_doc F) (Option.bind (map_of (run_args_entries P a) k) (\<lambda>x. x)))"
    unfolding d by (rule slots_norm_doc [OF assms(1)]) (simp_all add: run_args_entries_def run_args_schema_def)
  note val = values_ok_simps [OF assms(1)]
  note opt = optional_norm_doc [OF assms(1)]
  have leaves: "optional str_of_doc (Some (norm_doc F (option_doc JStr s))) = Some s"
    "optional word_of_doc (Some (norm_doc F (option_doc word_doc (n :: u32 option)))) = Some n"
    "optional (vec_of_doc str_of_doc) (Some (norm_doc F (option_doc strings_doc ss))) = Some ss" for s n ss
    by (rule opt; simp add: val word_roundtrip read_strings wire_simps del: vec_of_doc.simps)+
  have "optional (fa_float_from P) (Some (norm_doc F (option_doc (fa_float P) (ra_max_budget_usd a))))
      = Some (ra_max_budget_usd a)"
    using assms(2) by (intro opt) (simp add: budget_ok_def)
  then show ?thesis by (simp add: run_args_of_doc_def slots run_args_entries_def leaves)
qed

lemma claude_task_roundtrip:
  assumes "values_ok F" and "budget_ok F P (cc_args t)" and "claude_task_doc P t = Some d"
  shows "claude_task_of_doc P (norm_doc F d) = Some t"
proof -
  obtain a where a: "run_args_doc P (cc_args t) = Some a"
    and d: "d = JObj (write_struct [(''prompt'', Some (JStr (cc_prompt t))), (''args'', Some a)])"
    using assms(3) by (auto simp: claude_task_doc_def simp del: write_struct.simps)
  have "slots [(''prompt'', False), (''args'', False)] (norm_doc F d)
      = Some (\<lambda>k. map_option (norm_doc F) (Option.bind (map_of
          [(''prompt'', Some (JStr (cc_prompt t))), (''args'', Some a)] k) (\<lambda>x. x)))"
    unfolding d by (rule slots_norm_doc [OF assms(1)]) simp_all
  then show ?thesis
    by (simp add: claude_task_of_doc_def required_Some values_ok_simps [OF assms(1)]
        run_args_roundtrip [OF assms(1,2) a])
qed

lemma sdd_task_roundtrip:
  assumes "values_ok F" and "budget_ok F P (sdd_args t)" and "sdd_task_doc P t = Some d"
  shows "sdd_task_of_doc P (norm_doc F d) = Some t"
proof -
  let ?es = "\<lambda>a. [(''spec'', Some (JStr (sdd_spec t))), (''test_command'', Some (strings_doc (sdd_test_command t))),
    (''cwd'', Some (option_doc JStr (sdd_cwd t))), (''max_fix_attempts'', Some (word_doc (sdd_max_fix_attempts t))),
    (''args'', Some a)]"
  obtain a where a: "run_args_doc P (sdd_args t) = Some a" and d: "d = JObj (write_struct (?es a))"
    using assms(3) by (auto simp: sdd_task_doc_def simp del: write_struct.simps split: if_splits)
  have slots: "slots [(''spec'', False), (''test_command'', False), (''cwd'', False), (''max_fix_attempts'', False),
      (''args'', False)] (norm_doc F d) = Some (\<lambda>k. map_option (norm_doc F) (Option.bind (map_of (?es a) k) (\<lambda>x. x)))"
    unfolding d by (rule slots_norm_doc [OF assms(1)]) simp_all
  have "optional str_of_doc (Some (norm_doc F (option_doc JStr (sdd_cwd t)))) = Some (sdd_cwd t)"
    by (rule optional_norm_doc [OF assms(1)]) (simp add: values_ok_simps [OF assms(1)])
  then show ?thesis
    by (simp add: sdd_task_of_doc_def slots required_Some values_ok_simps [OF assms(1)] read_strings
        word_roundtrip run_args_roundtrip [OF assms(1,2) a] del: vec_of_doc.simps)
qed

lemma doc_values:
  "doc_to_value F (Some d) = Inr (wf_value_from F d)"
  "r (norm_doc F d) = Some x \<Longrightarrow> doc_from_value F r (wf_value_from F d) = Inr x"
  by (simp_all add: doc_to_value_def doc_from_value_def norm_doc_def)

lemma sig_payload_max_retries [simp]:
  "sig_task_name (sig_with_max_retries n (signature_new a q v)) = a"
  "sig_payload (sig_with_max_retries n (signature_new a q v)) = v"
  by (simp_all add: sig_with_max_retries_def signature_new_def)

text \<open>What the handler of a task does with the outcome of its run.\<close>

definition outcome_value :: "('o \<Rightarrow> 'v) \<Rightarrow> 'o TaskResult \<times> 'x \<Rightarrow> 'v TaskResult \<times> 'x" where
  "outcome_value g r = (case r of (Inl e, y) \<Rightarrow> (Inl e, y) | (Inr out, y) \<Rightarrow> (Inr (g out), y))"

lemma dispatch_claude_sig:
  assumes "values_ok F" and "budget_ok F P args" and "pred_option (fa_utf8 P) (ra_cwd args)"
    and T: "T = wire_claude_task F P rt as_runner"
  shows "\<exists>s. claude_sig T p args = Some s \<and>
    dispatch (register T reg) (sig_task_name s) (sig_payload s) ctx x
      = outcome_value (\<lambda>r. wf_value_from F (run_output_doc P r))
          (claude_task_run rt as_runner (claude_task_with_args p args) ctx x)"
proof -
  let ?t = "claude_task_with_args p args"
  obtain d where d: "claude_task_doc P ?t = Some d"
    using assms(3) by (simp add: claude_task_doc_def run_args_doc_def claude_task_with_args_def)
  have "claude_task_of_doc P (norm_doc F d) = Some ?t"
    using assms(2) by (intro claude_task_roundtrip [OF assms(1) _ d]) (simp add: claude_task_with_args_def)
  note val = doc_values(2) [where r = "claude_task_of_doc P", OF this]
  show ?thesis
    by (simp add: claude_sig_def task_signature_def T wire_claude_task_def claude_code_task_def d doc_values(1)
        dispatch_register task_handler_def val outcome_value_def split: sum.split prod.split)
qed

lemma dispatch_sdd_sig:
  assumes "values_ok F" and "budget_ok F P args" and "pred_option (fa_utf8 P) (ra_cwd args)"
    and T: "T = wire_sdd_task F P A rt as_runner"
  shows "\<exists>s. sdd_sig T spec c args = Some s \<and>
    dispatch (register T reg) (sig_task_name s) (sig_payload s) ctx x
      = outcome_value (\<lambda>r. wf_value_from F (sdd_output_doc P r))
          (sdd_run A rt as_runner \<lparr>sdd_spec = spec, sdd_test_command = c, sdd_cwd = None,
             sdd_max_fix_attempts = 3, sdd_args = args\<rparr> ctx x)"
proof -
  let ?t = "\<lparr>sdd_spec = spec, sdd_test_command = c, sdd_cwd = None, sdd_max_fix_attempts = 3, sdd_args = args\<rparr>"
  have t: "sdd_with_args args (sdd_with_test_command c (sdd_task_new spec)) = ?t"
    by (simp add: sdd_with_args_def sdd_with_test_command_def sdd_task_new_def)
  obtain d where d: "sdd_task_doc P ?t = Some d"
    using assms(3) by (simp add: sdd_task_doc_def run_args_doc_def)
  have "sdd_task_of_doc P (norm_doc F d) = Some ?t"
    using assms(2) by (intro sdd_task_roundtrip [OF assms(1) _ d]) simp
  note val = doc_values(2) [where r = "sdd_task_of_doc P", OF this]
  show ?thesis
    by (simp add: sdd_sig_def task_signature_def T wire_sdd_task_def sdd_task_def t d doc_values(1)
        dispatch_register task_handler_def val outcome_value_def split: sum.split prod.split)
qed

subsection \<open>Properties\<close>

text \<open>C39: agent tasks reach the worker as they were made. If the working directory of the arguments
  is UTF-8 and the spending limit is a number JSON can carry, \<open>claude_sig\<close> and \<open>sdd_sig\<close> give a
  signature, and a registry with the task dispatches its payload to a run with exactly the
  given prompt and arguments, or specification, test command and arguments (three repairs, no
  working directory of its own); errors pass through and the output is the value returned.\<close>

theorem agent_tasks_reach_worker:
  assumes "values_ok F" and "budget_ok F P args" and "pred_option (fa_utf8 P) (ra_cwd args)"
    and "T = wire_claude_task F P rt as_runner" and "S = wire_sdd_task F P A rt as_runner"
  shows "(\<exists>s. claude_sig T p args = Some s \<and>
      dispatch (register T reg) (sig_task_name s) (sig_payload s) ctx x
        = outcome_value (\<lambda>r. wf_value_from F (run_output_doc P r))
            (claude_task_run rt as_runner (claude_task_with_args p args) ctx x)) \<and>
    (\<exists>s. sdd_sig S spec c args = Some s \<and>
      dispatch (register S reg) (sig_task_name s) (sig_payload s) ctx x
        = outcome_value (\<lambda>r. wf_value_from F (sdd_output_doc P r))
            (sdd_run A rt as_runner \<lparr>sdd_spec = spec, sdd_test_command = c, sdd_cwd = None,
               sdd_max_fix_attempts = 3, sdd_args = args\<rparr> ctx x))"
  by (intro conjI dispatch_claude_sig [OF assms(1-4)] dispatch_sdd_sig [OF assms(1-3,5)])

fun int_from_doc :: "json \<Rightarrow> int option" where
  "int_from_doc (JInt i) = Some i"
| "int_from_doc _ = None"

definition cent_formats :: "int agent_formats" where
  "cent_formats = \<lparr>fa_float = JInt, fa_float_from = int_from_doc, fa_utf8 = (\<lambda>s. True)\<rparr>"

definition echo_runner :: "(int, string list) ClaudeRunner" where
  "echo_runner p args x =
     (Inr \<lparr>ro_result = p, ro_session_id = None, ro_cost_usd = ra_max_budget_usd args, ro_duration_ms = None,
        ro_num_turns = ra_max_turns args\<rparr>, x @ [p])"

theorem agent_tasks_reach_worker_witness:
  "\<exists>s. claude_sig (wire_claude_task ref_formats cent_formats () (\<lambda>r :: (int, string list) ClaudeRunner. r))
       ''fix it'' (ra_with_max_budget_usd 5 run_args_default) = Some s \<and>
     dispatch (register (wire_claude_task ref_formats cent_formats () (\<lambda>r. r)) registry_new)
       (sig_task_name s) (sig_payload s) (context_insert () echo_runner context_new) []
     = (Inr (run_output_doc cent_formats
          \<lparr>ro_result = ''fix it'', ro_session_id = None, ro_cost_usd = Some 5, ro_duration_ms = None,
           ro_num_turns = None\<rparr>), [''fix it''])"
proof -
  have "norm_doc ref_formats = (\<lambda>d. d)" by (simp add: fun_eq_iff norm_doc_def ref_formats_def)
  then have val: "values_ok ref_formats" by (simp add: values_ok_def map_prod_def)
  have bud: "budget_ok ref_formats cent_formats (ra_with_max_budget_usd 5 run_args_default)"
    by (simp add: budget_ok_def cent_formats_def ra_with_max_budget_usd_def norm_doc_def ref_formats_def)
  have cwd: "pred_option (fa_utf8 cent_formats) (ra_cwd (ra_with_max_budget_usd 5 run_args_default))"
    by (simp add: ra_with_max_budget_usd_def run_args_default_def)
  have run: "claude_task_run () (\<lambda>r. r) (claude_task_with_args ''fix it'' (ra_with_max_budget_usd 5 run_args_default))
      (context_insert () echo_runner context_new) []
    = (Inr \<lparr>ro_result = ''fix it'', ro_session_id = None, ro_cost_usd = Some 5, ro_duration_ms = None,
         ro_num_turns = None\<rparr>, [''fix it''])"
    by (simp add: claude_task_run_def context_data_insert claude_task_with_args_def echo_runner_def
        ra_with_max_budget_usd_def run_args_default_def)
  have "wf_value_from ref_formats d = d" for d by (simp add: ref_formats_def)
  with conjunct1 [OF agent_tasks_reach_worker [OF val bud cwd refl refl, of "()" "\<lambda>r. r" "''fix it''" registry_new
      "context_insert () echo_runner context_new" "[]"]] run
  show ?thesis by (simp add: outcome_value_def)
qed

end
