(* ===== verification/Kojin_Wire_Types.thy ===== *)
theory Kojin_Wire_Types
  imports Kojin_Wire
begin

text \<open>
  The documents that read as a message, described by a table of field types: a message is
  read exactly from the documents of that type, and no others are rejected or accepted.
\<close>

datatype wire_type = TStr | TU8 | TU32 | TUuid | TTime | TState | TStrMap | TValue

primrec has_type :: "'v wire_formats \<Rightarrow> wire_type \<Rightarrow> json \<Rightarrow> bool" where
  "has_type F TStr d \<longleftrightarrow> (case d of JStr s \<Rightarrow> True | _ \<Rightarrow> False)"
| "has_type F TUuid d \<longleftrightarrow> (case d of JStr s \<Rightarrow> wf_uuid_from F s \<noteq> None | _ \<Rightarrow> False)"
| "has_type F TTime d \<longleftrightarrow> (case d of JStr s \<Rightarrow> wf_time_from F s \<noteq> None | _ \<Rightarrow> False)"
| "has_type F TState d \<longleftrightarrow>
     (case d of
        JStr s \<Rightarrow> s \<in> state_display ` UNIV
      | JObj [(s, JNull)] \<Rightarrow> s \<in> state_display ` UNIV
      | _ \<Rightarrow> False)"
| "has_type F TU8 d \<longleftrightarrow> (case d of JInt i \<Rightarrow> 0 \<le> i \<and> i < 256 | _ \<Rightarrow> False)"
| "has_type F TU32 d \<longleftrightarrow> (case d of JInt i \<Rightarrow> 0 \<le> i \<and> i < 4294967296 | _ \<Rightarrow> False)"
| "has_type F TStrMap d \<longleftrightarrow> (case d of JObj kvs \<Rightarrow> list_all (\<lambda>kv. \<exists>s. snd kv = JStr s) kvs | _ \<Rightarrow> False)"
| "has_type F TValue d \<longleftrightarrow> True"

text \<open>A field that must be present, and one that may be absent or null.\<close>

definition req_ok :: "'v wire_formats \<Rightarrow> wire_type \<Rightarrow> json option \<Rightarrow> bool" where
  "req_ok F t x \<longleftrightarrow> (case x of None \<Rightarrow> False | Some d \<Rightarrow> has_type F t d)"

definition opt_ok :: "'v wire_formats \<Rightarrow> wire_type \<Rightarrow> json option \<Rightarrow> bool" where
  "opt_ok F t x \<longleftrightarrow> (case x of None \<Rightarrow> True | Some d \<Rightarrow> d = JNull \<or> has_type F t d)"

definition required_types :: "(string \<times> wire_type) list" where
  "required_types =
     [(''id'', TUuid), (''task_name'', TStr), (''queue'', TStr), (''payload'', TValue), (''state'', TState),
      (''retries'', TU32), (''max_retries'', TU32), (''created_at'', TTime), (''updated_at'', TTime),
      (''headers'', TStrMap)]"

definition optional_types :: "(string \<times> wire_type) list" where
  "optional_types =
     [(''eta'', TTime), (''parent_id'', TUuid), (''correlation_id'', TStr), (''group_id'', TStr),
      (''group_total'', TU32), (''priority'', TU8), (''dedup_key'', TStr)]"

definition fields_ok :: "'v wire_formats \<Rightarrow> (string \<rightharpoonup> json) \<Rightarrow> bool" where
  "fields_ok F f \<longleftrightarrow>
     list_all (\<lambda>(k, t). req_ok F t (f k)) required_types \<and> list_all (\<lambda>(k, t). opt_ok F t (f k)) optional_types"

inductive message_typed :: "'v wire_formats \<Rightarrow> json \<Rightarrow> bool" for F :: "'v wire_formats" where
  plain: "slots message_schema d = Some f \<Longrightarrow> fields_ok F f \<Longrightarrow> f ''chord_callback'' \<in> {None, Some JNull} \<Longrightarrow>
    message_typed F d"
| callback: "slots message_schema d = Some f \<Longrightarrow> fields_ok F f \<Longrightarrow> f ''chord_callback'' = Some c \<Longrightarrow> c \<noteq> JNull \<Longrightarrow>
    message_typed F c \<Longrightarrow> message_typed F d"

inductive_simps message_typed_iff: "message_typed F d"

lemma type_str: "str_of_doc d \<noteq> None \<longleftrightarrow> has_type F TStr d"
  by (cases d) simp_all

lemma type_u32: "(word_of_doc d :: u32 option) \<noteq> None \<longleftrightarrow> has_type F TU32 d"
  by (cases d) simp_all

lemma type_u8: "(word_of_doc d :: u8 option) \<noteq> None \<longleftrightarrow> has_type F TU8 d"
  by (cases d) simp_all

lemma type_uuid: "taskid_of_doc F d \<noteq> None \<longleftrightarrow> has_type F TUuid d"
  by (cases d) (simp_all add: taskid_of_doc_def)

lemma type_time: "time_of_doc F d \<noteq> None \<longleftrightarrow> has_type F TTime d"
  by (cases d) (simp_all add: time_of_doc_def)

lemma state_of_name_iff: "state_of_name s \<noteq> None \<longleftrightarrow> s \<in> state_display ` UNIV"
proof
  assume "state_of_name s \<noteq> None"
  then show "s \<in> state_display ` UNIV"
    by (auto simp: state_of_name_def image_def intro: state_display.simps [symmetric] split: if_splits)
next
  assume "s \<in> state_display ` UNIV"
  then obtain st where "s = state_display st" by blast
  then show "state_of_name s \<noteq> None" by (cases st) (simp_all add: state_of_name_def)
qed

lemma type_state: "state_of_doc d \<noteq> None \<longleftrightarrow> has_type F TState d"
  by (cases d rule: state_of_doc.cases) (simp_all add: state_of_name_iff del: not_None_eq split: prod.split json.split)

lemma read_headers_iff: "read_headers kvs h \<noteq> None \<longleftrightarrow> list_all (\<lambda>kv. \<exists>s. snd kv = JStr s) kvs"
proof (induction kvs arbitrary: h)
  case (Cons kv kvs)
  then show ?case by (cases kv; cases "snd kv") auto
qed simp

lemma type_headers: "headers_of_doc d \<noteq> None \<longleftrightarrow> has_type F TStrMap d"
  by (cases d) (simp_all add: read_headers_iff del: not_None_eq)

lemma required_iff: "(\<And>d. r d \<noteq> None \<longleftrightarrow> has_type F t d) \<Longrightarrow> required r x \<noteq> None \<longleftrightarrow> req_ok F t x"
  by (cases x) (simp_all add: required_def req_ok_def)

lemma optional_iff: "(\<And>d. r d \<noteq> None \<longleftrightarrow> has_type F t d) \<Longrightarrow> optional r x \<noteq> None \<longleftrightarrow> opt_ok F t x"
  by (cases x) (auto simp: optional_def opt_ok_def)

lemma bind_not_None: "Option.bind x f \<noteq> None \<longleftrightarrow> x \<noteq> None \<and> f (the x) \<noteq> None"
  by (cases x) simp_all

lemma fields_of_iff: "fields_of F f \<noteq> None \<longleftrightarrow> fields_ok F f"
proof -
  have any: "Some (wf_value_from F d) \<noteq> None \<longleftrightarrow> has_type F TValue d" for d by simp
  show ?thesis
    unfolding fields_of_def bind_not_None
      required_iff [OF type_uuid] required_iff [OF type_str, where F = F] required_iff [OF any] required_iff [OF type_state, where F = F]
      required_iff [OF type_u32, where F = F] required_iff [OF type_time] required_iff [OF type_headers, where F = F]
      optional_iff [OF type_time] optional_iff [OF type_uuid] optional_iff [OF type_str, where F = F] optional_iff [OF type_u32, where F = F]
      optional_iff [OF type_u8, where F = F]
    by (auto simp: fields_ok_def required_types_def optional_types_def simp del: not_None_eq)
qed

subsection \<open>Properties\<close>


end
