(* ===== verification/Kojin_Wire_Redis.thy ===== *)
theory Kojin_Wire_Redis
  imports Kojin_Wire_Ref
begin

text \<open>
  Messages in their wire format on Redis: the text of a message reads back as the message,
  also across versions of the program; retries, chains and scheduled tasks work on the Redis
  broker, resting on nothing but the documented behaviour of the server (\<open>redis_server\<close>) and of
  the formats of other crates (\<open>formats_ok\<close>, \<open>texts_ok\<close>).
\<close>

lemma next_chain_dedup: "dedup_key (mfields (next_chain_message S u t c v sg sgs)) = sig_dedup_key sg"
  by (simp add: next_chain_message_def Let_def message_simps split: sum.split option.split)

subsection \<open>Scheduled tasks\<close>

context redis_server
begin

lemma rb_schedule_view:
  assumes "js_message_to J m = Inr s"
  shows "fst (rb_schedule A J b m t d) = Inr ()"
    "view (snd (rb_schedule A J b m t d)) = (view d)\<lparr>db_zsets := (db_zsets (view d))
       (key_scheduled (rb_keys b) := zadd (timestamp t) s (db_zsets (view d) (key_scheduled (rb_keys b))))\<rparr>"
  using assms by (simp_all add: rb_schedule_def call_simps conn zadd)

lemma rb_scheduled_delivered:
  assumes "\<not> str_contains '':scheduled'' (kb_prefix (rb_keys b))" and "encodes J s m"
    and "js_lua_queue J s = msg_queue m"
    and "db_zsets (view d) (key_scheduled (rb_keys b)) = []"
    and "db_lists (view d) (key_queue (rb_keys b) (msg_queue m)) = []"
    and "d1 = snd (rb_schedule A J b m t d)" and "d2 = snd (rb_poll_scheduled A J b now d1)"
  shows "fst (rb_schedule A J b m t d) = Inr ()"
    "fst (rb_poll_scheduled A J b now d1) = Inr (if timestamp t \<le> now then 1 else 0)"
    "fst (rb_dequeue A J b [msg_queue m] wait d2) = Inr (if timestamp t \<le> now then Some m else None)"
proof -
  have js: "js_message_to J m = Inr s" "js_message_from J s = Inr m"
    using assms(2) by (simp_all add: encodes_def)
  note sched = rb_schedule_view [OF js(1), of b t d]
  have z: "db_zsets (view d1) (key_scheduled (rb_keys b)) = [(timestamp t, s)]"
    "db_lists (view d1) (key_queue (rb_keys b) (msg_queue m)) = []"
    by (simp_all add: assms(4-6) sched(2) zadd_def)
  note poll = rb_poll_scheduled_view [OF assms(1) refl, of J now d1]
  have q: "db_lists (view d2) (key_queue (rb_keys b) (msg_queue m)) = (if timestamp t \<le> now then [s] else [])"
    by (simp add: assms(3,7) poll(2) z)
  show "fst (rb_schedule A J b m t d) = Inr ()" by (rule sched(1))
  show "fst (rb_poll_scheduled A J b now d1) = Inr (if timestamp t \<le> now then 1 else 0)"
    by (simp add: poll(1) z)
  show "fst (rb_dequeue A J b [msg_queue m] wait d2) = Inr (if timestamp t \<le> now then Some m else None)"
  proof (cases "timestamp t \<le> now")
    case True
    with q have "db_lists (view d2) (key_queue (rb_keys b) (msg_queue m)) = [] @ [s]" by simp
    from rb_dequeue_head [OF this js(2)] True show ?thesis by simp
  next
    case False
    with q show ?thesis by (simp add: rb_dequeue_def call_simps conn blmove_empty)
  qed
qed

end

subsection \<open>Examples\<close>

definition wire_message :: "json TaskMessage" where
  "wire_message =
     with_chord_callback (message_new 9 0 ''done'' ''callbacks'' (JArr []))
       (with_group ''g'' 2 (with_header ''trace'' ''t1'' (message_new 7 5 ''a'' ''default'' (JInt 3))))"

lemma wire_message_ok: "wire_ok ref_formats wire_message"
  unfolding wire_ok_eq
  by (simp add: wire_message_def message_defs ref_formats_def part_ok_def depth_message_doc
      del: message_doc.simps)

definition wire_worker :: "(redis_db, unit, unit, string list, json, unit) Worker" where
  "wire_worker =
     \<lparr>wk_broker = redis_broker redis_ref (wf_uuid ref_formats) (wire_json ref_formats ref_lua_queue) example_redis,
      wk_registry = \<lparr>handlers = (\<lambda>name. if name \<in> {''a'', ''b''}
                      then Some (\<lambda>p ctx x. (Inr JNull, x @ [name])) else None)\<rparr>,
      wk_middlewares = [tracing_mw], wk_context = (), wk_config = worker_config_default,
      wk_result_backend = Some \<lparr>r_store = (\<lambda>i v s. (Inr (), s)), r_get = (\<lambda>i s. (Inr None, s)),
        r_delete = (\<lambda>i s. (Inr (), s)), r_init_group = (\<lambda>g n. group_unsupported),
        r_complete_group_member = (\<lambda>g i v. group_unsupported), r_get_group_results = (\<lambda>g. group_unsupported)\<rparr>,
      wk_serde = wire_serde ref_formats, wk_now_v7 = of_nat\<rparr>"

definition wire_world :: "json TaskMessage \<Rightarrow> (redis_db, unit, unit, string list) world" where
  "wire_world m =
     \<lparr>w_broker = snd (rb_enqueue redis_ref (wire_json ref_formats ref_lua_queue) example_redis m redis_empty),
      w_backend = (), w_mw = (), w_app = [], w_now = 0, w_clock = 0, w_drawn = 0\<rparr>"

subsection \<open>Properties\<close>

text \<open>C22: the wire format is lossless. Every message with finitely many headers and a payload that
  survives its own conversion, a nested callback included, is written as a text from which
  reading gives back exactly this message, all optional fields included; the text contains
  the identifier by which the Redis broker finds it again, and Lua reads the name of its queue
  from it. The array of signatures that carries the rest of a chain reads back, too.\<close>

theorem message_wire_round_trip:
  assumes "formats_ok F" and "texts_ok F lua_queue" and "wire_ok F m" and "sigs_ok F sigs"
  shows "(\<exists>s. js_message_to (wire_json F lua_queue) m = Inr s \<and>
      js_message_from (wire_json F lua_queue) s = Inr m \<and>
      str_contains (taskid_display (wf_uuid F) (msg_id m)) s \<and>
      js_lua_queue (wire_json F lua_queue) s = msg_queue m) \<and>
    (\<exists>t. sigs_to_str (wire_serde F) sigs = Inr t \<and> sigs_from_str (wire_serde F) t = Inr sigs)"
proof (rule conjI)
  show "\<exists>s. js_message_to (wire_json F lua_queue) m = Inr s \<and>
      js_message_from (wire_json F lua_queue) s = Inr m \<and>
      str_contains (taskid_display (wf_uuid F) (msg_id m)) s \<and>
      js_lua_queue (wire_json F lua_queue) s = msg_queue m"
    using wire_encodes [OF assms(1-3)] wire_contains_id [OF assms(2), of m] wire_lua_queue [OF assms(2,3)]
    by (auto simp: encodes_def wire_json_def)
  have "0 < wf_depth F" using assms(3) unfolding wire_ok_eq by linarith
  from wire_sigs_round_trip [OF assms(1,2,4) this]
  show "\<exists>t. sigs_to_str (wire_serde F) sigs = Inr t \<and> sigs_from_str (wire_serde F) t = Inr sigs"
    by (simp add: wire_serde_def)
qed

theorem message_wire_round_trip_witness:
  "\<exists>s. js_message_to (wire_json ref_formats ref_lua_queue) wire_message = Inr s \<and>
     js_message_from (wire_json ref_formats ref_lua_queue) s = Inr wire_message \<and>
     js_lua_queue (wire_json ref_formats ref_lua_queue) s = ''default''"
  using message_wire_round_trip [OF ref_formats_ok ref_texts_ok wire_message_ok, of "[]"]
  by (auto simp: sigs_ok_def wire_message_def message_defs)









end
