(* ===== verification/Kojin_Dashboard.thy ===== *)
theory Kojin_Dashboard
  imports Kojin_Memory_Broker Kojin_Result_Backend Kojin_Middleware
begin

text \<open>
  The handlers of the HTTP dashboard (\<open>kojin-dashboard\<close>: \<open>state.rs\<close>, \<open>routes.rs\<close>, the routing
  table of \<open>lib.rs\<close>). A handler returns a status code or the value that is sent as JSON, and
  the state of the broker or the result backend it asked. The HTTP server, the extraction of
  path segments and query parameters and the web page are those of \<open>axum\<close>; a UUID is parsed
  by the \<open>uuid\<close> crate, a parameter here.
\<close>

subsection \<open>State (state.rs)\<close>

text \<open>The metrics are the counters as they are when the request is served.\<close>

record ('b, 'r, 'v) DashboardState =
  ds_broker :: "('b, 'v) Broker"
  ds_result_backend :: "('r, 'v) ResultBackend option"
  ds_metrics :: "MetricsInner option"

definition dashboard_state_new :: "('b, 'v) Broker \<Rightarrow> ('b, 'r, 'v) DashboardState" where
  "dashboard_state_new B = \<lparr>ds_broker = B, ds_result_backend = None, ds_metrics = None\<rparr>"

definition ds_with_result_backend :: "('r, 'v) ResultBackend \<Rightarrow> ('b, 'r, 'v) DashboardState \<Rightarrow>
    ('b, 'r, 'v) DashboardState" where
  "ds_with_result_backend R d = d\<lparr>ds_result_backend := Some R\<rparr>"

definition ds_with_metrics :: "MetricsInner \<Rightarrow> ('b, 'r, 'v) DashboardState \<Rightarrow> ('b, 'r, 'v) DashboardState"
where
  "ds_with_metrics m d = d\<lparr>ds_metrics := Some m\<rparr>"

subsection \<open>Handlers (routes.rs)\<close>

datatype StatusCode = BAD_REQUEST | NOT_FOUND | INTERNAL_SERVER_ERROR

record QueueInfo =
  qi_name :: string
  qi_length :: nat
  qi_dlq_length :: nat

record MetricsResponse =
  mresp_started :: u64
  mresp_succeeded :: u64
  mresp_failed :: u64

record PaginationParams =
  pp_offset :: usize
  pp_limit :: usize

definition default_limit :: usize where
  "default_limit = 20"

text \<open>What serde makes of the two optional query parameters.\<close>

definition pagination :: "usize option \<Rightarrow> usize option \<Rightarrow> PaginationParams" where
  "pagination offset limit =
     \<lparr>pp_offset = (case offset of None \<Rightarrow> 0 | Some n \<Rightarrow> n),
      pp_limit = (case limit of None \<Rightarrow> default_limit | Some n \<Rightarrow> n)\<rparr>"

definition unwrap_or :: "'a \<Rightarrow> 'e + 'a \<Rightarrow> 'a" where
  "unwrap_or d r = (case r of Inl _ \<Rightarrow> d | Inr a \<Rightarrow> a)"

fun queue_infos :: "('b, 'v) Broker \<Rightarrow> string list \<Rightarrow> 'b \<Rightarrow> QueueInfo list \<times> 'b" where
  "queue_infos B [] s = ([], s)"
| "queue_infos B (name # names) s =
     (let (len, s1) = b_queue_len B name s;
          (dlq, s2) = b_dlq_len B name s1;
          (infos, s3) = queue_infos B names s2
      in (\<lparr>qi_name = name, qi_length = unwrap_or 0 len, qi_dlq_length = unwrap_or 0 dlq\<rparr> # infos, s3))"

definition list_queues :: "('b, 'r, 'v) DashboardState \<Rightarrow> 'b \<Rightarrow> (StatusCode + QueueInfo list) \<times> 'b" where
  "list_queues d s =
     (case b_list_queues (ds_broker d) s of
        (Inl _, s1) \<Rightarrow> (Inl INTERNAL_SERVER_ERROR, s1)
      | (Inr names, s1) \<Rightarrow> (let (infos, s2) = queue_infos (ds_broker d) names s1 in (Inr infos, s2)))"

definition get_queue :: "('b, 'r, 'v) DashboardState \<Rightarrow> string \<Rightarrow> 'b \<Rightarrow> (StatusCode + QueueInfo) \<times> 'b" where
  "get_queue d name s =
     (case b_queue_len (ds_broker d) name s of
        (Inl _, s1) \<Rightarrow> (Inl INTERNAL_SERVER_ERROR, s1)
      | (Inr len, s1) \<Rightarrow>
          (let (dlq, s2) = b_dlq_len (ds_broker d) name s1
           in (Inr \<lparr>qi_name = name, qi_length = len, qi_dlq_length = unwrap_or 0 dlq\<rparr>, s2)))"

definition get_dlq :: "('b, 'r, 'v) DashboardState \<Rightarrow> string \<Rightarrow> PaginationParams \<Rightarrow> 'b \<Rightarrow>
    (StatusCode + 'v TaskMessage list) \<times> 'b" where
  "get_dlq d name p s =
     (case b_dlq_messages (ds_broker d) name (pp_offset p) (pp_limit p) s of
        (Inl _, s1) \<Rightarrow> (Inl INTERNAL_SERVER_ERROR, s1)
      | (Inr ms, s1) \<Rightarrow> (Inr ms, s1))"

definition get_metrics :: "('b, 'r, 'v) DashboardState \<Rightarrow> StatusCode + MetricsResponse" where
  "get_metrics d =
     (case ds_metrics d of
        Some m \<Rightarrow> Inr \<lparr>mresp_started = tasks_started m, mresp_succeeded = tasks_succeeded m,
                      mresp_failed = tasks_failed m\<rparr>
      | None \<Rightarrow> Inl NOT_FOUND)"

definition get_task_result :: "(string \<Rightarrow> uuid option) \<Rightarrow> ('b, 'r, 'v) DashboardState \<Rightarrow> string \<Rightarrow> 'r \<Rightarrow>
    (StatusCode + 'v) \<times> 'r" where
  "get_task_result parse d i s =
     (case ds_result_backend d of
        None \<Rightarrow> (Inl NOT_FOUND, s)
      | Some R \<Rightarrow>
          (case parse i of
             None \<Rightarrow> (Inl BAD_REQUEST, s)
           | Some u \<Rightarrow>
               (case r_get R (taskid_from_uuid u) s of
                  (Inr (Some v), s1) \<Rightarrow> (Inr v, s1)
                | (Inr None, s1) \<Rightarrow> (Inl NOT_FOUND, s1)
                | (Inl _, s1) \<Rightarrow> (Inl INTERNAL_SERVER_ERROR, s1))))"

subsection \<open>The routing table (lib.rs)\<close>

datatype route =
    DashboardUi | Healthz | ListQueues | GetQueue string | GetDlq string | GetMetrics | GetTaskResult string

text \<open>The segments of a path of a GET request; \<open>None\<close> is the router's own 404.\<close>

fun dashboard_router :: "string list \<Rightarrow> route option" where
  "dashboard_router segs =
     (if segs = [] then Some DashboardUi
      else if segs = [''healthz''] then Some Healthz
      else if segs = [''api'', ''metrics''] then Some GetMetrics
      else if segs = [''api'', ''queues''] then Some ListQueues
      else case segs of
             [a, b, name] \<Rightarrow>
               if name = [] then None
               else if a = ''api'' \<and> b = ''queues'' then Some (GetQueue name)
               else if a = ''api'' \<and> b = ''tasks'' then Some (GetTaskResult name)
               else None
           | [a, b, name, c] \<Rightarrow>
               if a = ''api'' \<and> b = ''queues'' \<and> name \<noteq> [] \<and> c = ''dlq'' then Some (GetDlq name)
               else None
           | _ \<Rightarrow> None)"

subsection \<open>Properties\<close>

lemma queue_infos_memory:
  "queue_infos (memory_broker enum) names s =
     (map (\<lambda>n. \<lparr>qi_name = n, qi_length = length (a_queued (mb_abs s) n),
                qi_dlq_length = length (a_dead (mb_abs s) n)\<rparr>) names, s)"
  by (induction names)
     (simp_all add: broker_simps mb_queue_len_def mb_dlq_len_def unwrap_or_def map_len_stored mb_abs_def)

text \<open>On the in-memory broker the handlers only read and report the abstract broker exactly.\<close>

lemma dashboard_reports:
  fixes d :: "('v MemoryBroker, 'r, 'v) DashboardState"
  assumes "ds_broker d = memory_broker enum"
  shows "list_queues d s =
      (Inr (map (\<lambda>n. \<lparr>qi_name = n, qi_length = length (a_queued (mb_abs s) n),
                qi_dlq_length = length (a_dead (mb_abs s) n)\<rparr>) (enum (\<lambda>k. mb_queues s k \<noteq> None))), s)"
    and "get_queue d q s = (Inr \<lparr>qi_name = q, qi_length = length (a_queued (mb_abs s) q),
                qi_dlq_length = length (a_dead (mb_abs s) q)\<rparr>, s)"
    and "get_dlq d q (pagination offset limit) s =
      (Inr (take (case limit of None \<Rightarrow> 20 | Some n \<Rightarrow> unat n)
         (drop (case offset of None \<Rightarrow> 0 | Some n \<Rightarrow> unat n) (a_dead (mb_abs s) q))), s)"
proof -
  have "a_dead (mb_abs s) q = (case mb_dlq s q of None \<Rightarrow> [] | Some l \<Rightarrow> l)"
    by (simp add: mb_abs_def stored_def)
  then show "get_dlq d q (pagination offset limit) s =
      (Inr (take (case limit of None \<Rightarrow> 20 | Some n \<Rightarrow> unat n)
         (drop (case offset of None \<Rightarrow> 0 | Some n \<Rightarrow> unat n) (a_dead (mb_abs s) q))), s)"
    using assms
    by (simp add: get_dlq_def broker_simps mb_dlq_messages_def pagination_def default_limit_def
        split: option.split)
qed (use assms in \<open>simp_all add: list_queues_def get_queue_def queue_infos_memory broker_simps mb_list_queues_def
        mb_queue_len_def mb_dlq_len_def unwrap_or_def map_len_stored mb_abs_def\<close>)

text \<open>Looking up a task answers every case: a result stored under the identifier is returned; without
  one the answer is 404, for a malformed identifier 400, and 404 without a result backend. The
  lookup changes nothing. UUIDs have to parse from their own text.\<close>

lemma dashboard_task_lookup:
  fixes d :: "('b, 'v MemoryResultBackend, 'v) DashboardState"
  assumes "ds_result_backend d = Some (memory_result_backend fmt)" and "\<forall>u. parse (fmt u) = Some u"
    and "parse bad = None" and "mr_results s (fmt u) = None"
  shows "get_task_result parse d (fmt u) (snd (mr_store fmt (taskid_from_uuid u) v s))
      = (Inr v, snd (mr_store fmt (taskid_from_uuid u) v s)) \<and>
    get_task_result parse d (fmt u) s = (Inl NOT_FOUND, s) \<and>
    get_task_result parse d bad s = (Inl BAD_REQUEST, s) \<and>
    get_task_result parse (d\<lparr>ds_result_backend := None\<rparr>) i s = (Inl NOT_FOUND, s)"
  using assms
  by (simp add: get_task_result_def backend_simps mr_get_def mr_store_def taskid_display_def
      taskid_from_uuid_def)

definition text_of_uuid :: "uuid \<Rightarrow> string" where
  "text_of_uuid u = replicate (Suc (unat u)) CHR ''x''"

definition uuid_of_text :: "string \<Rightarrow> uuid option" where
  "uuid_of_text s = (if s = [] then None else Some (of_nat (length s - 1)))"

definition lookup_dashboard :: "(unit MemoryBroker, unit MemoryResultBackend, unit) DashboardState" where
  "lookup_dashboard =
     ds_with_result_backend (memory_result_backend text_of_uuid) (dashboard_state_new (memory_broker (\<lambda>_. [])))"

lemma dashboard_task_lookup_example:
  "fst (get_task_result uuid_of_text lookup_dashboard (text_of_uuid 2)
      (snd (mr_store text_of_uuid (taskid_from_uuid 2) () memory_result_backend_new))) = Inr ()"
proof -
  have backend: "ds_result_backend lookup_dashboard = Some (memory_result_backend text_of_uuid)"
    by (simp add: lookup_dashboard_def ds_with_result_backend_def)
  have roundtrip: "\<forall>u. uuid_of_text (text_of_uuid u) = Some u"
    by (simp add: uuid_of_text_def text_of_uuid_def)
  have bad: "uuid_of_text [] = None" by (simp add: uuid_of_text_def)
  have "mr_results memory_result_backend_new (text_of_uuid 2) = None"
    by (simp add: memory_result_backend_new_def)
  from dashboard_task_lookup [OF backend roundtrip bad this, of "()"] show ?thesis by simp
qed

end
