(* ===== verification/Kojin_Dashboard_Http.thy ===== *)
theory Kojin_Dashboard_Http
  imports Kojin_Dashboard Kojin_Wire_Ref
begin

text \<open>
  What the dashboard answers to a request (\<open>kojin-dashboard\<close>: \<open>routes.rs\<close>, \<open>lib.rs\<close>): the routing
  table of \<open>Kojin_Dashboard\<close> composed with its handlers, and the JSON documents that the derived
  \<open>Serialize\<close> implementations make of the handlers' values. A request is a GET request with
  the decoded segments of its path and the text of its query. What \<open>axum\<close> and
  \<open>serde_urlencoded\<close> read in that text is the parameter \<open>params\<close>: the two optional fields, or the
  text of the rejection. The web page is a file, of which only the kind is kept.
\<close>

subsection \<open>Documents (routes.rs)\<close>

definition queue_info_doc :: "QueueInfo \<Rightarrow> json" where
  "queue_info_doc i =
     JObj [(''name'', JStr (qi_name i)), (''length'', JInt (int (qi_length i))),
       (''dlq_length'', JInt (int (qi_dlq_length i)))]"

definition metrics_response_doc :: "MetricsResponse \<Rightarrow> json" where
  "metrics_response_doc r =
     JObj [(''tasks_started'', word_doc (mresp_started r)), (''tasks_succeeded'', word_doc (mresp_succeeded r)),
       (''tasks_failed'', word_doc (mresp_failed r))]"

definition healthz :: json where
  "healthz = JObj [(''status'', JStr ''ok'')]"

subsection \<open>Responses\<close>

datatype body = Empty | Text string | Page | Document json

record response =
  status :: nat
  content :: body

fun status_number :: "StatusCode \<Rightarrow> nat" where
  "status_number BAD_REQUEST = 400"
| "status_number NOT_FOUND = 404"
| "status_number INTERNAL_SERVER_ERROR = 500"

text \<open>The \<open>IntoResponse\<close> of \<open>Result<Json<T>, StatusCode>\<close>.\<close>

definition respond :: "('a \<Rightarrow> json) \<Rightarrow> StatusCode + 'a \<Rightarrow> response" where
  "respond doc r =
     (case r of
        Inl c \<Rightarrow> \<lparr>status = status_number c, content = Empty\<rparr>
      | Inr a \<Rightarrow> \<lparr>status = 200, content = Document (doc a)\<rparr>)"

fun serve_route :: "'v wire_formats \<Rightarrow> (string \<Rightarrow> string + usize option \<times> usize option) \<Rightarrow>
    ('b, 'r, 'v) DashboardState \<Rightarrow> route \<Rightarrow> string \<Rightarrow> 'b \<times> 'r \<Rightarrow> response \<times> 'b \<times> 'r" where
  "serve_route F params d DashboardUi query (b, r) = (\<lparr>status = 200, content = Page\<rparr>, b, r)"
| "serve_route F params d Healthz query (b, r) = (\<lparr>status = 200, content = Document healthz\<rparr>, b, r)"
| "serve_route F params d ListQueues query (b, r) =
     (let (res, b') = list_queues d b in (respond (\<lambda>is. JArr (map queue_info_doc is)) res, b', r))"
| "serve_route F params d (GetQueue name) query (b, r) =
     (let (res, b') = get_queue d name b in (respond queue_info_doc res, b', r))"
| "serve_route F params d (GetDlq name) query (b, r) =
     (case params query of
        Inl e \<Rightarrow> (\<lparr>status = 400, content = Text e\<rparr>, b, r)
      | Inr (offset, limit) \<Rightarrow>
          (let (res, b') = get_dlq d name (pagination offset limit) b
           in (respond (\<lambda>ms. JArr (map (message_doc F) ms)) res, b', r)))"
| "serve_route F params d GetMetrics query (b, r) = (respond metrics_response_doc (get_metrics d), b, r)"
| "serve_route F params d (GetTaskResult i) query (b, r) =
     (let (res, r') = get_task_result (wf_uuid_from F) d i r in (respond (wf_value F) res, b, r'))"

definition serve :: "'v wire_formats \<Rightarrow> (string \<Rightarrow> string + usize option \<times> usize option) \<Rightarrow>
    ('b, 'r, 'v) DashboardState \<Rightarrow> string list \<Rightarrow> string \<Rightarrow> 'b \<times> 'r \<Rightarrow> response \<times> 'b \<times> 'r" where
  "serve F params d segs query s =
     (case dashboard_router segs of
        None \<Rightarrow> (\<lparr>status = 404, content = Empty\<rparr>, s)
      | Some rt \<Rightarrow> serve_route F params d rt query s)"

subsection \<open>Properties\<close>

lemma respond_simps [simp]:
  "respond doc (Inl c) = \<lparr>status = status_number c, content = Empty\<rparr>"
  "respond doc (Inr a) = \<lparr>status = 200, content = Document (doc a)\<rparr>"
  by (simp_all add: respond_def)

text \<open>The paths of the interface.\<close>

lemma router_paths:
  "dashboard_router [''api'', ''queues''] = Some ListQueues"
  "dashboard_router [''api'', ''metrics''] = Some GetMetrics"
  "x \<noteq> [] \<Longrightarrow> dashboard_router [''api'', ''queues'', x] = Some (GetQueue x)"
  "x \<noteq> [] \<Longrightarrow> dashboard_router [''api'', ''queues'', x, ''dlq''] = Some (GetDlq x)"
  "x \<noteq> [] \<Longrightarrow> dashboard_router [''api'', ''tasks'', x] = Some (GetTaskResult x)"
  by simp_all

text \<open>The probe answers whatever the broker and the backend do.\<close>

lemma healthz_served: "serve F params d [''healthz''] query s = (\<lparr>status = 200, content = Document healthz\<rparr>, s)"
  by (cases s) (simp add: serve_def)

text \<open>Whatever the broker and the backend answer, a request ends with one of four codes.\<close>

lemma status_numbers: "status_number c \<in> {400, 404, 500}"
  by (cases c) simp_all

lemma respond_status: "status (respond doc r) \<in> {200, 400, 404, 500}"
  using status_numbers by (cases r) auto

lemma served_status: "status (fst (serve F params d segs query s)) \<in> {200, 400, 404, 500}"
proof (cases "dashboard_router segs")
  case (Some rt)
  then show ?thesis
    by (cases s; cases rt)
       (simp_all add: serve_def split_beta respond_status del: insert_iff dashboard_router.simps split: sum.split,
        simp_all)
qed (simp add: serve_def)

lemma messages_read_back:
  assumes "formats_ok F" and "list_all (sendable F) ms"
  shows "vec_of_doc (message_of_doc F) (JArr (map (message_doc F) ms)) = Some ms"
  using assms by (simp add: read_all_map message_roundtrip list_all_iff)

lemma list_all_slice: "list_all P xs \<Longrightarrow> list_all P (take n (drop k xs))"
  by (auto simp: list_all_iff dest: in_set_takeD in_set_dropD)

text \<open>C40: what the dashboard serves over the in-memory broker and result backend is their state. The
  list of queues and the view of one queue are documents with the exact numbers of queued
  messages and dead letters; the page of dead letters is a document that reads back as the
  requested slice of the dead-letter queue, of at most 20 messages unless the query says otherwise;
  the lookup of a task answers with the document of its result, with 404 when there is none
  and with 400 when the text is no UUID. No request changes anything. The formats of UUIDs,
  times and payloads have to read back what they write.\<close>

theorem dashboard_serves_state:
  fixes d :: "('v MemoryBroker, 'v MemoryResultBackend, 'v) DashboardState"
  assumes broker: "ds_broker d = memory_broker enum"
    and backend: "ds_result_backend d = Some (memory_result_backend (wf_uuid F))"
    and formats: "formats_ok F" and dead: "list_all (sendable F) (a_dead (mb_abs b) q)"
    and segments: "q \<noteq> []" "i \<noteq> []" and query: "params query = Inr (offset, limit)"
  shows "serve F params d [''api'', ''queues''] query (b, r) =
      (\<lparr>status = 200, content = Document (JArr (map (\<lambda>n. JObj [(''name'', JStr n),
          (''length'', JInt (int (length (a_queued (mb_abs b) n)))),
          (''dlq_length'', JInt (int (length (a_dead (mb_abs b) n))))])
        (enum (\<lambda>k. mb_queues b k \<noteq> None))))\<rparr>, b, r) \<and>
    serve F params d [''api'', ''queues'', q] query (b, r) =
      (\<lparr>status = 200, content = Document (JObj [(''name'', JStr q),
          (''length'', JInt (int (length (a_queued (mb_abs b) q)))),
          (''dlq_length'', JInt (int (length (a_dead (mb_abs b) q))))])\<rparr>, b, r) \<and>
    (\<exists>doc. serve F params d [''api'', ''queues'', q, ''dlq''] query (b, r) =
        (\<lparr>status = 200, content = Document doc\<rparr>, b, r) \<and>
      vec_of_doc (message_of_doc F) doc =
        Some (take (case limit of None \<Rightarrow> 20 | Some n \<Rightarrow> unat n)
          (drop (case offset of None \<Rightarrow> 0 | Some n \<Rightarrow> unat n) (a_dead (mb_abs b) q)))) \<and>
    serve F params d [''api'', ''tasks'', i] query (b, r) =
      ((case wf_uuid_from F i of
          None \<Rightarrow> \<lparr>status = 400, content = Empty\<rparr>
        | Some u \<Rightarrow>
            (case mr_results r (wf_uuid F u) of
               None \<Rightarrow> \<lparr>status = 404, content = Empty\<rparr>
             | Some v \<Rightarrow> \<lparr>status = 200, content = Document (wf_value F v)\<rparr>)), b, r)"
proof (intro conjI)
  note reports = dashboard_reports [OF broker, where s = b]
  show "serve F params d [''api'', ''queues''] query (b, r) =
      (\<lparr>status = 200, content = Document (JArr (map (\<lambda>n. JObj [(''name'', JStr n),
          (''length'', JInt (int (length (a_queued (mb_abs b) n)))),
          (''dlq_length'', JInt (int (length (a_dead (mb_abs b) n))))])
        (enum (\<lambda>k. mb_queues b k \<noteq> None))))\<rparr>, b, r)"
    unfolding serve_def router_paths by (simp add: reports(1) comp_def queue_info_doc_def)
  show "serve F params d [''api'', ''queues'', q] query (b, r) =
      (\<lparr>status = 200, content = Document (JObj [(''name'', JStr q),
          (''length'', JInt (int (length (a_queued (mb_abs b) q)))),
          (''dlq_length'', JInt (int (length (a_dead (mb_abs b) q))))])\<rparr>, b, r)"
    unfolding serve_def router_paths(3) [OF segments(1)] by (simp add: reports(2) queue_info_doc_def)
  show "\<exists>doc. serve F params d [''api'', ''queues'', q, ''dlq''] query (b, r) =
        (\<lparr>status = 200, content = Document doc\<rparr>, b, r) \<and>
      vec_of_doc (message_of_doc F) doc =
        Some (take (case limit of None \<Rightarrow> 20 | Some n \<Rightarrow> unat n)
          (drop (case offset of None \<Rightarrow> 0 | Some n \<Rightarrow> unat n) (a_dead (mb_abs b) q)))"
    unfolding serve_def router_paths(4) [OF segments(1)]
    using messages_read_back [OF formats list_all_slice [OF dead]]
    by (simp add: query reports(3) del: vec_of_doc.simps)
  show "serve F params d [''api'', ''tasks'', i] query (b, r) =
      ((case wf_uuid_from F i of
          None \<Rightarrow> \<lparr>status = 400, content = Empty\<rparr>
        | Some u \<Rightarrow>
            (case mr_results r (wf_uuid F u) of
               None \<Rightarrow> \<lparr>status = 404, content = Empty\<rparr>
             | Some v \<Rightarrow> \<lparr>status = 200, content = Document (wf_value F v)\<rparr>)), b, r)"
    unfolding serve_def router_paths(5) [OF segments(2)]
    by (simp add: get_task_result_def backend backend_simps mr_get_def taskid_display_def
        taskid_from_uuid_def split: option.split)
qed

definition http_message :: "json TaskMessage" where
  "http_message = message_new 1 0 ''t'' ''q'' JNull"

definition http_dashboard :: "(json MemoryBroker, json MemoryResultBackend, json) DashboardState" where
  "http_dashboard = ds_with_result_backend (memory_result_backend (wf_uuid ref_formats))
     (dashboard_state_new (memory_broker (\<lambda>_. [''q''])))"

theorem dashboard_serves_state_witness:
  "\<exists>doc b. serve ref_formats (\<lambda>_. Inr (None, None)) http_dashboard [''api'', ''queues'', ''q'', ''dlq''] []
       (snd (mb_dead_letter http_message memory_broker_new), memory_result_backend_new)
     = (\<lparr>status = 200, content = Document doc\<rparr>, b, memory_result_backend_new) \<and>
     vec_of_doc (message_of_doc ref_formats) doc = Some [http_message]"
proof -
  let ?b = "snd (mb_dead_letter http_message memory_broker_new)"
  have dead: "a_dead (mb_abs ?b) ''q'' = [http_message]"
    by (simp add: mb_abs_def mb_dead_letter_def memory_broker_new_def push_back_def stored_def
        message_new_def http_message_def)
  moreover have "sendable ref_formats http_message"
    by (simp add: http_message_def message_new_def part_ok_def ref_formats_def)
  ultimately have "list_all (sendable ref_formats) (a_dead (mb_abs ?b) ''q'')" by simp
  from dashboard_serves_state [of http_dashboard "\<lambda>_. [''q'']" ref_formats ?b "''q''" "''1''"
      "\<lambda>_. Inr (None, None)" "[]" None None memory_result_backend_new, OF _ _ ref_formats_ok this]
  show ?thesis
    by (auto simp: dead http_dashboard_def ds_with_result_backend_def dashboard_state_new_def)
qed

end
