(* ===== verification/Kojin_Macros.thy ===== *)
theory Kojin_Macros
  imports Kojin_Registry
begin

text \<open>
  The attribute macro \<open>#[task(...)]\<close> of \<open>kojin-macros\<close>: the parser of its arguments
  (\<open>task_attr.rs\<close>), the checks and the generated items (\<open>codegen.rs\<close>) and the entry point
  (\<open>lib.rs\<close>). The parser works on the input stream of the \<open>syn\<close> crate: its elementary parsers are
  a parameter, and the locale \<open>syn_tokens\<close> states what they do to the tokens still to be read.
  Syntax trees keep what the macro looks at. Identifiers are ASCII texts.
\<close>

subsection \<open>The input stream\<close>

datatype token = TIdent string | TEq | TComma | TStr string | TInt string | TOther string

datatype syn_Lit = LitInt string | LitOther string

datatype syn_Expr = ExprLit syn_Lit | ExprOther "token list"

record 's syn_input =
  in_is_empty :: "'s \<Rightarrow> bool"
  in_ident :: "'s \<Rightarrow> string + string \<times> 's"
  in_eq :: "'s \<Rightarrow> string + unit \<times> 's"
  in_comma :: "'s \<Rightarrow> string + unit \<times> 's"
  in_str :: "'s \<Rightarrow> string + string \<times> 's"
  in_expr :: "'s \<Rightarrow> string + syn_Expr \<times> 's"

subsection \<open>The arguments of the attribute (task\_attr.rs)\<close>

record TaskAttr =
  ta_queue :: "string option"
  ta_max_retries :: "u32 option"

definition task_attr_default :: TaskAttr where
  "task_attr_default = \<lparr>ta_queue = None, ta_max_retries = None\<rparr>"

text \<open>\<open>base10_parse\<close> parses the digits of the literal as \<open>u32::from_str\<close> does.\<close>

definition digit_value :: "char \<Rightarrow> nat option" where
  "digit_value c = (let n = of_char c in if 48 \<le> n \<and> n \<le> 57 then Some (n - 48) else None)"

fun from_str_loop :: "nat \<Rightarrow> string \<Rightarrow> string + u32" where
  "from_str_loop acc [] = Inr (of_nat acc)"
| "from_str_loop acc (c # cs) =
     (case digit_value c of
        None \<Rightarrow> Inl ''invalid digit found in string''
      | Some d \<Rightarrow>
          if acc * 10 + d < 2 ^ 32 then from_str_loop (acc * 10 + d) cs
          else Inl ''number too large to fit in target type'')"

definition base10_parse :: "string \<Rightarrow> string + u32" where
  "base10_parse s = (if s = [] then Inl ''cannot parse integer from empty string'' else from_str_loop 0 s)"

text \<open>The body of the loop reads one \<open>key = value\<close>; the value of \<open>max_retries\<close> is any expression.\<close>

definition parse_value :: "'s syn_input \<Rightarrow> string \<Rightarrow> TaskAttr \<Rightarrow> 's \<Rightarrow> string + TaskAttr \<times> 's" where
  "parse_value P key attr s =
     (if key = ''queue'' then
        (case in_str P s of
           Inl e \<Rightarrow> Inl e
         | Inr (v, s') \<Rightarrow> Inr (attr\<lparr>ta_queue := Some v\<rparr>, s'))
      else if key = ''max_retries'' then
        (case in_expr P s of
           Inl e \<Rightarrow> Inl e
         | Inr (ExprLit (LitInt digits), s') \<Rightarrow>
             (case base10_parse digits of
                Inl e \<Rightarrow> Inl e
              | Inr n \<Rightarrow> Inr (attr\<lparr>ta_max_retries := Some n\<rparr>, s'))
         | Inr (_, s') \<Rightarrow> Inr (attr, s'))
      else Inl (''unknown attribute: '' @ key))"

definition parse_pair :: "'s syn_input \<Rightarrow> TaskAttr \<Rightarrow> 's \<Rightarrow> string + TaskAttr \<times> 's" where
  "parse_pair P attr s =
     (case in_ident P s of
        Inl e \<Rightarrow> Inl e
      | Inr (key, s1) \<Rightarrow>
          (case in_eq P s1 of
             Inl e \<Rightarrow> Inl e
           | Inr (_, s2) \<Rightarrow> parse_value P key attr s2))"

partial_function (option) parse_attrs ::
  "'s syn_input \<Rightarrow> TaskAttr \<Rightarrow> 's \<Rightarrow> (string + TaskAttr) option" where
  "parse_attrs P attr s =
     (if in_is_empty P s then Some (Inr attr)
      else case parse_pair P attr s of
             Inl e \<Rightarrow> Some (Inl e)
           | Inr (attr', s') \<Rightarrow>
               (if in_is_empty P s' then parse_attrs P attr' s'
                else case in_comma P s' of
                       Inl e \<Rightarrow> Some (Inl e)
                     | Inr (_, s'') \<Rightarrow> parse_attrs P attr' s''))"

definition task_attr_parse :: "'s syn_input \<Rightarrow> 's \<Rightarrow> (string + TaskAttr) option" where
  "task_attr_parse P s = parse_attrs P task_attr_default s"

subsection \<open>The annotated function\<close>

datatype syn_Type =
    TypeReference syn_Type
  | TypePath "path_segment list"
  | TypeOther string
and path_segment = PathSegment (seg_ident: string) (seg_arguments: path_arguments)
and path_arguments = NoArguments | AngleBracketed "generic_argument list" | Parenthesized
and generic_argument = GenericType syn_Type | GenericOther string

datatype syn_Pat = PatIdent string | PatOther string

datatype FnArg = Typed syn_Pat syn_Type | Receiver

datatype ReturnType = ReturnDefault | ReturnTyped syn_Type

record 'b ItemFn =
  fn_vis :: string
  fn_ident :: string
  fn_async :: bool
  fn_inputs :: "FnArg list"
  fn_output :: ReturnType
  fn_block :: 'b

subsection \<open>Code generation (codegen.rs)\<close>

text \<open>The items that \<open>quote!\<close> writes, as the parts that vary: struct, fields, associated items, body.\<close>

record 'b task_item =
  gi_vis :: string
  gi_struct :: string
  gi_fields :: "(string \<times> syn_Type) list"
  gi_NAME :: string
  gi_QUEUE :: string
  gi_MAX_RETRIES :: u32
  gi_Output :: syn_Type
  gi_body :: 'b

definition char_in :: "nat \<Rightarrow> nat \<Rightarrow> char \<Rightarrow> bool" where
  "char_in a b c \<longleftrightarrow> a \<le> (of_char c :: nat) \<and> (of_char c :: nat) \<le> b"

definition letter :: "char \<Rightarrow> bool" where
  "letter c \<longleftrightarrow> char_in 65 90 c \<or> char_in 97 122 c"

definition digit :: "char \<Rightarrow> bool" where
  "digit c \<longleftrightarrow> char_in 48 57 c"

definition to_uppercase :: "char \<Rightarrow> char" where
  "to_uppercase c = (if char_in 97 122 c then char_of ((of_char c :: nat) - 32) else c)"

fun split_on :: "char \<Rightarrow> string \<Rightarrow> string list" where
  "split_on sep [] = [[]]"
| "split_on sep (c # cs) =
     (if c = sep then [] # split_on sep cs
      else case split_on sep cs of [] \<Rightarrow> [[c]] | w # ws \<Rightarrow> (c # w) # ws)"

fun capitalize :: "string \<Rightarrow> string" where
  "capitalize [] = []"
| "capitalize (c # cs) = to_uppercase c # cs"

definition to_pascal_case :: "string \<Rightarrow> string" where
  "to_pascal_case s = concat (map capitalize (split_on CHR ''_'' s))"

text \<open>\<open>format_ident!\<close> panics when the text is not an identifier or keyword.\<close>

fun legal_ident :: "string \<Rightarrow> bool" where
  "legal_ident [] \<longleftrightarrow> False"
| "legal_ident (c # cs) \<longleftrightarrow>
     (letter c \<or> c = CHR ''_'') \<and> list_all (\<lambda>x. letter x \<or> digit x \<or> x = CHR ''_'') cs"

definition format_ident :: "string \<Rightarrow> string option" where
  "format_ident s = (if legal_ident s then Some s else None)"

definition extract_result_inner :: "syn_Type \<Rightarrow> syn_Type" where
  "extract_result_inner ty =
     (case ty of
        TypePath segments \<Rightarrow>
          (if segments = [] then ty
           else let segment = last segments in
             if seg_ident segment = ''TaskResult'' \<or> seg_ident segment = ''Result'' then
               (case seg_arguments segment of
                  AngleBracketed (GenericType inner # _) \<Rightarrow> inner
                | _ \<Rightarrow> ty)
             else ty)
      | _ \<Rightarrow> ty)"

definition unit_type :: syn_Type where
  "unit_type = TypeOther ''()''"

fun collect_fields :: "FnArg list \<Rightarrow> (string \<times> syn_Type) list \<Rightarrow> string + (string \<times> syn_Type) list" where
  "collect_fields [] acc = Inr acc"
| "collect_fields (Typed (PatIdent n) ty # ps) acc = collect_fields ps (acc @ [(n, ty)])"
| "collect_fields (Typed (PatOther t) ty # ps) acc = Inl ''expected named parameter''"
| "collect_fields (Receiver # ps) acc = Inl ''unexpected self parameter''"

definition check_first :: "FnArg \<Rightarrow> string option" where
  "check_first p =
     (case p of
        Typed pat (TypeReference ty) \<Rightarrow> None
      | Typed pat _ \<Rightarrow>
          Some ''first parameter must be a reference to TaskContext (e.g., ctx: &TaskContext)''
      | Receiver \<Rightarrow> Some ''#[task] function cannot have self parameter'')"

definition task_item_of :: "TaskAttr \<Rightarrow> 'b ItemFn \<Rightarrow> string \<Rightarrow> (string \<times> syn_Type) list \<Rightarrow> 'b task_item" where
  "task_item_of attr func struct_name fs =
     \<lparr>gi_vis = fn_vis func, gi_struct = struct_name, gi_fields = fs, gi_NAME = fn_ident func,
      gi_QUEUE = (case ta_queue attr of None \<Rightarrow> ''default'' | Some q \<Rightarrow> q),
      gi_MAX_RETRIES = (case ta_max_retries attr of None \<Rightarrow> 3 | Some n \<Rightarrow> n),
      gi_Output = (case fn_output func of ReturnDefault \<Rightarrow> unit_type
                   | ReturnTyped ty \<Rightarrow> extract_result_inner ty),
      gi_body = fn_block func\<rparr>"

definition generate_task :: "TaskAttr \<Rightarrow> 'b ItemFn \<Rightarrow> (string + 'b task_item) option" where
  "generate_task attr func =
     (case format_ident (to_pascal_case (fn_ident func)) of
        None \<Rightarrow> None
      | Some struct_name \<Rightarrow> Some
          (if \<not> fn_async func then Inl ''#[task] function must be async''
           else case fn_inputs func of
             [] \<Rightarrow> Inl ''#[task] function must have at least one parameter: ctx: &TaskContext''
           | first # params \<Rightarrow>
               (case check_first first of
                  Some e \<Rightarrow> Inl e
                | None \<Rightarrow>
                    (case collect_fields params [] of
                       Inl e \<Rightarrow> Inl e
                     | Inr fs \<Rightarrow> Inr (task_item_of attr func struct_name fs)))))"

text \<open>
  What the generated \<open>impl Task\<close> means: a value of the struct is the list of its field values;
  \<open>run\<close> evaluates the body with the parameter \<open>ctx\<close> and, shadowing it, the fields in scope.
  \<open>eval\<close> stands for the meaning of a Rust block.
\<close>

definition item_task :: "('b \<Rightarrow> (string \<rightharpoonup> 'c + 'd) \<Rightarrow> 'x \<Rightarrow> 'o TaskResult \<times> 'x) \<Rightarrow>
    ('v \<Rightarrow> string + 'd list) \<Rightarrow> ('d list \<Rightarrow> string + 'v) \<Rightarrow> ('o \<Rightarrow> string + 'v) \<Rightarrow>
    'b task_item \<Rightarrow> ('d list, 'o, 'v, 'c, 'x) Task" where
  "item_task eval from_value to_value output_to_value g =
     \<lparr>t_NAME = gi_NAME g, t_QUEUE = gi_QUEUE g, t_MAX_RETRIES = gi_MAX_RETRIES g,
      t_backoff = task_default_backoff,
      t_run = (\<lambda>self ctx. eval (gi_body g)
        ([''ctx'' \<mapsto> Inl ctx] (map fst (gi_fields g) [\<mapsto>] map Inr self))),
      t_from_value = from_value, t_to_value = to_value, t_output_to_value = output_to_value\<rparr>"

subsection \<open>The entry point (lib.rs)\<close>

datatype 'b macro_output = CompileError string | Items "'b task_item"

definition task_macro :: "'s syn_input \<Rightarrow> ('i \<Rightarrow> string + 'b ItemFn) \<Rightarrow> 's \<Rightarrow> 'i \<Rightarrow> 'b macro_output option" where
  "task_macro P parse_fn attr item =
     (case task_attr_parse P attr of
        None \<Rightarrow> None
      | Some (Inl e) \<Rightarrow> Some (CompileError e)
      | Some (Inr a) \<Rightarrow>
          (case parse_fn item of
             Inl e \<Rightarrow> Some (CompileError e)
           | Inr f \<Rightarrow>
               (case generate_task a f of
                  None \<Rightarrow> None
                | Some (Inl e) \<Rightarrow> Some (CompileError e)
                | Some (Inr g) \<Rightarrow> Some (Items g))))"

subsection \<open>Reading back the arguments\<close>

lemma digit_value_show: "n < 10 \<Longrightarrow> digit_value (''0123456789'' ! n) = Some n"
proof -
  assume "n < 10"
  then have "n \<in> {0, 1, 2, 3, 4, 5, 6, 7, 8, 9}" by auto
  then show ?thesis by (auto simp: digit_value_def)
qed

lemma from_str_loop_show:
  "n < 2 ^ 32 \<Longrightarrow> from_str_loop 0 (show_nat n @ cs) = from_str_loop n cs"
proof (induction n arbitrary: cs rule: show_nat.induct)
  case (1 n)
  show ?case
  proof (cases "n < 10")
    case True
    with 1 show ?thesis by (simp add: show_nat.simps [of n] digit_value_show)
  next
    case False
    with 1 show ?thesis by (simp add: show_nat.simps [of n] digit_value_show)
  qed
qed

lemma show_nat_not_Nil: "show_nat n \<noteq> []"
  by (simp add: show_nat.simps [of n])

lemma base10_parse_show: "base10_parse (show_nat (unat n)) = Inr n"
  using from_str_loop_show [of "unat n" "[]"] unsigned_less [of n]
  by (simp add: base10_parse_def show_nat_not_Nil)

text \<open>
  The arguments as a programmer writes them: items separated by commas, with an optional comma
  at the end. An item \<open>MaxRetriesExpr\<close> gives an expression that is not an integer literal.
\<close>

datatype attr_item = Queue string | MaxRetries u32 | MaxRetriesExpr syn_Expr "token list"

fun item_value :: "attr_item \<Rightarrow> token list" where
  "item_value (Queue q) = [TStr q]"
| "item_value (MaxRetries n) = [TInt (show_nat (unat n))]"
| "item_value (MaxRetriesExpr e ts) = ts"

fun item_key :: "attr_item \<Rightarrow> string" where
  "item_key (Queue q) = ''queue''"
| "item_key (MaxRetries n) = ''max_retries''"
| "item_key (MaxRetriesExpr e ts) = ''max_retries''"

definition item_tokens :: "attr_item \<Rightarrow> token list" where
  "item_tokens x = TIdent (item_key x) # TEq # item_value x"

fun attr_tokens :: "attr_item list \<Rightarrow> bool \<Rightarrow> token list" where
  "attr_tokens [] comma = []"
| "attr_tokens [x] comma = item_tokens x @ (if comma then [TComma] else [])"
| "attr_tokens (x # y # ys) comma = item_tokens x @ TComma # attr_tokens (y # ys) comma"

fun apply_item :: "attr_item \<Rightarrow> TaskAttr \<Rightarrow> TaskAttr" where
  "apply_item (Queue q) a = a\<lparr>ta_queue := Some q\<rparr>"
| "apply_item (MaxRetries n) a = a\<lparr>ta_max_retries := Some n\<rparr>"
| "apply_item (MaxRetriesExpr e ts) a = a"

fun item_ok :: "(syn_Expr \<Rightarrow> token list \<Rightarrow> bool) \<Rightarrow> attr_item \<Rightarrow> bool" where
  "item_ok expr_text (MaxRetriesExpr e ts) \<longleftrightarrow> expr_text e ts \<and> (\<forall>d. e \<noteq> ExprLit (LitInt d))"
| "item_ok expr_text _ \<longleftrightarrow> True"

locale syn_tokens =
  fixes P :: "'s syn_input"
    and toks :: "'s \<Rightarrow> token list"
    and expr_text :: "syn_Expr \<Rightarrow> token list \<Rightarrow> bool"
  assumes is_empty_iff: "in_is_empty P s \<longleftrightarrow> toks s = []"
    and ident_reads: "toks s = TIdent i # ts \<Longrightarrow> \<exists>s'. in_ident P s = Inr (i, s') \<and> toks s' = ts"
    and ident_fails: "(\<And>i ts. toks s \<noteq> TIdent i # ts) \<Longrightarrow> \<exists>e. in_ident P s = Inl e"
    and eq_reads: "toks s = TEq # ts \<Longrightarrow> \<exists>s'. in_eq P s = Inr ((), s') \<and> toks s' = ts"
    and eq_fails: "(\<And>ts. toks s \<noteq> TEq # ts) \<Longrightarrow> \<exists>e. in_eq P s = Inl e"
    and comma_reads: "toks s = TComma # ts \<Longrightarrow> \<exists>s'. in_comma P s = Inr ((), s') \<and> toks s' = ts"
    and comma_fails: "(\<And>ts. toks s \<noteq> TComma # ts) \<Longrightarrow> \<exists>e. in_comma P s = Inl e"
    and str_reads: "toks s = TStr x # ts \<Longrightarrow> \<exists>s'. in_str P s = Inr (x, s') \<and> toks s' = ts"
    and str_fails: "(\<And>x ts. toks s \<noteq> TStr x # ts) \<Longrightarrow> \<exists>e. in_str P s = Inl e"
    and expr_reads: "\<lbrakk>expr_text e ts; toks s = ts @ rest; rest = [] \<or> hd rest = TComma\<rbrakk> \<Longrightarrow>
          \<exists>s'. in_expr P s = Inr (e, s') \<and> toks s' = rest"
    and expr_consumes: "in_expr P s = Inr (e, s') \<Longrightarrow> length (toks s') < length (toks s)"
    and int_text: "expr_text (ExprLit (LitInt d)) [TInt d]"
begin

lemma parse_value_item:
  assumes "item_ok expr_text x" and "toks s = item_value x @ rest" and "rest = [] \<or> hd rest = TComma"
  shows "\<exists>s'. parse_value P (item_key x) a s = Inr (apply_item x a, s') \<and> toks s' = rest"
proof (cases x)
  case (Queue q)
  with assms str_reads [of s q rest] show ?thesis by (auto simp: parse_value_def)
next
  case (MaxRetries n)
  with assms expr_reads [OF int_text, of s "show_nat (unat n)" rest] show ?thesis
    by (auto simp: parse_value_def base10_parse_show)
next
  case (MaxRetriesExpr e ts)
  with assms expr_reads [of e ts s rest] show ?thesis
    by (auto simp: parse_value_def split: syn_Expr.split syn_Lit.split)
qed

lemma parse_pair_item:
  assumes "item_ok expr_text x" and "toks s = item_tokens x @ rest" and "rest = [] \<or> hd rest = TComma"
  shows "\<exists>s'. parse_pair P a s = Inr (apply_item x a, s') \<and> toks s' = rest"
proof -
  from assms(2) ident_reads [of s "item_key x" "TEq # item_value x @ rest"]
  obtain s1 where 1: "in_ident P s = Inr (item_key x, s1)" "toks s1 = TEq # item_value x @ rest"
    by (auto simp: item_tokens_def)
  with eq_reads obtain s2 where "in_eq P s1 = Inr ((), s2)" "toks s2 = item_value x @ rest" by blast
  with 1 parse_value_item [OF assms(1) _ assms(3), of s2 a] show ?thesis by (simp add: parse_pair_def)
qed

lemma parse_attrs_empty: "toks s = [] \<Longrightarrow> parse_attrs P a s = Some (Inr a)"
  by (simp add: parse_attrs.simps is_empty_iff)

lemma parse_attrs_item:
  assumes "item_ok expr_text x" and "toks s = item_tokens x @ TComma # rest"
  shows "\<exists>s'. parse_attrs P a s = parse_attrs P (apply_item x a) s' \<and> toks s' = rest"
proof -
  from parse_pair_item [OF assms, of a] obtain s1 where 1: "parse_pair P a s = Inr (apply_item x a, s1)"
    and t1: "toks s1 = TComma # rest" by auto
  from comma_reads [OF t1] obtain s2 where "in_comma P s1 = Inr ((), s2)" "toks s2 = rest" by auto
  with 1 t1 assms(2) show ?thesis
    by (intro exI [of _ s2], subst parse_attrs.simps) (simp add: is_empty_iff item_tokens_def)
qed

lemma parse_attrs_last_item:
  assumes "item_ok expr_text x" and "toks s = item_tokens x"
  shows "parse_attrs P a s = Some (Inr (apply_item x a))"
proof -
  from parse_pair_item [OF assms(1), of s "[]" a] assms(2)
  obtain s1 where "parse_pair P a s = Inr (apply_item x a, s1)" "toks s1 = []" by auto
  with assms(2) show ?thesis
    by (subst parse_attrs.simps) (simp add: is_empty_iff item_tokens_def parse_attrs_empty)
qed

lemma parse_attrs_tokens:
  "\<lbrakk>list_all (item_ok expr_text) xs; toks s = attr_tokens xs comma\<rbrakk> \<Longrightarrow>
     parse_attrs P a s = Some (Inr (fold apply_item xs a))"
proof (induction xs comma arbitrary: a s rule: attr_tokens.induct)
  case (1 comma)
  then show ?case by (simp add: parse_attrs_empty)
next
  case (2 x comma)
  then show ?case
    using parse_attrs_last_item [of x s a] parse_attrs_item [of x s "[]" a] parse_attrs_empty
    by (cases comma) auto
next
  case (3 x y ys comma)
  then show ?case using parse_attrs_item [of x s "attr_tokens (y # ys) comma" a] by auto
qed

lemma parse_attrs_prefix:
  "\<lbrakk>list_all (item_ok expr_text) xs; toks s = concat (map (\<lambda>x. item_tokens x @ [TComma]) xs) @ rest\<rbrakk> \<Longrightarrow>
     \<exists>s'. parse_attrs P a s = parse_attrs P (fold apply_item xs a) s' \<and> toks s' = rest"
proof (induction xs arbitrary: a s)
  case Nil
  then show ?case by auto
next
  case (Cons x xs)
  then obtain s1 where "parse_attrs P a s = parse_attrs P (apply_item x a) s1"
    and "toks s1 = concat (map (\<lambda>x. item_tokens x @ [TComma]) xs) @ rest"
    using parse_attrs_item [of x s _ a] by auto
  with Cons show ?case by simp
qed

lemma parse_attrs_unknown:
  assumes "toks s = TIdent k # TEq # rest" and "k \<noteq> ''queue''" and "k \<noteq> ''max_retries''"
  shows "parse_attrs P a s = Some (Inl (''unknown attribute: '' @ k))"
proof -
  from ident_reads [OF assms(1)] obtain s1 where 1: "in_ident P s = Inr (k, s1)" "toks s1 = TEq # rest" by auto
  with eq_reads obtain s2 where "in_eq P s1 = Inr ((), s2)" by blast
  with 1 assms show ?thesis
    by (subst parse_attrs.simps) (simp add: is_empty_iff parse_pair_def parse_value_def)
qed

lemma parse_pair_consumes:
  assumes "parse_pair P a s = Inr (a', s')"
  shows "length (toks s') < length (toks s)"
proof -
  from assms obtain k s1 s2 where i: "in_ident P s = Inr (k, s1)" and e: "in_eq P s1 = Inr ((), s2)"
    and v: "parse_value P k a s2 = Inr (a', s')"
    by (auto simp: parse_pair_def split: sum.splits)
  from i ident_fails [of s] ident_reads [of s] have "length (toks s1) < length (toks s)" by fastforce
  moreover from e eq_fails [of s1] eq_reads [of s1] have "length (toks s2) < length (toks s1)" by fastforce
  moreover from v str_fails [of s2] str_reads [of s2] have "length (toks s') < length (toks s2)"
    by (fastforce simp: parse_value_def split: if_splits sum.splits prod.splits syn_Expr.splits
        syn_Lit.splits dest: expr_consumes)
  ultimately show ?thesis by simp
qed

lemma parse_attrs_returns: "\<exists>r. parse_attrs P a s = Some r"
proof (induction "length (toks s)" arbitrary: a s rule: less_induct)
  case less
  show ?case
  proof (cases "toks s = [] \<or> (\<exists>e. parse_pair P a s = Inl e)")
    case True
    then show ?thesis by (subst parse_attrs.simps) (auto simp: is_empty_iff)
  next
    case False
    then obtain a' s1 where 1: "parse_pair P a s = Inr (a', s1)" by (cases "parse_pair P a s") auto
    have "length (toks s2) < length (toks s)" if "in_comma P s1 = Inr ((), s2)" for s2
      using that comma_fails [of s1] comma_reads [of s1] parse_pair_consumes [OF 1] by fastforce
    with 1 False less parse_pair_consumes [OF 1] show ?thesis
      by (subst parse_attrs.simps) (auto simp: is_empty_iff split: sum.split)
  qed
qed

end

text \<open>
  A reference parser on token lists: an expression extends to the next comma (a comma inside
  brackets belongs to a single bracketed token), and is a literal when it is one literal token.
\<close>

fun expr_of :: "token list \<Rightarrow> syn_Expr" where
  "expr_of [TInt d] = ExprLit (LitInt d)"
| "expr_of [TStr x] = ExprLit (LitOther x)"
| "expr_of ts = ExprOther ts"

fun read_ident :: "token list \<Rightarrow> string + string \<times> token list" where
  "read_ident (TIdent i # ts) = Inr (i, ts)"
| "read_ident _ = Inl ''expected identifier''"

fun read_str :: "token list \<Rightarrow> string + string \<times> token list" where
  "read_str (TStr x # ts) = Inr (x, ts)"
| "read_str _ = Inl ''expected string literal''"

definition read_punct :: "token \<Rightarrow> string \<Rightarrow> token list \<Rightarrow> string + unit \<times> token list" where
  "read_punct t e ts = (if ts \<noteq> [] \<and> hd ts = t then Inr ((), tl ts) else Inl e)"

definition read_expr :: "token list \<Rightarrow> string + syn_Expr \<times> token list" where
  "read_expr ts =
     (let e = takeWhile (\<lambda>t. t \<noteq> TComma) ts in
      if e = [] then Inl ''expected an expression''
      else Inr (expr_of e, dropWhile (\<lambda>t. t \<noteq> TComma) ts))"

definition token_input :: "token list syn_input" where
  "token_input =
     \<lparr>in_is_empty = (\<lambda>ts. ts = []), in_ident = read_ident, in_eq = read_punct TEq ''expected `=`'',
      in_comma = read_punct TComma ''expected `,`'', in_str = read_str, in_expr = read_expr\<rparr>"

definition token_expr_text :: "syn_Expr \<Rightarrow> token list \<Rightarrow> bool" where
  "token_expr_text e ts \<longleftrightarrow> ts \<noteq> [] \<and> TComma \<notin> set ts \<and> e = expr_of ts"

lemma read_expr_reads:
  assumes "token_expr_text e ts" and "rest = [] \<or> hd rest = TComma"
  shows "read_expr (ts @ rest) = Inr (e, rest)"
proof -
  from assms(1) have ts: "\<forall>t\<in>set ts. t \<noteq> TComma" "ts \<noteq> []" "e = expr_of ts"
    by (auto simp: token_expr_text_def)
  moreover from assms(2) have "takeWhile (\<lambda>t. t \<noteq> TComma) rest = []" "dropWhile (\<lambda>t. t \<noteq> TComma) rest = rest"
    by (cases rest; simp)+
  ultimately show ?thesis by (simp add: read_expr_def takeWhile_append2 dropWhile_append2)
qed

lemma read_expr_consumes: "read_expr ts = Inr (e, ts') \<Longrightarrow> length ts' < length ts"
  by (cases ts) (auto simp: read_expr_def Let_def length_dropWhile_le less_Suc_eq_le split: if_splits)

interpretation token_lists: syn_tokens token_input "\<lambda>ts. ts" token_expr_text
proof unfold_locales
  show "\<exists>s'. in_expr token_input s = Inr (e, s') \<and> s' = rest"
    if "token_expr_text e ts" "s = ts @ rest" "rest = [] \<or> hd rest = TComma" for e ts s rest
    using that read_expr_reads by (simp add: token_input_def)
  show "length s' < length s" if "in_expr token_input s = Inr (e, s')" for s s' e
    using that read_expr_consumes by (simp add: token_input_def)
  show "\<exists>e. in_ident token_input s = Inl e" if "\<And>i ts. s \<noteq> TIdent i # ts" for s
    using that by (cases s rule: read_ident.cases) (auto simp: token_input_def)
  show "\<exists>e. in_str token_input s = Inl e" if "\<And>x ts. s \<noteq> TStr x # ts" for s
    using that by (cases s rule: read_str.cases) (auto simp: token_input_def)
  show "\<exists>e. in_eq token_input s = Inl e" if "\<And>ts. s \<noteq> TEq # ts" for s
    using that by (cases s) (auto simp: token_input_def read_punct_def)
  show "\<exists>e. in_comma token_input s = Inl e" if "\<And>ts. s \<noteq> TComma # ts" for s
    using that by (cases s) (auto simp: token_input_def read_punct_def)
qed (auto simp: token_input_def read_punct_def token_expr_text_def)

subsection \<open>Names of generated structs\<close>

lemma split_on_not_Nil: "split_on c s \<noteq> []"
  by (induction s) (auto split: list.split)

lemma to_pascal_case_underscore: "to_pascal_case (CHR ''_'' # s) = to_pascal_case s"
  by (simp add: to_pascal_case_def)

lemma to_pascal_case_drop: "to_pascal_case (dropWhile (\<lambda>c. c = CHR ''_'') s) = to_pascal_case s"
  by (induction s) (auto simp: to_pascal_case_underscore)

lemma set_split_on: "w \<in> set (split_on sep s) \<Longrightarrow> set w \<subseteq> set s - {sep}"
proof (induction s arbitrary: w)
  case Nil
  then show ?case by simp
next
  case (Cons c cs)
  then show ?case by (fastforce split: if_splits list.splits)
qed

lemma set_capitalize: "set (capitalize w) \<subseteq> set w \<union> to_uppercase ` set w"
  by (cases w) auto

lemma to_pascal_case_chars:
  "c \<in> set (to_pascal_case s) \<Longrightarrow> \<exists>d\<in>set s. d \<noteq> CHR ''_'' \<and> (c = d \<or> c = to_uppercase d)"
  unfolding to_pascal_case_def using set_split_on set_capitalize by fastforce

lemma to_pascal_case_hd:
  "c \<noteq> CHR ''_'' \<Longrightarrow> \<exists>cs. to_pascal_case (c # s) = to_uppercase c # cs"
  using split_on_not_Nil [of "CHR ''_''" s] by (auto simp: to_pascal_case_def split: list.split)

lemma of_char_to_uppercase:
  "(of_char (to_uppercase c) :: nat) = (if char_in 97 122 c then of_char c - 32 else of_char c)"
  by (auto simp: to_uppercase_def char_in_def)

lemma letter_to_uppercase: "letter (to_uppercase c) \<longleftrightarrow> letter c"
  by (auto simp: letter_def char_in_def of_char_to_uppercase)

lemma digit_to_uppercase: "digit (to_uppercase c) \<longleftrightarrow> digit c"
  by (auto simp: digit_def char_in_def of_char_to_uppercase)

lemma to_uppercase_underscore: "to_uppercase c = CHR ''_'' \<longleftrightarrow> c = CHR ''_''"
proof -
  have "(of_char (to_uppercase c) :: nat) = 95 \<longleftrightarrow> (of_char c :: nat) = 95"
    by (auto simp: of_char_to_uppercase char_in_def)
  moreover have "(of_char d :: nat) = 95 \<longleftrightarrow> d = CHR ''_''" for d
    using inj_of_char [THEN inj_eq, of d "CHR ''_''"] by simp
  ultimately show ?thesis by simp
qed

lemma legal_ident_pascal:
  assumes "legal_ident s"
  shows "legal_ident (to_pascal_case s) \<longleftrightarrow>
    (\<exists>c cs. dropWhile (\<lambda>c. c = CHR ''_'') s = c # cs \<and> letter c)"
proof (cases "dropWhile (\<lambda>c. c = CHR ''_'') s")
  case Nil
  with to_pascal_case_drop [of s] have "to_pascal_case s = []" by (simp add: to_pascal_case_def)
  then show ?thesis unfolding Nil by simp
next
  case (Cons c cs)
  then have c: "c \<noteq> CHR ''_''" by (auto simp: dropWhile_eq_Cons_conv)
  then obtain ds where ds: "to_pascal_case s = to_uppercase c # ds"
    using to_pascal_case_hd to_pascal_case_drop Cons by metis
  from assms have "\<forall>x\<in>set s. letter x \<or> digit x \<or> x = CHR ''_''"
    by (cases s) (auto simp: list_all_iff)
  then have "list_all (\<lambda>x. letter x \<or> digit x \<or> x = CHR ''_'') ds"
    using to_pascal_case_chars [of _ s] ds
    by (fastforce simp: list_all_iff letter_to_uppercase digit_to_uppercase)
  with c Cons ds show ?thesis by (simp add: letter_to_uppercase to_uppercase_underscore)
qed

subsection \<open>Which functions are accepted\<close>

lemma collect_fields_map: "collect_fields (map (\<lambda>(n, ty). Typed (PatIdent n) ty) fs) acc = Inr (acc @ fs)"
  by (induction fs arbitrary: acc) auto

lemma collect_fields_InrD:
  "collect_fields ps acc = Inr fs \<Longrightarrow> \<exists>gs. ps = map (\<lambda>(n, ty). Typed (PatIdent n) ty) gs \<and> fs = acc @ gs"
  by (induction ps acc rule: collect_fields.induct) (auto simp: Cons_eq_map_conv)

lemma named_params_inject:
  "map (\<lambda>(n, ty). Typed (PatIdent n) ty) gs = map (\<lambda>(n, ty). Typed (PatIdent n) ty) fs \<longleftrightarrow> gs = fs"
  by (rule inj_map_eq_map) (auto intro: injI)

lemma check_first_None_iff: "check_first p = None \<longleftrightarrow> (\<exists>pat ty. p = Typed pat (TypeReference ty))"
  by (cases p) (auto simp: check_first_def split: syn_Type.split)

definition accepted :: "'b ItemFn \<Rightarrow> (string \<times> syn_Type) list \<Rightarrow> bool" where
  "accepted func fs \<longleftrightarrow> fn_async func \<and>
     (\<exists>pat ty. fn_inputs func = Typed pat (TypeReference ty) # map (\<lambda>(n, ty). Typed (PatIdent n) ty) fs)"

lemma generate_task_Inr_iff:
  "generate_task attr func = Some (Inr g) \<longleftrightarrow> legal_ident (to_pascal_case (fn_ident func)) \<and>
     (\<exists>fs. accepted func fs \<and> g = task_item_of attr func (to_pascal_case (fn_ident func)) fs)"
  using check_first_None_iff [of "hd (fn_inputs func)"]
  by (cases "fn_inputs func")
     (auto simp: generate_task_def format_ident_def accepted_def collect_fields_map named_params_inject
        split: option.splits sum.splits if_splits dest!: collect_fields_InrD)

lemma generate_task_None_iff:
  "generate_task attr func = None \<longleftrightarrow> \<not> legal_ident (to_pascal_case (fn_ident func))"
  by (auto simp: generate_task_def format_ident_def)

lemma map_upds_zip:
  "\<lbrakk>distinct ns; length vs = length ns\<rbrakk> \<Longrightarrow>
     (m(ns [\<mapsto>] map f vs)) n = (case map_of (zip ns vs) n of None \<Rightarrow> m n | Some v \<Rightarrow> Some (f v))"
proof (induction ns arbitrary: vs m)
  case Nil
  then show ?case by simp
next
  case (Cons k ns)
  then obtain v us where "vs = v # us" by (cases vs) auto
  moreover have "map_of (zip ns us) k = None" if "k \<notin> set ns" for us :: "'a list"
    using that by (auto simp: map_of_eq_None_iff dest: set_zip_leftD)
  ultimately show ?case using Cons by auto
qed

subsection \<open>Properties\<close>

fun queue_of :: "attr_item \<Rightarrow> string option" where
  "queue_of (Queue q) = Some q"
| "queue_of _ = None"

fun retries_of :: "attr_item \<Rightarrow> u32 option" where
  "retries_of (MaxRetries n) = Some n"
| "retries_of _ = None"

definition last_given :: "(attr_item \<Rightarrow> 'a option) \<Rightarrow> attr_item list \<Rightarrow> 'a option" where
  "last_given f xs = (case rev (List.map_filter f xs) of [] \<Rightarrow> None | y # _ \<Rightarrow> Some y)"

lemma last_given_snoc: "last_given f (xs @ [x]) = (case f x of None \<Rightarrow> last_given f xs | Some y \<Rightarrow> Some y)"
  by (simp add: last_given_def map_filter_def split: option.split)

lemma fold_apply_item:
  "fold apply_item xs task_attr_default =
     \<lparr>ta_queue = last_given queue_of xs, ta_max_retries = last_given retries_of xs\<rparr>"
proof (induction xs rule: rev_induct)
  case Nil
  show ?case by (simp add: task_attr_default_def last_given_def map_filter_def)
next
  case (snoc x xs)
  then show ?case by (cases x) (simp_all add: last_given_snoc)
qed

text \<open>C36: the arguments of \<open>#[task(...)]\<close> are read back as written: for every sequence of \<open>queue\<close> and
  \<open>max_retries\<close> items, with or without a final comma, the parser returns the last value given
  for each, every 32-bit number of retries exactly; a \<open>max_retries\<close> that is not an integer literal
  is ignored without an error. A key that is neither is reported by its name, after any
  number of good items; and the parser returns on every input.\<close>

theorem task_attr_round_trip:
  assumes "syn_tokens P toks expr_text" and "list_all (item_ok expr_text) xs"
    and "toks s = attr_tokens xs comma"
    and "toks u = concat (map (\<lambda>x. item_tokens x @ [TComma]) xs) @ TIdent k # TEq # rest"
    and "k \<noteq> ''queue''" and "k \<noteq> ''max_retries''"
  shows "task_attr_parse P s =
      Some (Inr \<lparr>ta_queue = last_given queue_of xs, ta_max_retries = last_given retries_of xs\<rparr>) \<and>
    task_attr_parse P u = Some (Inl (''unknown attribute: '' @ k)) \<and> (\<exists>r. task_attr_parse P v = Some r)"
proof -
  from syn_tokens.parse_attrs_tokens [OF assms(1-3)]
  have "task_attr_parse P s = Some (Inr (fold apply_item xs task_attr_default))"
    by (simp add: task_attr_parse_def)
  moreover from syn_tokens.parse_attrs_prefix [OF assms(1,2,4)]
    syn_tokens.parse_attrs_unknown [OF assms(1) _ assms(5,6)]
  have "task_attr_parse P u = Some (Inl (''unknown attribute: '' @ k))"
    unfolding task_attr_parse_def by metis
  ultimately show ?thesis
    using syn_tokens.parse_attrs_returns [OF assms(1)] by (simp add: fold_apply_item task_attr_parse_def)
qed

theorem task_attr_round_trip_witness:
  "task_attr_parse token_input [TIdent ''queue'', TEq, TStr ''emails'', TComma, TIdent ''max_retries'', TEq,
      TIdent ''LIMIT''] = Some (Inr \<lparr>ta_queue = Some ''emails'', ta_max_retries = None\<rparr>)"
  using task_attr_round_trip [OF token_lists.syn_tokens_axioms, of
      "[Queue ''emails'', MaxRetriesExpr (ExprOther [TIdent ''LIMIT'']) [TIdent ''LIMIT'']]"
      "attr_tokens [Queue ''emails'', MaxRetriesExpr (ExprOther [TIdent ''LIMIT'']) [TIdent ''LIMIT'']] False" False
      "concat (map (\<lambda>x. item_tokens x @ [TComma]) [Queue ''emails'',
         MaxRetriesExpr (ExprOther [TIdent ''LIMIT'']) [TIdent ''LIMIT'']]) @ [TIdent ''name'', TEq]"
      "''name''" "[]"]
  by (simp add: token_expr_text_def item_tokens_def last_given_def map_filter_def)

text \<open>C37: the macro accepts exactly the functions it documents: \<open>async\<close>, a first parameter that is a
  reference, then only named parameters. It then generates a struct with these parameters as
  fields, in order, under the function's name in Pascal case; the task name is the function's,
  the queue and the retries are those of the attribute or \<open>default\<close> and 3. Otherwise it reports
  an error, except that it panics, whatever the function, when the name without its leading
  underscores does not start with a letter.\<close>

theorem generate_task_verdict:
  assumes "legal_ident (fn_ident func)"
  shows "((\<exists>g. generate_task attr func = Some (Inr g)) \<longleftrightarrow>
      (\<exists>c cs. dropWhile (\<lambda>c. c = CHR ''_'') (fn_ident func) = c # cs \<and> letter c) \<and> (\<exists>fs. accepted func fs)) \<and>
    (generate_task attr func = None \<longleftrightarrow>
      \<not> (\<exists>c cs. dropWhile (\<lambda>c. c = CHR ''_'') (fn_ident func) = c # cs \<and> letter c)) \<and>
    (\<forall>g. generate_task attr func = Some (Inr g) \<longrightarrow> accepted func (gi_fields g) \<and>
      gi_struct g = to_pascal_case (fn_ident func) \<and> gi_NAME g = fn_ident func \<and>
      gi_QUEUE g = (case ta_queue attr of None \<Rightarrow> ''default'' | Some q \<Rightarrow> q) \<and>
      gi_MAX_RETRIES g = (case ta_max_retries attr of None \<Rightarrow> 3 | Some n \<Rightarrow> n))"
  unfolding generate_task_Inr_iff generate_task_None_iff legal_ident_pascal [OF assms]
  by (auto simp: task_item_of_def)

definition send_email :: "unit ItemFn" where
  "send_email =
     \<lparr>fn_vis = [], fn_ident = ''send_email'', fn_async = True,
      fn_inputs = [Typed (PatIdent ''ctx'') (TypeReference (TypeOther ''TaskContext'')),
                   Typed (PatIdent ''to'') (TypeOther ''String'')],
      fn_output = ReturnTyped (TypePath [PathSegment ''TaskResult'' (AngleBracketed [GenericType unit_type])]),
      fn_block = ()\<rparr>"

lemma send_email_accepted: "accepted send_email [(''to'', TypeOther ''String'')]"
  by (simp add: accepted_def send_email_def)

theorem generate_task_verdict_witness:
  "(\<exists>g. generate_task task_attr_default send_email = Some (Inr g)) \<and>
   generate_task task_attr_default (send_email\<lparr>fn_ident := ''_1''\<rparr>) = None"
proof -
  have "legal_ident (fn_ident send_email)" "legal_ident (fn_ident (send_email\<lparr>fn_ident := ''_1''\<rparr>))"
    by (simp_all add: send_email_def letter_def digit_def char_in_def)
  from this [THEN generate_task_verdict [of _ task_attr_default]] send_email_accepted show ?thesis
    by (auto simp: send_email_def letter_def char_in_def)
qed

text \<open>C35: an annotated function becomes a task that runs it: the macro expands \<open>#[task(...)]\<close> on an
  acceptable function, and the message of a value's signature, dispatched by a registry that
  holds the generated task (and others registered later under other names), evaluates the
  function's body with every parameter bound to the value given to \<open>new\<close> and \<open>ctx\<close> to the
  worker's context; the message carries the function's name and the queue and retries of the
  attribute. The context is bound to the name \<open>ctx\<close> whatever the first parameter is called.\<close>

theorem task_macro_runs_function:
  assumes "syn_tokens P toks expr_text" and "list_all (item_ok expr_text) xs"
    and "toks s = attr_tokens xs comma" and "parse_fn item = Inr func"
    and "legal_ident (to_pascal_case (fn_ident func))" and "accepted func fs"
    and "distinct (map fst fs)" and "''ctx'' \<notin> fst ` set fs" and "length args = length fs"
    and "to_value args = Inr p" and "from_value p = Inr args"
    and "eval (fn_block func) (\<lambda>n. if n = ''ctx'' then Some (Inl ctx)
           else map_option Inr (map_of (zip (map fst fs) args) n)) x = (Inr out, y)"
    and "output_to_value out = Inr v" and "t_NAME T' \<noteq> fn_ident func"
  shows "\<exists>g sig. task_macro P parse_fn s item = Some (Items g) \<and>
    task_signature (item_task eval from_value to_value output_to_value g) args = Some sig \<and>
    dispatch (register T' (register (item_task eval from_value to_value output_to_value g) r))
      (sig_task_name sig) (sig_payload sig) ctx x = (Inr v, y) \<and>
    sig_task_name sig = fn_ident func \<and>
    sig_queue sig = (case last_given queue_of xs of None \<Rightarrow> ''default'' | Some q \<Rightarrow> q) \<and>
    sig_max_retries sig = (case last_given retries_of xs of None \<Rightarrow> 3 | Some n \<Rightarrow> n)"
proof -
  let ?attr = "fold apply_item xs task_attr_default"
  let ?g = "task_item_of ?attr func (to_pascal_case (fn_ident func)) fs"
  let ?T = "item_task eval from_value to_value output_to_value ?g"
  let ?sig = "sig_with_max_retries (gi_MAX_RETRIES ?g) (signature_new (fn_ident func) (gi_QUEUE ?g) p)"
  have "generate_task ?attr func = Some (Inr ?g)"
    using assms(5,6) by (auto simp: generate_task_Inr_iff)
  with syn_tokens.parse_attrs_tokens [OF assms(1-3), of task_attr_default] assms(4)
  have macro: "task_macro P parse_fn s item = Some (Items ?g)"
    by (simp add: task_macro_def task_attr_parse_def)
  have sig: "task_signature ?T args = Some ?sig"
    using assms(10) by (simp add: task_signature_def item_task_def task_item_of_def)
  have "([''ctx'' \<mapsto> Inl ctx] (map fst fs [\<mapsto>] map Inr args)) =
      (\<lambda>n. if n = ''ctx'' then Some (Inl ctx) else map_option Inr (map_of (zip (map fst fs) args) n))"
    using assms(7-9) by (auto simp: fun_eq_iff map_upds_zip map_of_eq_None_iff split: option.split
        dest!: set_zip_leftD map_of_SomeD)
  with assms(12) have run: "t_run ?T args ctx x = (Inr out, y)"
    by (simp add: item_task_def task_item_of_def)
  have "dispatch (register T' (register ?T r)) (sig_task_name ?sig) (sig_payload ?sig) ctx x = (Inr v, y)"
    using signature_dispatch_runs_task [OF sig _ _ run, of T' v r] assms(10,11,13,14)
    by (simp add: item_task_def task_item_of_def)
  with macro sig show ?thesis
    by (intro exI conjI)
       (assumption | simp add: sig_with_max_retries_def signature_new_def task_item_of_def fold_apply_item)+
qed

definition email_eval :: "unit \<Rightarrow> (string \<rightharpoonup> unit + string) \<Rightarrow> nat \<Rightarrow> string TaskResult \<times> nat" where
  "email_eval b env x = (case env ''to'' of Some (Inr t) \<Rightarrow> (Inr t, x + length t) | _ \<Rightarrow> (Inr [], 0))"

definition email_task :: "unit task_item \<Rightarrow> (string list, string, string, unit, nat) Task" where
  "email_task = item_task email_eval (\<lambda>v. Inr [v]) (\<lambda>vs. Inr (hd vs)) Inr"

theorem task_macro_runs_function_witness:
  "\<exists>g sig. task_macro token_input Inr [TIdent ''max_retries'', TEq, TInt ''5''] send_email = Some (Items g) \<and>
     task_signature (email_task g) [''ada''] = Some sig \<and>
     dispatch (register (length_task\<lparr>t_NAME := ''other''\<rparr>) (register (email_task g) registry_new))
       (sig_task_name sig) (sig_payload sig) () 4 = (Inr ''ada'', 7) \<and>
     sig_queue sig = ''default'' \<and> sig_max_retries sig = 5"
proof -
  have "show_nat (unat (5 :: u32)) = ''5''" by (simp add: show_nat.simps)
  then have tokens: "[TIdent ''max_retries'', TEq, TInt ''5''] = attr_tokens [MaxRetries 5] False"
    by (simp add: item_tokens_def)
  have name: "legal_ident (to_pascal_case (fn_ident send_email))"
    by (simp add: send_email_def to_pascal_case_def to_uppercase_def letter_def digit_def char_in_def)
  have given: "last_given queue_of [MaxRetries 5] = None" "last_given retries_of [MaxRetries 5] = Some 5"
    by (simp_all add: last_given_def map_filter_def)
  from task_macro_runs_function [of token_input "\<lambda>ts. ts" token_expr_text "[MaxRetries 5]" _ False Inr
        send_email send_email "[(''to'', TypeOther ''String'')]" "[''ada'']" "\<lambda>vs. Inr (hd vs)" "''ada''"
        "\<lambda>v. Inr [v]" email_eval "()" 4 "''ada''" 7 Inr "''ada''" "length_task\<lparr>t_NAME := ''other''\<rparr>" registry_new,
        OF token_lists.syn_tokens_axioms _ tokens _ name send_email_accepted, folded email_task_def]
  show ?thesis unfolding given by (auto simp: send_email_def length_task_def email_eval_def)
qed

end
