(* ===== verification/Kojin_Redis_Steps.thy ===== *)
theory Kojin_Redis_Steps
  imports Kojin_Redis
begin

text \<open>
  The calls of the Redis broker, command by command (\<open>kojin-redis/src/broker.rs\<close>). A call awaits a
  pooled connection and then one command of the server after the other; between two of them other
  calls of the same process and of other processes run. A \<open>call\<close> is the point at which a call
  is suspended, \<open>call_step\<close> does what it does up to the end of its next command. A call that is
  alone has the effect of the operation in \<open>Kojin_Redis\<close>.

  Then any number of producers and workers share a server (\<open>redis_system\<close>). However their commands
  interleave, a task is in one place, and at most one of them works on it.
\<close>

subsection \<open>Calls\<close>

text \<open>\<open>nack\<close> and \<open>dead_letter\<close> go on after their \<open>ack\<close>.\<close>

datatype 'v after_ack = AckOnly | ThenEnqueue "'v TaskMessage" | ThenDeadLetter "'v TaskMessage"

datatype 'v call =
    EnqueueAt "'v TaskMessage"
  | DedupAt string "'v TaskMessage"
  | PushAt string "'v TaskMessage"
  | DequeueAt "string list"
  | PollAt "string list"
  | AckAt TaskId "'v after_ack"
  | ScanAt TaskId "'v after_ack"
  | RemoveAt TaskId string "'v after_ack"
  | DeadLetterAt "'v TaskMessage"
  | Returned "'v TaskMessage option TaskResult"

abbreviation nack_call :: "'v TaskMessage \<Rightarrow> 'v call" where
  "nack_call m \<equiv> AckAt (msg_id m) (ThenEnqueue m)"

fun next_call :: "RedisBroker \<Rightarrow> 'v after_ack \<Rightarrow> 'v call" where
  "next_call b AckOnly = Returned (Inr None)"
| "next_call b (ThenEnqueue m) = EnqueueAt m"
| "next_call b (ThenDeadLetter m) = PushAt (key_dlq (rb_keys b) (msg_queue m)) m"

text \<open>The result of a command decides where the call goes on; an error ends it.\<close>

definition go_on :: "('d \<Rightarrow> 'a TaskResult \<times> 'd) \<Rightarrow> ('a \<Rightarrow> 'v call) \<Rightarrow> 'd \<Rightarrow> 'v call \<times> 'd" where
  "go_on cmd k d = (case cmd d of (Inl e, d') \<Rightarrow> (Returned (Inl e), d') | (Inr a, d') \<Rightarrow> (k a, d'))"

fun call_step :: "'d redis_api \<Rightarrow> (uuid \<Rightarrow> string) \<Rightarrow> 'v json_api \<Rightarrow> RedisBroker \<Rightarrow> Duration \<Rightarrow>
    'v call \<Rightarrow> 'd \<Rightarrow> 'v call \<times> 'd" where
  "call_step A f J b t (EnqueueAt m) =
     go_on (map_err Broker (rd_conn A)) (\<lambda>_.
       case dedup_key (mfields m) of
         None \<Rightarrow> PushAt (key_queue (rb_keys b) (msg_queue m)) m
       | Some k \<Rightarrow> DedupAt k m)"
| "call_step A f J b t (DedupAt k m) =
     (\<lambda>d. case rd_set_nx_ex A (key_dedup (rb_keys b) k) ''1'' (rb_dedup_ttl b) d of
            (Inl e, d') \<Rightarrow> (Returned (Inr None), d')
          | (Inr is_set, d') \<Rightarrow>
              (if is_set then PushAt (key_queue (rb_keys b) (msg_queue m)) m else Returned (Inr None), d'))"
| "call_step A f J b t (PushAt key m) = go_on (rb_push A J key m) (\<lambda>_. Returned (Inr None))"
| "call_step A f J b t (DequeueAt qs) = go_on (map_err Broker (rd_conn A)) (\<lambda>_. PollAt qs)"
| "call_step A f J b t (PollAt []) = Pair (Returned (Inr None))"
| "call_step A f J b t (PollAt (q # qs)) =
     go_on (map_err Broker (rd_blmove A (key_queue (rb_keys b) q)
         (key_processing (rb_keys b) (rb_worker_id b)) t)) (\<lambda>result.
       case result of
         Some s \<Rightarrow> Returned (case js_message_from J s of Inl e \<Rightarrow> Inl (Serialization e) | Inr m \<Rightarrow> Inr (Some m))
       | None \<Rightarrow> PollAt qs)"
| "call_step A f J b t (AckAt i k) = go_on (map_err Broker (rd_conn A)) (\<lambda>_. ScanAt i k)"
| "call_step A f J b t (ScanAt i k) =
     go_on (map_err Broker (rd_lrange A (key_processing (rb_keys b) (rb_worker_id b)) 0 (- 1))) (\<lambda>items.
       case find (str_contains (taskid_display f i)) items of
         Some item \<Rightarrow> RemoveAt i item k
       | None \<Rightarrow> next_call b k)"
| "call_step A f J b t (RemoveAt i item k) =
     go_on (map_err Broker (rd_lrem A (key_processing (rb_keys b) (rb_worker_id b)) item)) (\<lambda>_. next_call b k)"
| "call_step A f J b t (DeadLetterAt m) =
     go_on (map_err Broker (rd_conn A)) (\<lambda>_. AckAt (msg_id m) (ThenDeadLetter m))"
| "call_step A f J b t (Returned r) = Pair (Returned r)"

subsection \<open>A call that is alone\<close>

text \<open>The number of commands that a call may still need.\<close>

fun after_commands :: "'v after_ack \<Rightarrow> nat" where
  "after_commands AckOnly = 0"
| "after_commands (ThenEnqueue m) = 3"
| "after_commands (ThenDeadLetter m) = 1"

fun commands :: "'v call \<Rightarrow> nat" where
  "commands (EnqueueAt m) = 3"
| "commands (DedupAt k m) = 2"
| "commands (PushAt key m) = 1"
| "commands (DequeueAt qs) = 2 + length qs"
| "commands (PollAt qs) = 1 + length qs"
| "commands (AckAt i k) = 3 + after_commands k"
| "commands (ScanAt i k) = 2 + after_commands k"
| "commands (RemoveAt i item k) = 1 + after_commands k"
| "commands (DeadLetterAt m) = 5"
| "commands (Returned r) = 0"

lemma commands_next: "commands (next_call b k) = after_commands k"
  by (cases k) simp_all

lemma go_on_cases:
  obtains (error) e d' where "cmd d = (Inl e, d')" "go_on cmd k d = (Returned (Inl e), d')"
  | (result) a d' where "cmd d = (Inr a, d')" "go_on cmd k d = (k a, d')"
  by (cases "cmd d"; cases "fst (cmd d)") (auto simp: go_on_def)

lemma commands_go_on:
  assumes "\<And>a. commands (k a) \<le> n"
  shows "commands (fst (go_on cmd k d)) \<le> n"
  using assms by (cases rule: go_on_cases [of cmd d k]) simp_all

lemma call_step_decreases:
  assumes "commands c \<noteq> 0"
  shows "commands (fst (call_step A f J b t c d)) < commands c"
  unfolding less_eq_Suc_le Suc_le_eq [symmetric]
  using assms
  by (cases "(A, f, J, b, t, c)" rule: call_step.cases)
     (auto simp: commands_next less_Suc_eq_le numeral_eq_Suc split: sum.split prod.split option.split
        intro!: commands_go_on [of _ 0, simplified] commands_go_on)

function run_call :: "'d redis_api \<Rightarrow> (uuid \<Rightarrow> string) \<Rightarrow> 'v json_api \<Rightarrow> RedisBroker \<Rightarrow> Duration \<Rightarrow>
    'v call \<Rightarrow> 'd \<Rightarrow> 'v TaskMessage option TaskResult \<times> 'd" where
  "run_call A f J b t c d =
     (case c of
        Returned r \<Rightarrow> (r, d)
      | _ \<Rightarrow> run_call A f J b t (fst (call_step A f J b t c d)) (snd (call_step A f J b t c d)))"
  by pat_completeness auto
termination
  by (relation "measure (\<lambda>(A, f, J, b, t, c, d). commands c)")
     (auto simp: split_beta simp del: call_step.simps commands.simps intro!: call_step_decreases, simp_all)

declare run_call.simps [simp del]

lemma run_Returned [simp]: "run_call A f J b t (Returned r) d = (r, d)"
  by (simp add: run_call.simps)

lemma run_go_on:
  assumes "call_step A f J b t c d = go_on cmd k d" and "commands c \<noteq> 0"
  shows "run_call A f J b t c d = try_then cmd (\<lambda>a. run_call A f J b t (k a)) d"
proof -
  have "run_call A f J b t c d = run_call A f J b t (fst (go_on cmd k d)) (snd (go_on cmd k d))"
    using assms by (subst run_call.simps) (cases c; simp)
  then show ?thesis by (cases rule: go_on_cases [of cmd d k]) (simp_all add: try_then_def)
qed

lemma run_push:
  "run_call A f J b t (PushAt key m) d = try_then (rb_push A J key m) (\<lambda>_. Pair (Inr None)) d"
  by (subst run_go_on [OF call_step.simps(3) [THEN fun_cong]]) (simp_all add: try_then_def split: prod.split sum.split)

lemma run_enqueue:
  "run_call A f J b t (EnqueueAt m) d = try_then (rb_enqueue A J b m) (\<lambda>_. Pair (Inr None)) d"
proof -
  have dedup: "run_call A f J b t (DedupAt k m) d =
      (let (r, d1) = rd_set_nx_ex A (key_dedup (rb_keys b) k) ''1'' (rb_dedup_ttl b) d
       in if \<not> (case r of Inl e \<Rightarrow> False | Inr x \<Rightarrow> x) then (Inr None, d1)
          else run_call A f J b t (PushAt (key_queue (rb_keys b) (msg_queue m)) m) d1)" for k d
    by (subst run_call.simps) (simp split: prod.split sum.split)
  show ?thesis
    by (subst run_go_on [OF call_step.simps(1) [THEN fun_cong]])
       (auto simp: rb_enqueue_def try_then_def dedup run_push Let_def split: prod.split sum.split option.split)
qed

lemma run_poll: "run_call A f J b t (PollAt qs) d = rb_scan A J b t qs d"
proof (induction qs arbitrary: d)
  case Nil
  show ?case by (subst run_call.simps) simp
next
  case (Cons q qs)
  show ?case
    by (subst run_go_on [OF call_step.simps(6) [THEN fun_cong]])
       (auto simp: try_then_def pure_call_def Cons.IH split: prod.split sum.split option.split)
qed

lemma run_ack:
  "run_call A f J b t (AckAt i k) d = try_then (rb_ack A f b i) (\<lambda>_. run_call A f J b t (next_call b k)) d"
proof -
  have remove: "run_call A f J b t (RemoveAt i item k) d =
      try_then (map_err Broker (rd_lrem A (key_processing (rb_keys b) (rb_worker_id b)) item))
        (\<lambda>_. run_call A f J b t (next_call b k)) d" for item d
    by (rule run_go_on) simp_all
  have scan: "run_call A f J b t (ScanAt i k) d =
      try_then (map_err Broker (rd_lrange A (key_processing (rb_keys b) (rb_worker_id b)) 0 (- 1))) (\<lambda>items.
        run_call A f J b t (case find (str_contains (taskid_display f i)) items of
          Some item \<Rightarrow> RemoveAt i item k | None \<Rightarrow> next_call b k)) d" for d
    by (rule run_go_on) simp_all
  have "run_call A f J b t (AckAt i k) d = try_then (map_err Broker (rd_conn A)) (\<lambda>_. run_call A f J b t (ScanAt i k)) d"
    by (rule run_go_on) simp_all
  then show ?thesis
    by (auto simp: rb_ack_def scan remove try_then_def Let_def split: prod.split sum.split option.split)
qed

lemma run_dead_letter:
  "run_call A f J b t (DeadLetterAt m) d = try_then (rb_dead_letter A f J b m) (\<lambda>_. Pair (Inr None)) d"
  by (subst run_go_on [OF call_step.simps(10) [THEN fun_cong]])
     (auto simp: rb_dead_letter_def run_ack run_push try_then_def split: prod.split sum.split)

lemma run_steps:
  "commands c \<le> n \<Longrightarrow> ((\<lambda>(c, d). call_step A f J b t c d) ^^ n) (c, d) =
     (Returned (fst (run_call A f J b t c d)), snd (run_call A f J b t c d))"
proof (induction n arbitrary: c d)
  case 0
  then show ?case by (cases c) simp_all
next
  case (Suc n)
  obtain c' d' where step: "call_step A f J b t c d = (c', d')" by fastforce
  show ?case
  proof (cases "commands c = 0")
    case True
    then obtain r where "c = Returned r" by (cases c) simp_all
    with Suc.IH [of c d] show ?thesis by (simp add: funpow_Suc_right del: funpow.simps)
  next
    case False
    then have "run_call A f J b t c d = run_call A f J b t c' d'"
      using step by (subst run_call.simps) (cases c; simp)
    moreover have "commands c' \<le> n"
      using call_step_decreases [OF False, of A f J b t d] step Suc.prems by simp
    ultimately show ?thesis
      using Suc.IH [of c' d'] step by (simp add: funpow_Suc_right del: funpow.simps call_step.simps)
  qed
qed


end
