(* ===== verification/Kojin_Redis_System.thy ===== *)
theory Kojin_Redis_System
  imports Kojin_Redis_Steps
begin

text \<open>
  Producers and workers that share a Redis server, their commands in any order. A client is a
  call of the broker under way in some process. A worker's call that has returned a task may be
  settled by \<open>ack\<close>, \<open>nack\<close> or \<open>dead_letter\<close>, with the task possibly changed but for its
  identifier. A call may be dropped at any of its await points, as \<open>tokio\<close> does with the tasks of
  a process that ends. The lists \<open>rs_submitted\<close>, \<open>rs_done\<close> and \<open>rs_lost\<close> record what happened to
  tasks; nothing reads them.
\<close>

subsection \<open>The system\<close>

record 'v client =
  cl_broker :: RedisBroker
  cl_call :: "'v call"

record ('d, 'v) redis_system =
  rs_server :: 'd
  rs_clients :: "'v client list"
  rs_submitted :: "TaskId list"
  rs_done :: "TaskId list"
  rs_lost :: "TaskId list"

datatype 'v outcome = AckIt | NackIt "'v TaskMessage" | DeadLetterIt "'v TaskMessage"

datatype 'v redis_event =
    Submit RedisBroker "'v TaskMessage"
  | Take RedisBroker "string list"
  | Command nat
  | Settle nat "'v outcome"
  | Drop nat

fun outcome_call :: "TaskId \<Rightarrow> 'v outcome \<Rightarrow> 'v call" where
  "outcome_call i AckIt = AckAt i AckOnly"
| "outcome_call i (NackIt m) = nack_call m"
| "outcome_call i (DeadLetterIt m) = DeadLetterAt m"

fun outcome_for :: "TaskId \<Rightarrow> 'v outcome \<Rightarrow> bool" where
  "outcome_for i AckIt \<longleftrightarrow> True"
| "outcome_for i (NackIt m) \<longleftrightarrow> msg_id m = i"
| "outcome_for i (DeadLetterIt m) \<longleftrightarrow> msg_id m = i"

text \<open>The task that only this call knows of; the task that a worker's call is working on; the task
  whose acknowledgement the next command completes.\<close>

fun carrying :: "'v call \<Rightarrow> TaskId option" where
  "carrying (EnqueueAt m) = Some (msg_id m)"
| "carrying (DedupAt k m) = Some (msg_id m)"
| "carrying (PushAt key m) = Some (msg_id m)"
| "carrying _ = None"

fun holding :: "'v call \<Rightarrow> TaskId option" where
  "holding (AckAt i k) = Some i"
| "holding (ScanAt i k) = Some i"
| "holding (RemoveAt i item k) = Some i"
| "holding (DeadLetterAt m) = Some (msg_id m)"
| "holding (Returned (Inr (Some m))) = Some (msg_id m)"
| "holding _ = None"

fun acking :: "'v call \<Rightarrow> TaskId list" where
  "acking (RemoveAt i item AckOnly) = [i]"
| "acking _ = []"

definition running :: "'v call \<Rightarrow> bool" where
  "running c \<longleftrightarrow> commands c \<noteq> 0"

fun sys_step :: "'d redis_api \<Rightarrow> (uuid \<Rightarrow> string) \<Rightarrow> 'v json_api \<Rightarrow> Duration \<Rightarrow> 'v redis_event \<Rightarrow>
    ('d, 'v) redis_system \<Rightarrow> ('d, 'v) redis_system option" where
  "sys_step A f J t (Submit b m) s =
     (if msg_id m \<in> set (rs_submitted s) then None
      else Some (s\<lparr>rs_clients := rs_clients s @ [\<lparr>cl_broker = b, cl_call = EnqueueAt m\<rparr>],
                   rs_submitted := rs_submitted s @ [msg_id m]\<rparr>))"
| "sys_step A f J t (Take b qs) s =
     Some (s\<lparr>rs_clients := rs_clients s @ [\<lparr>cl_broker = b, cl_call = DequeueAt qs\<rparr>]\<rparr>)"
| "sys_step A f J t (Command k) s =
     (if k < length (rs_clients s) \<and> running (cl_call (rs_clients s ! k)) then
        (let c = rs_clients s ! k;
             (call', d) = call_step A f J (cl_broker c) t (cl_call c) (rs_server s)
         in Some (s\<lparr>rs_server := d, rs_clients := (rs_clients s)[k := c\<lparr>cl_call := call'\<rparr>],
                    rs_done := rs_done s @ acking (cl_call c)\<rparr>))
      else None)"
| "sys_step A f J t (Settle k out) s =
     (if k < length (rs_clients s) then
        (case cl_call (rs_clients s ! k) of
           Returned (Inr (Some m)) \<Rightarrow>
             if outcome_for (msg_id m) out then
               Some (s\<lparr>rs_clients := (rs_clients s)
                 [k := (rs_clients s ! k)\<lparr>cl_call := outcome_call (msg_id m) out\<rparr>]\<rparr>)
             else None
         | _ \<Rightarrow> None)
      else None)"
| "sys_step A f J t (Drop k) s =
     (if k < length (rs_clients s) then
        Some (s\<lparr>rs_clients := remove_nth k (rs_clients s),
                rs_lost := rs_lost s @ (case carrying (cl_call (rs_clients s ! k)) of None \<Rightarrow> [] | Some i \<Rightarrow> [i])\<rparr>)
      else None)"

definition sys_start :: "'d \<Rightarrow> ('d, 'v) redis_system" where
  "sys_start d = \<lparr>rs_server = d, rs_clients = [], rs_submitted = [], rs_done = [], rs_lost = []\<rparr>"

text \<open>All processes use the same key prefix; the messages that occur are those of \<open>M\<close>.\<close>

fun event_ok :: "KeyBuilder \<Rightarrow> 'v TaskMessage set \<Rightarrow> 'v redis_event \<Rightarrow> bool" where
  "event_ok K M (Submit b m) \<longleftrightarrow> rb_keys b = K \<and> m \<in> M"
| "event_ok K M (Take b qs) \<longleftrightarrow> rb_keys b = K"
| "event_ok K M (Settle k (NackIt m)) \<longleftrightarrow> m \<in> M"
| "event_ok K M (Settle k (DeadLetterIt m)) \<longleftrightarrow> m \<in> M"
| "event_ok K M _ \<longleftrightarrow> True"

inductive sys_reachable :: "'d redis_api \<Rightarrow> (uuid \<Rightarrow> string) \<Rightarrow> 'v json_api \<Rightarrow> Duration \<Rightarrow> KeyBuilder \<Rightarrow>
    'v TaskMessage set \<Rightarrow> 'd \<Rightarrow> ('d, 'v) redis_system \<Rightarrow> bool" for A f J t K M d where
  start: "sys_reachable A f J t K M d (sys_start d)"
| step: "sys_reachable A f J t K M d s \<Longrightarrow> event_ok K M ev \<Longrightarrow> sys_step A f J t ev s = Some s' \<Longrightarrow>
    sys_reachable A f J t K M d s'"

text \<open>
  The messages that \<open>ack\<close> can tell apart: the JSON text of each contains, of all the identifiers
  around, only its own.
\<close>

definition messages_apart :: "'v json_api \<Rightarrow> (uuid \<Rightarrow> string) \<Rightarrow> 'v TaskMessage set \<Rightarrow> bool" where
  "messages_apart J f M \<longleftrightarrow>
     (\<forall>m\<in>M. dedup_key (mfields m) = None \<and>
        (\<exists>s. encodes J s m \<and> (\<forall>n\<in>M. str_contains (taskid_display f (msg_id n)) s \<longleftrightarrow> msg_id n = msg_id m)))"

definition text_id :: "'v json_api \<Rightarrow> string \<Rightarrow> TaskId option" where
  "text_id J s = (case js_message_from J s of Inl e \<Rightarrow> None | Inr m \<Rightarrow> Some (msg_id m))"

definition of_task :: "'v json_api \<Rightarrow> TaskId \<Rightarrow> string list \<Rightarrow> nat" where
  "of_task J i ss = length (filter (\<lambda>s. text_id J s = Some i) ss)"

text \<open>The copies of a task in all the lists of the server, and the number of clients of some kind.\<close>

definition copies :: "'v json_api \<Rightarrow> TaskId \<Rightarrow> (string \<Rightarrow> string list) \<Rightarrow> nat" where
  "copies J i L = (\<Sum>k | L k \<noteq> []. of_task J i (L k))"

definition tally :: "('v call \<Rightarrow> TaskId option) \<Rightarrow> TaskId \<Rightarrow> 'v client list \<Rightarrow> nat" where
  "tally g i cs = length (filter (\<lambda>c. g (cl_call c) = Some i) cs)"

subsection \<open>Counting\<close>

lemma of_task_simps [simp]:
  "of_task J i [] = 0" "of_task J i (xs @ ys) = of_task J i xs + of_task J i ys"
  "of_task J i (s # ss) = of_bool (text_id J s = Some i) + of_task J i ss"
  by (simp_all add: of_task_def)

lemma of_task_remove1:
  "s \<in> set ss \<Longrightarrow> of_task J i (remove1 s ss) + of_bool (text_id J s = Some i) = of_task J i ss"
  by (induction ss) auto

lemma of_task_pos: "0 < of_task J i ss \<longleftrightarrow> (\<exists>s\<in>set ss. text_id J s = Some i)"
  by (auto simp: of_task_def filter_empty_conv)

definition finite_lists :: "(string \<Rightarrow> string list) \<Rightarrow> bool" where
  "finite_lists L \<longleftrightarrow> finite {k. L k \<noteq> []}"

lemma copies_over:
  assumes "finite S" and "{k. L k \<noteq> []} \<subseteq> S"
  shows "copies J i L = (\<Sum>k\<in>S. of_task J i (L k))"
  unfolding copies_def using assms by (intro sum.mono_neutral_left) auto

lemma copies_upd:
  assumes "finite_lists L"
  shows "copies J i (L(x := ys)) + of_task J i (L x) = copies J i L + of_task J i ys"
proof -
  let ?S = "insert x {k. L k \<noteq> []}"
  have "copies J i (L(x := ys)) = (\<Sum>k\<in>?S. of_task J i ((L(x := ys)) k))"
    using assms unfolding finite_lists_def by (intro copies_over) auto
  also have "\<dots> = of_task J i ys + (\<Sum>k\<in>?S - {x}. of_task J i ((L(x := ys)) k))"
    using assms unfolding finite_lists_def by (subst sum.remove [of _ x]) auto
  also have "(\<Sum>k\<in>?S - {x}. of_task J i ((L(x := ys)) k)) = (\<Sum>k\<in>?S - {x}. of_task J i (L k))"
    by (intro sum.cong) auto
  moreover have "copies J i L = of_task J i (L x) + (\<Sum>k\<in>?S - {x}. of_task J i (L k))"
    using assms unfolding finite_lists_def by (subst copies_over [of ?S]) (auto simp: sum.insert_remove)
  ultimately show ?thesis by simp
qed

lemma of_task_le_copies: "finite_lists L \<Longrightarrow> of_task J i (L x) \<le> copies J i L"
  using copies_upd [of L J i x "[]"] by simp

lemma finite_upd: "finite_lists L \<Longrightarrow> finite_lists (L(x := ys))"
  unfolding finite_lists_def by (rule finite_subset [of _ "insert x {k. L k \<noteq> []}"]) auto

lemma length_filter_split:
  assumes "k < length xs"
  shows "length (filter P xs) =
    length (filter P (take k xs)) + of_bool (P (xs ! k)) + length (filter P (drop (Suc k) xs))"
proof -
  have "length (filter P xs) = length (filter P (take k xs @ xs ! k # drop (Suc k) xs))"
    using id_take_nth_drop [OF assms] by simp
  then show ?thesis by simp
qed

lemma length_filter_update:
  "k < length xs \<Longrightarrow>
     length (filter P (xs[k := x])) + of_bool (P (xs ! k)) = length (filter P xs) + of_bool (P x)"
  by (simp add: length_filter_split [of k xs] upd_conv_take_nth_drop)

lemma length_filter_remove_nth:
  "k < length xs \<Longrightarrow> length (filter P (remove_nth k xs)) + of_bool (P (xs ! k)) = length (filter P xs)"
  by (simp add: length_filter_split [of k xs] remove_nth_def)

subsection \<open>The invariant\<close>

fun after_ok :: "'v TaskMessage set \<Rightarrow> TaskId \<Rightarrow> 'v after_ack \<Rightarrow> bool" where
  "after_ok M i AckOnly \<longleftrightarrow> True"
| "after_ok M i (ThenEnqueue m) \<longleftrightarrow> m \<in> M \<and> msg_id m = i"
| "after_ok M i (ThenDeadLetter m) \<longleftrightarrow> m \<in> M \<and> msg_id m = i"

fun call_ok :: "'v json_api \<Rightarrow> KeyBuilder \<Rightarrow> 'v TaskMessage set \<Rightarrow> string list \<Rightarrow> 'v call \<Rightarrow> bool" where
  "call_ok J K M ps (EnqueueAt m) \<longleftrightarrow> m \<in> M"
| "call_ok J K M ps (DedupAt k m) \<longleftrightarrow> False"
| "call_ok J K M ps (PushAt key m) \<longleftrightarrow> m \<in> M \<and> (\<forall>w. key \<noteq> key_processing K w)"
| "call_ok J K M ps (AckAt i k) \<longleftrightarrow> after_ok M i k"
| "call_ok J K M ps (ScanAt i k) \<longleftrightarrow> after_ok M i k"
| "call_ok J K M ps (RemoveAt i item k) \<longleftrightarrow> after_ok M i k \<and> item \<in> set ps \<and> text_id J item = Some i"
| "call_ok J K M ps (DeadLetterAt m) \<longleftrightarrow> m \<in> M"
| "call_ok J K M ps _ \<longleftrightarrow> True"

definition client_ok :: "'v json_api \<Rightarrow> KeyBuilder \<Rightarrow> 'v TaskMessage set \<Rightarrow> (string \<Rightarrow> string list) \<Rightarrow>
    'v client \<Rightarrow> bool" where
  "client_ok J K M L c \<longleftrightarrow> rb_keys (cl_broker c) = K \<and>
     call_ok J K M (L (key_processing K (rb_worker_id (cl_broker c)))) (cl_call c)"

definition held :: "string \<Rightarrow> TaskId \<Rightarrow> 'v client list \<Rightarrow> nat" where
  "held w i cs = length (filter (\<lambda>c. rb_worker_id (cl_broker c) = w \<and> holding (cl_call c) = Some i) cs)"

definition lists_ok :: "'v json_api \<Rightarrow> 'v TaskMessage set \<Rightarrow> (string \<Rightarrow> string list) \<Rightarrow> bool" where
  "lists_ok J M L \<longleftrightarrow> finite_lists L \<and> (\<forall>k. \<forall>s\<in>set (L k). \<exists>m\<in>M. encodes J s m)"

definition accounted :: "'v json_api \<Rightarrow> (string \<Rightarrow> string list) \<Rightarrow> ('d, 'v) redis_system \<Rightarrow> bool" where
  "accounted J L s \<longleftrightarrow>
     (\<forall>i. copies J i L + tally carrying i (rs_clients s) + count_list (rs_done s) i + count_list (rs_lost s) i
        = of_bool (i \<in> set (rs_submitted s)))"

definition held_ok :: "'v json_api \<Rightarrow> KeyBuilder \<Rightarrow> (string \<Rightarrow> string list) \<Rightarrow> 'v client list \<Rightarrow> bool" where
  "held_ok J K L cs \<longleftrightarrow> (\<forall>w i. held w i cs \<le> of_task J i (L (key_processing K w)))"

definition sys_ok :: "'v json_api \<Rightarrow> KeyBuilder \<Rightarrow> 'v TaskMessage set \<Rightarrow> (string \<Rightarrow> string list) \<Rightarrow>
    ('d, 'v) redis_system \<Rightarrow> bool" where
  "sys_ok J K M L s \<longleftrightarrow> lists_ok J M L \<and> (\<forall>c\<in>set (rs_clients s). client_ok J K M L c) \<and>
     accounted J L s \<and> held_ok J K L (rs_clients s)"

text \<open>What a command of a worker \<open>w\<close> does to the lists and to the call that awaits it.\<close>

inductive move :: "'v json_api \<Rightarrow> KeyBuilder \<Rightarrow> 'v TaskMessage set \<Rightarrow> string \<Rightarrow> (string \<Rightarrow> string list) \<Rightarrow>
    'v call \<Rightarrow> TaskId list \<Rightarrow> (string \<Rightarrow> string list) \<Rightarrow> 'v call \<Rightarrow> bool" for J K M w L c where
  quiet: "holding c' = holding c \<Longrightarrow> carrying c' = carrying c \<Longrightarrow> move J K M w L c [] L c'"
| push: "\<forall>w. key \<noteq> key_processing K w \<Longrightarrow> m \<in> M \<Longrightarrow> encodes J s m \<Longrightarrow>
    carrying c = Some (msg_id m) \<Longrightarrow> holding c = None \<Longrightarrow> carrying c' = None \<Longrightarrow> holding c' = None \<Longrightarrow>
    move J K M w L c [] (L(key := s # L key)) c'"
| take: "L (key_queue K q) = xs @ [s] \<Longrightarrow> text_id J s = Some i \<Longrightarrow>
    carrying c = None \<Longrightarrow> holding c = None \<Longrightarrow> carrying c' = None \<Longrightarrow> holding c' = Some i \<Longrightarrow>
    move J K M w L c [] (L(key_queue K q := xs, key_processing K w := s # L (key_processing K w))) c'"
| remove: "item \<in> set (L (key_processing K w)) \<Longrightarrow> text_id J item = Some i \<Longrightarrow>
    holding c = Some i \<Longrightarrow> carrying c = None \<Longrightarrow> holding c' = None \<Longrightarrow>
    (carrying c', dn) \<in> {(Some i, []), (None, [i])} \<Longrightarrow>
    move J K M w L c dn (L(key_processing K w := remove1 item (L (key_processing K w)))) c'"

lemma encodes_text_id: "encodes J s m \<Longrightarrow> text_id J s = Some (msg_id m)"
  by (simp add: encodes_def text_id_def)

lemma messages_apartD:
  assumes "messages_apart J f M" and "m \<in> M"
  shows "dedup_key (mfields m) = None" "\<exists>s. encodes J s m"
    "encodes J s m \<Longrightarrow> n \<in> M \<Longrightarrow> str_contains (taskid_display f (msg_id n)) s \<longleftrightarrow> msg_id n = msg_id m"
  using assms unfolding messages_apart_def encodes_def by fastforce+

text \<open>Among the texts of a list, \<open>ack\<close> finds one of the task it looks for if there is any.\<close>

lemma find_task:
  assumes apart: "messages_apart J f M" and texts: "\<forall>s\<in>set ss. \<exists>m\<in>M. encodes J s m"
    and pos: "0 < of_task J i ss"
  obtains item where "find (str_contains (taskid_display f i)) ss = Some item" "item \<in> set ss"
    "text_id J item = Some i"
proof -
  obtain s where s: "s \<in> set ss" "text_id J s = Some i" using pos by (auto simp: of_task_pos)
  then obtain m where m: "m \<in> M" "encodes J s m" "msg_id m = i"
    using texts encodes_text_id by fastforce
  have contains: "str_contains (taskid_display f i) x \<longleftrightarrow> text_id J x = Some i" if "x \<in> set ss" for x
  proof -
    from that texts obtain n where n: "n \<in> M" "encodes J x n" by blast
    from messages_apartD(3) [OF apart n m(1)] m(3) encodes_text_id [OF n(2)] show ?thesis by auto
  qed
  obtain item where item: "find (str_contains (taskid_display f i)) ss = Some item"
    using contains [OF s(1)] s by (cases "find (str_contains (taskid_display f i)) ss") (auto simp: find_None_iff)
  then have "item \<in> set ss" "str_contains (taskid_display f i) item"
    by (auto simp: find_Some_iff)
  with contains item that show thesis by blast
qed

lemma next_call_ok:
  assumes "after_ok M i k" and "rb_keys b = K"
  shows "call_ok J K M ps (next_call b k)" "holding (next_call b k) = None"
    "(carrying (next_call b k), acking (RemoveAt i item k)) \<in> {(Some i, []), (None, [i])}"
  using assms by (cases k; simp)+

context redis_server
begin

lemma call_step_move:
  fixes d :: 'd and b :: RedisBroker
  defines "L \<equiv> db_lists (view d)" and "w \<equiv> rb_worker_id b" and "K \<equiv> rb_keys b"
  assumes apart: "messages_apart J f M" and lists: "lists_ok J M L"
    and ok: "call_ok J K M (L (key_processing K w)) c" and running: "running c"
    and hold: "\<And>i. holding c = Some i \<Longrightarrow> 0 < of_task J i (L (key_processing K w))"
    and step: "call_step A f J b t c d = (c', d')"
  shows "move J K M w L c (acking c) (db_lists (view d')) c' \<and>
    call_ok J K M (db_lists (view d') (key_processing K w)) c'"
proof (cases c)
  case (EnqueueAt m)
  then show ?thesis using step ok messages_apartD(1) [OF apart, of m]
    by (auto simp: go_on_def conn map_err_Inr L_def K_def intro!: move.quiet)
next
  case (PushAt key m)
  with ok have m: "m \<in> M" "\<forall>w. key \<noteq> key_processing K w" by simp_all
  obtain s where s: "encodes J s m" using messages_apartD(2) [OF apart m(1)] by blast
  then have "js_message_to J m = Inr s" by (simp add: encodes_def)
  note view = rb_push_view [OF this, of key d]
  have "c' = Returned (Inr None)" "db_lists (view d') = L(key := s # L key)"
    using step view PushAt by (auto simp: go_on_def L_def split: prod.splits sum.splits)
  with PushAt m s show ?thesis by (auto intro: move.push)
next
  case (PollAt qs)
  show ?thesis
  proof (cases qs)
    case Nil
    with PollAt step show ?thesis by (auto simp: L_def intro!: move.quiet)
  next
    case (Cons q qs')
    show ?thesis
    proof (cases "L (key_queue K q)" rule: rev_cases)
      case Nil
      then show ?thesis using step PollAt Cons blmove_empty [of d "key_queue K q" "key_processing K w" t]
        by (auto simp: go_on_def map_err_Inr L_def w_def K_def intro!: move.quiet)
    next
      case (snoc xs s)
      then have "s \<in> set (L (key_queue K q))" by simp
      with lists obtain m where m: "m \<in> M" "encodes J s m" by (auto simp: lists_ok_def)
      note moved = blmove_move [OF snoc [unfolded L_def], of "key_processing K w" t]
      have "c' = Returned (Inr (Some m))"
        "db_lists (view d') = L(key_queue K q := xs, key_processing K w := s # L (key_processing K w))"
        using step PollAt Cons moved m(2) by (auto simp: go_on_def map_err_Inr L_def w_def K_def encodes_def)
      with PollAt snoc encodes_text_id [OF m(2)] show ?thesis by (auto intro: move.take)
    qed
  qed
next
  case (ScanAt i k)
  from hold [of i] ScanAt have "0 < of_task J i (L (key_processing K w))" by simp
  from find_task [OF apart _ this] lists obtain item where
    "find (str_contains (taskid_display f i)) (L (key_processing K w)) = Some item"
    "item \<in> set (L (key_processing K w))" "text_id J item = Some i" by (auto simp: lists_ok_def)
  with ScanAt step ok show ?thesis
    by (auto simp: go_on_def map_err_Inr lrange L_def w_def K_def intro!: move.quiet)
next
  case (RemoveAt i item k)
  with ok have item: "after_ok M i k" "item \<in> set (L (key_processing K w))" "text_id J item = Some i" by simp_all
  have "c' = next_call b k"
    "db_lists (view d') = L(key_processing K w := remove1 item (L (key_processing K w)))"
    using step RemoveAt by (auto simp: go_on_def map_err_Inr lrem L_def w_def K_def)
  with RemoveAt item next_call_ok [OF item(1), of b K] show ?thesis by (auto intro!: move.remove simp: K_def)
qed (use step ok running in \<open>auto simp: go_on_def map_err_Inr conn L_def running_def intro!: move.quiet\<close>)

end

subsection \<open>Preservation\<close>

lemma processing_inject [simp]: "key_processing K v = key_processing K w \<longleftrightarrow> v = w"
  by (simp add: key_processing_def)

lemma move_lists_ok:
  assumes "move J K M w L c dn L' c'" and "lists_ok J M L"
  shows "lists_ok J M L'"
  using assms
proof (cases rule: move.cases)
  case (take q xs s i)
  have "\<forall>x\<in>set (L (key_queue K q)). \<exists>m\<in>M. encodes J x m" using assms(2) by (simp add: lists_ok_def)
  with take assms(2) show ?thesis by (auto simp: lists_ok_def intro!: finite_upd)
next
  case (remove item i)
  with assms(2) show ?thesis by (auto simp: lists_ok_def intro!: finite_upd dest!: in_set_remove1 [THEN iffD1, rotated] notin_set_remove1)
qed (auto simp: lists_ok_def intro!: finite_upd)

lemma move_accounted:
  assumes "move J K M w L c dn L' c'" and "finite_lists L"
  shows "copies J i L' + of_bool (carrying c' = Some i) + count_list dn i = copies J i L + of_bool (carrying c = Some i)"
  using assms(1)
proof (cases rule: move.cases)
  case (push key m s)
  with copies_upd [OF assms(2), of J i key "s # L key"] encodes_text_id [OF push(5)] show ?thesis by simp
next
  case (take q xs s j)
  let ?L = "L(key_queue K q := xs)"
  have "finite_lists ?L" by (rule finite_upd [OF assms(2)])
  from copies_upd [OF this, of J i "key_processing K w" "s # L (key_processing K w)"]
    copies_upd [OF assms(2), of J i "key_queue K q" xs]
  show ?thesis using take by simp
next
  case (remove item j)
  with copies_upd [OF assms(2), of J i "key_processing K w" "remove1 item (L (key_processing K w))"]
    of_task_remove1 [OF remove(2), of J i]
  show ?thesis by (auto split: if_splits)
qed simp

lemma move_held:
  assumes "move J K M w L c dn L' c'"
  shows "of_task J i (L (key_processing K v)) + of_bool (v = w \<and> holding c' = Some i)
    \<le> of_task J i (L' (key_processing K v)) + of_bool (v = w \<and> holding c = Some i)"
  using assms
proof (cases rule: move.cases)
  case (remove item j)
  with of_task_remove1 [OF remove(2), of J i] show ?thesis by auto
qed auto

lemma kept_by_remove1: "x \<in> set xs \<Longrightarrow> text_id J x \<noteq> text_id J y \<Longrightarrow> x \<in> set (remove1 y xs)"
  by (subst in_set_remove1) auto

lemma move_others:
  assumes "move J K M w L c dn L' c'" and "client_ok J K M L x"
    and "rb_worker_id (cl_broker x) \<noteq> w \<or> holding (cl_call x) \<noteq> holding c \<or> holding c = None"
  shows "client_ok J K M L' x"
proof (cases "\<exists>i item k. cl_call x = RemoveAt i item k")
  case True
  then obtain i item k where x: "cl_call x = RemoveAt i item k" by blast
  from assms show ?thesis unfolding client_ok_def x
    by (cases rule: move.cases) (auto simp: x intro!: kept_by_remove1 [where J = J])
next
  case False
  then have "call_ok J K M ps (cl_call x) = call_ok J K M qs (cl_call x)" for ps qs
    by (cases "cl_call x") auto
  with assms(2) show ?thesis by (auto simp: client_ok_def)
qed

lemma two_in_filter:
  assumes "j < length xs" and "k < length xs" and "j \<noteq> k" and "P (xs ! j)" and "P (xs ! k)"
  shows "2 \<le> length (filter P xs)"
proof -
  have "card {j, k} \<le> card {i. i < length xs \<and> P (xs ! i)}" using assms by (intro card_mono) auto
  with assms(3) show ?thesis by (simp add: length_filter_conv_card)
qed

lemma sys_ok_accounted:
  "sys_ok J K M L s \<Longrightarrow> copies J i L + tally carrying i (rs_clients s) + count_list (rs_done s) i
     + count_list (rs_lost s) i = of_bool (i \<in> set (rs_submitted s))"
  by (simp add: sys_ok_def accounted_def)

lemma copies_le_1: "sys_ok J K M L s \<Longrightarrow> copies J i L \<le> 1"
  using sys_ok_accounted [of J K M L s i] by (cases "i \<in> set (rs_submitted s)") simp_all

lemma held_le_1:
  assumes "sys_ok J K M L s"
  shows "held w i (rs_clients s) \<le> 1"
proof -
  have "held w i (rs_clients s) \<le> of_task J i (L (key_processing K w))"
    using assms by (simp add: sys_ok_def held_ok_def)
  moreover note copies_le_1 [OF assms, of i]
  moreover have "of_task J i (L (key_processing K w)) \<le> copies J i L"
    using assms by (intro of_task_le_copies) (simp add: sys_ok_def lists_ok_def)
  ultimately show ?thesis by linarith
qed

lemma held_processing:
  assumes ok: "sys_ok J K M L s" and "k < length (rs_clients s)" and "holding (cl_call (rs_clients s ! k)) = Some i"
  shows "0 < of_task J i (L (key_processing K (rb_worker_id (cl_broker (rs_clients s ! k)))))"
proof -
  let ?w = "rb_worker_id (cl_broker (rs_clients s ! k))"
  have "0 < held ?w i (rs_clients s)"
    using assms(2,3) by (auto simp: held_def filter_empty_conv intro!: bexI [of _ "rs_clients s ! k"])
  also have "held ?w i (rs_clients s) \<le> of_task J i (L (key_processing K ?w))"
    using ok by (simp add: sys_ok_def held_ok_def)
  finally show ?thesis .
qed

lemma held_update:
  assumes "k < length cs"
  shows "held w i (cs[k := c]) + of_bool (rb_worker_id (cl_broker (cs ! k)) = w \<and> holding (cl_call (cs ! k)) = Some i)
    = held w i cs + of_bool (rb_worker_id (cl_broker c) = w \<and> holding (cl_call c) = Some i)"
  unfolding held_def by (rule length_filter_update [OF assms])

lemma tally_update:
  assumes "k < length cs"
  shows "tally g i (cs[k := c]) + of_bool (g (cl_call (cs ! k)) = Some i) = tally g i cs + of_bool (g (cl_call c) = Some i)"
  unfolding tally_def by (rule length_filter_update [OF assms])

lemma sys_ok_move:
  assumes ok: "sys_ok J K M L s" and k: "k < length (rs_clients s)"
    and move: "move J K M (rb_worker_id (cl_broker (rs_clients s ! k))) L (cl_call (rs_clients s ! k)) dn L' c'"
    and new: "client_ok J K M L' ((rs_clients s ! k)\<lparr>cl_call := c'\<rparr>)"
  shows "sys_ok J K M L' (s\<lparr>rs_server := d, rs_clients := (rs_clients s)[k := (rs_clients s ! k)\<lparr>cl_call := c'\<rparr>],
    rs_done := rs_done s @ dn\<rparr>)"
proof -
  let ?c = "rs_clients s ! k" and ?cs = "(rs_clients s)[k := (rs_clients s ! k)\<lparr>cl_call := c'\<rparr>]"
  have lists: "finite_lists L" "lists_ok J M L" using ok by (simp_all add: sys_ok_def lists_ok_def)
  have "client_ok J K M L' x" if "x \<in> set ?cs" for x
  proof -
    from that obtain j where j: "j < length (rs_clients s)" "x = ?cs ! j" by (auto simp: in_set_conv_nth)
    show ?thesis
    proof (cases "j = k")
      case False
      have "client_ok J K M L x" using ok j False by (simp add: sys_ok_def)
      moreover have "rb_worker_id (cl_broker x) \<noteq> rb_worker_id (cl_broker ?c) \<or>
          holding (cl_call x) \<noteq> holding (cl_call ?c) \<or> holding (cl_call ?c) = None"
      proof (rule ccontr)
        assume same: "\<not> ?thesis"
        then obtain i where "holding (cl_call ?c) = Some i" by auto
        with same two_in_filter [OF j(1) k False,
          of "\<lambda>c. rb_worker_id (cl_broker c) = rb_worker_id (cl_broker ?c) \<and> holding (cl_call c) = Some i"] j(2) False
        show False using held_le_1 [OF ok, of "rb_worker_id (cl_broker ?c)" i] by (simp add: held_def)
      qed
      ultimately show ?thesis by (rule move_others [OF move])
    qed (use new k j in simp)
  qed
  moreover have "held v i ?cs \<le> of_task J i (L' (key_processing K v))" for v i
  proof -
    have "held v i (rs_clients s) \<le> of_task J i (L (key_processing K v))"
      using ok by (simp add: sys_ok_def held_ok_def)
    with held_update [OF k, of v i "?c\<lparr>cl_call := c'\<rparr>"] move_held [OF move, of i v]
    show ?thesis by (auto simp: of_bool_def split: if_splits)
  qed
  moreover have "copies J i L' + tally carrying i ?cs + count_list (rs_done s @ dn) i + count_list (rs_lost s) i
      = of_bool (i \<in> set (rs_submitted s))" for i
  proof -
    from sys_ok_accounted [OF ok, of i] tally_update [OF k, of carrying i "?c\<lparr>cl_call := c'\<rparr>"]
      move_accounted [OF move lists(1), of i]
    show ?thesis by simp
  qed
  ultimately show ?thesis
    using move_lists_ok [OF move lists(2)] by (simp add: sys_ok_def accounted_def held_ok_def)
qed

lemma sys_ok_start: "sys_ok J K M (\<lambda>_. []) (sys_start d)"
  by (simp add: sys_ok_def sys_start_def lists_ok_def finite_lists_def accounted_def held_ok_def copies_def
      tally_def held_def)

lemma sys_ok_add:
  assumes "sys_ok J K M L s" and "client_ok J K M L c" and "holding (cl_call c) = None"
    and "(carrying (cl_call c), new) \<in> {(None, [])} \<union> {(Some i, [i]) | i. i \<notin> set (rs_submitted s)}"
  shows "sys_ok J K M L (s\<lparr>rs_clients := rs_clients s @ [c], rs_submitted := rs_submitted s @ new\<rparr>)"
  using assms by (auto simp: sys_ok_def accounted_def held_ok_def held_def tally_def)

lemma sys_ok_settle:
  assumes ok: "sys_ok J K M L s" and k: "k < length (rs_clients s)"
    and call: "cl_call (rs_clients s ! k) = Returned (Inr (Some m))"
    and out: "outcome_for (msg_id m) out" "event_ok K M (Settle k out)"
  shows "sys_ok J K M L (s\<lparr>rs_clients := (rs_clients s)
    [k := (rs_clients s ! k)\<lparr>cl_call := outcome_call (msg_id m) out\<rparr>]\<rparr>)"
proof -
  have "client_ok J K M L (rs_clients s ! k)" using ok k by (simp add: sys_ok_def)
  with out have "client_ok J K M L ((rs_clients s ! k)\<lparr>cl_call := outcome_call (msg_id m) out\<rparr>)"
    by (cases out) (simp_all add: client_ok_def)
  moreover have "move J K M w L (cl_call (rs_clients s ! k)) [] L (outcome_call (msg_id m) out)" for w
    using call out(1) by (intro move.quiet; cases out) simp_all
  ultimately show ?thesis
    using sys_ok_move [OF ok k, of "[]" L "outcome_call (msg_id m) out" "rs_server s"] by simp
qed

lemma sys_ok_drop:
  assumes ok: "sys_ok J K M L s" and k: "k < length (rs_clients s)"
  shows "sys_ok J K M L (s\<lparr>rs_clients := remove_nth k (rs_clients s), rs_lost := rs_lost s @
    (case carrying (cl_call (rs_clients s ! k)) of None \<Rightarrow> [] | Some i \<Rightarrow> [i])\<rparr>)"
proof -
  let ?cs = "remove_nth k (rs_clients s)" and ?c = "rs_clients s ! k"
  have "held w i ?cs \<le> held w i (rs_clients s)" for w i
    unfolding held_def length_filter_remove_nth [OF k, symmetric] by simp
  moreover have "held w i (rs_clients s) \<le> of_task J i (L (key_processing K w))" for w i
    using ok by (simp add: sys_ok_def held_ok_def)
  ultimately have "held_ok J K L ?cs" unfolding held_ok_def by (meson order_trans)
  moreover have "copies J i L + tally carrying i ?cs + count_list (rs_done s) i + (count_list (rs_lost s) i
      + count_list (case carrying (cl_call ?c) of None \<Rightarrow> [] | Some i \<Rightarrow> [i]) i) = of_bool (i \<in> set (rs_submitted s))" for i
  proof -
    have "tally carrying i ?cs + of_bool (carrying (cl_call ?c) = Some i) = tally carrying i (rs_clients s)"
      unfolding tally_def by (rule length_filter_remove_nth [OF k])
    moreover have "count_list (case carrying (cl_call ?c) of None \<Rightarrow> [] | Some i \<Rightarrow> [i]) i
        = of_bool (carrying (cl_call ?c) = Some i)" by (simp split: option.split)
    ultimately show ?thesis using sys_ok_accounted [OF ok, of i] by linarith
  qed
  moreover have "set ?cs \<subseteq> set (rs_clients s)"
    by (auto simp: remove_nth_def dest: in_set_takeD in_set_dropD)
  ultimately show ?thesis using ok by (simp add: sys_ok_def accounted_def subset_iff)
qed

context redis_server
begin

lemma command_move:
  assumes apart: "messages_apart J f M" and ok: "sys_ok J K M (db_lists (view (rs_server s))) s"
    and step: "sys_step A f J t (Command k) s = Some s'"
  obtains c' where "k < length (rs_clients s)"
    and "s' = s\<lparr>rs_server := rs_server s', rs_clients := (rs_clients s)[k := (rs_clients s ! k)\<lparr>cl_call := c'\<rparr>],
      rs_done := rs_done s @ acking (cl_call (rs_clients s ! k))\<rparr>"
    and "move J K M (rb_worker_id (cl_broker (rs_clients s ! k))) (db_lists (view (rs_server s)))
      (cl_call (rs_clients s ! k)) (acking (cl_call (rs_clients s ! k))) (db_lists (view (rs_server s'))) c'"
    and "client_ok J K M (db_lists (view (rs_server s'))) ((rs_clients s ! k)\<lparr>cl_call := c'\<rparr>)"
proof -
  let ?c = "rs_clients s ! k" and ?L = "db_lists (view (rs_server s))"
  obtain c' d where call: "call_step A f J (cl_broker ?c) t (cl_call ?c) (rs_server s) = (c', d)" by fastforce
  with step have k: "k < length (rs_clients s)" "running (cl_call ?c)"
    and s': "s' = s\<lparr>rs_server := d, rs_clients := (rs_clients s)[k := ?c\<lparr>cl_call := c'\<rparr>],
      rs_done := rs_done s @ acking (cl_call ?c)\<rparr>" by (auto simp: Let_def split: if_splits)
  have "client_ok J K M ?L ?c" using ok k by (simp add: sys_ok_def)
  then have c: "rb_keys (cl_broker ?c) = K"
    "call_ok J K M (?L (key_processing K (rb_worker_id (cl_broker ?c)))) (cl_call ?c)" by (simp_all add: client_ok_def)
  have "lists_ok J M ?L" using ok by (simp add: sys_ok_def)
  from call_step_move [OF apart this _ k(2) _ call] c held_processing [OF ok k(1)]
  have "move J K M (rb_worker_id (cl_broker ?c)) ?L (cl_call ?c) (acking (cl_call ?c)) (db_lists (view d)) c'"
    and "client_ok J K M (db_lists (view d)) (?c\<lparr>cl_call := c'\<rparr>)" by (simp_all add: client_ok_def)
  with k(1) show thesis by (intro that) (simp_all add: s')
qed

lemma sys_ok_step:
  assumes apart: "messages_apart J f M" and ok: "sys_ok J K M (db_lists (view (rs_server s))) s"
    and ev: "event_ok K M ev" and step: "sys_step A f J t ev s = Some s'"
  shows "sys_ok J K M (db_lists (view (rs_server s'))) s'"
proof (cases ev)
  case (Submit b m)
  with step have "msg_id m \<notin> set (rs_submitted s)" by (simp split: if_splits)
  with Submit step ev sys_ok_add [OF ok, of "\<lparr>cl_broker = b, cl_call = EnqueueAt m\<rparr>" "[msg_id m]"]
  show ?thesis by (auto simp: client_ok_def)
next
  case (Take b qs)
  with step ev sys_ok_add [OF ok, of "\<lparr>cl_broker = b, cl_call = DequeueAt qs\<rparr>" "[]"]
  show ?thesis by (auto simp: client_ok_def)
next
  case (Command k)
  from command_move [OF apart ok step [unfolded Command]] obtain c' where k: "k < length (rs_clients s)"
    and s': "s' = s\<lparr>rs_server := rs_server s', rs_clients := (rs_clients s)[k := (rs_clients s ! k)\<lparr>cl_call := c'\<rparr>],
      rs_done := rs_done s @ acking (cl_call (rs_clients s ! k))\<rparr>"
    and move: "move J K M (rb_worker_id (cl_broker (rs_clients s ! k))) (db_lists (view (rs_server s)))
      (cl_call (rs_clients s ! k)) (acking (cl_call (rs_clients s ! k))) (db_lists (view (rs_server s'))) c'"
    and new: "client_ok J K M (db_lists (view (rs_server s'))) ((rs_clients s ! k)\<lparr>cl_call := c'\<rparr>)" .
  from sys_ok_move [OF ok k move new, of "rs_server s'"] s' show ?thesis by simp
next
  case (Settle k out)
  with step ev sys_ok_settle [OF ok] show ?thesis
    by (auto split: if_splits call.splits sum.splits option.splits)
next
  case (Drop k)
  with step sys_ok_drop [OF ok] show ?thesis by (auto split: if_splits)
qed

lemma reachable_ok:
  assumes "messages_apart J f M" and "db_lists (view d) = (\<lambda>_. [])" and "sys_reachable A f J t K M d s"
  shows "sys_ok J K M (db_lists (view (rs_server s))) s"
  using assms(3)
proof (induction rule: sys_reachable.induct)
  case start
  have "rs_server (sys_start d) = d" by (simp add: sys_start_def)
  then show ?case using assms(2) sys_ok_start by metis
next
  case (step s ev s')
  then show ?case using sys_ok_step [OF assms(1)] by blast
qed

end

lemma two_lists_le_copies:
  assumes "finite_lists L" and "x \<noteq> y"
  shows "of_task J i (L x) + of_task J i (L y) \<le> copies J i L"
proof -
  have "of_task J i ((L(x := [])) y) \<le> copies J i (L(x := []))"
    by (rule of_task_le_copies [OF finite_upd [OF assms(1)]])
  with copies_upd [OF assms(1), of J i x "[]"] assms(2) show ?thesis by simp
qed

text \<open>A task is held by one call at most, in whatever process.\<close>

lemma holding_le_1:
  assumes ok: "sys_ok J K M L s"
  shows "tally holding i (rs_clients s) \<le> 1"
proof (rule ccontr)
  assume "\<not> ?thesis"
  then have "2 \<le> card {j. j < length (rs_clients s) \<and> holding (cl_call (rs_clients s ! j)) = Some i}"
    by (simp add: tally_def length_filter_conv_card)
  then obtain j k where jk: "j \<noteq> k" "j < length (rs_clients s)" "k < length (rs_clients s)"
      "holding (cl_call (rs_clients s ! j)) = Some i" "holding (cl_call (rs_clients s ! k)) = Some i"
    using card_le_Suc0_iff_eq [of "{j. j < length (rs_clients s) \<and> holding (cl_call (rs_clients s ! j)) = Some i}"]
    by fastforce
  let ?w = "\<lambda>j. rb_worker_id (cl_broker (rs_clients s ! j))"
  show False
  proof (cases "?w j = ?w k")
    case True
    with jk two_in_filter [OF jk(2,3,1), of "\<lambda>c. rb_worker_id (cl_broker c) = ?w k \<and> holding (cl_call c) = Some i"]
    show False using held_le_1 [OF ok, of "?w k" i] by (simp add: held_def)
  next
    case False
    have "0 < of_task J i (L (key_processing K (?w j)))" "0 < of_task J i (L (key_processing K (?w k)))"
      using jk by (simp_all add: held_processing [OF ok])
    moreover have "finite_lists L" using ok by (simp add: sys_ok_def lists_ok_def)
    ultimately show False
      using two_lists_le_copies [of L "key_processing K (?w j)" "key_processing K (?w k)" J i] False copies_le_1 [OF ok, of i]
      by simp
  qed
qed

subsection \<open>Properties\<close>

text \<open>C7: tasks are conserved on Redis however the single commands of any number of producers and
  workers interleave, and whenever calls are dropped. Starting from empty lists, a task that was
  submitted is, at every moment, in exactly one of these places: once in one list of the
  server, in the hands of one call that has still to push it, acknowledged, or lost, which happens
  only when a call is dropped before its push. At most one call, of all processes together,
  works on a task. The server has to behave as documented, identifiers must be fresh, and
  messages must be free of deduplication keys and must not contain each other's identifiers in
  their texts, by which \<open>ack\<close> looks for them.\<close>

theorem redis_commands_conserve_tasks:
  assumes "redis_server A view" and "messages_apart J f M" and "db_lists (view d) = (\<lambda>_. [])"
    and "sys_reachable A f J t K M d s"
  shows "copies J i (db_lists (view (rs_server s))) + tally carrying i (rs_clients s)
      + count_list (rs_done s) i + count_list (rs_lost s) i = of_bool (i \<in> set (rs_submitted s)) \<and>
    tally holding i (rs_clients s) \<le> 1"
proof -
  have "sys_ok J K M (db_lists (view (rs_server s))) s"
    by (rule redis_server.reachable_ok [OF assms])
  then show ?thesis using sys_ok_accounted holding_le_1 by blast
qed

fun sys_run :: "'d redis_api \<Rightarrow> (uuid \<Rightarrow> string) \<Rightarrow> 'v json_api \<Rightarrow> Duration \<Rightarrow> 'v redis_event list \<Rightarrow>
    ('d, 'v) redis_system \<Rightarrow> ('d, 'v) redis_system option" where
  "sys_run A f J t [] s = Some s"
| "sys_run A f J t (ev # evs) s = Option.bind (sys_step A f J t ev s) (sys_run A f J t evs)"

lemma sys_run_reachable:
  "sys_reachable A f J t K M d s \<Longrightarrow> list_all (event_ok K M) evs \<Longrightarrow> sys_run A f J t evs s = Some s' \<Longrightarrow>
   sys_reachable A f J t K M d s'"
  by (induction evs arbitrary: s) (auto simp: bind_eq_Some_conv intro: sys_reachable.step)

text \<open>Two tasks and two workers; the first task fails, and its worker is dropped in the middle of \<open>nack\<close>.\<close>

definition two_message :: "uuid \<Rightarrow> u32 \<Rightarrow> unit TaskMessage" where
  "two_message u n = update_fields (\<lambda>x. x\<lparr>retries := n\<rparr>) (message_new u 0 ''t'' ''q'' ())"

definition two_fmt :: "uuid \<Rightarrow> string" where
  "two_fmt u = (if u = 1 then ''a'' else ''b'')"

definition two_codec :: "unit json_api" where
  "two_codec =
     \<lparr>js_message_to = (\<lambda>m. Inr (taskid_display two_fmt (msg_id m) @ (if retries (mfields m) = 0 then [] else ''r''))),
      js_message_from = (\<lambda>s. Inr (two_message (if s ! 0 = CHR ''a'' then 1 else 2) (if length s = 1 then 0 else 1))),
      js_value_to = (\<lambda>v. Inr []), js_value_from = (\<lambda>s. Inr ()), js_lua_queue = (\<lambda>s. [])\<rparr>"

definition two_events :: "unit redis_event list" where
  "two_events =
     (let w = example_redis\<lparr>rb_worker_id := ''v''\<rparr>
      in [Submit w (two_message 1 0), Submit w (two_message 2 0), Take example_redis [''q''], Take w [''q''],
          Command 0, Command 1, Command 0, Command 1, Command 2, Command 3, Command 2, Command 3,
          Settle 2 (NackIt (two_message 1 1)), Settle 3 AckIt, Command 2, Command 3, Command 2, Command 3,
          Command 2, Command 3, Drop 2])"

lemma two_message_sel [simp]:
  "msg_id (two_message u n) = TaskId u" "msg_queue (two_message u n) = ''q''"
  "dedup_key (mfields (two_message u n)) = None" "retries (mfields (two_message u n)) = n"
  by (simp_all add: two_message_def message_new_def taskid_new_def)

lemma two_codec_sel [simp]:
  "js_message_to two_codec m =
     Inr (taskid_display two_fmt (msg_id m) @ (if retries (mfields m) = 0 then [] else ''r''))"
  "js_message_from two_codec s =
     Inr (two_message (if s ! 0 = CHR ''a'' then 1 else 2) (if length s = 1 then 0 else 1))"
  by (simp_all add: two_codec_def)

lemma two_apart: "messages_apart two_codec two_fmt {two_message 1 0, two_message 1 1, two_message 2 0}"
  by (simp add: messages_apart_def encodes_def taskid_display_def two_fmt_def starts_with_def)

lemmas run_simps =
  Let_def sys_start_def redis_empty_def redis_ref_def running_def go_on_def map_err_def rb_push_def try_then_def
  example_redis_def key_defs key_builder_new_def taskid_display_def two_fmt_def starts_with_def remove_nth_def

lemma two_run:
  "\<exists>s. sys_run redis_ref two_fmt two_codec 0 two_events (sys_start redis_empty) = Some s \<and>
     rs_submitted s = [TaskId 1, TaskId 2] \<and> rs_done s = [TaskId 2] \<and> rs_lost s = [TaskId 1]"
  by (simp add: two_events_def run_simps)

theorem redis_commands_conserve_tasks_witness:
  "\<exists>s. sys_run redis_ref two_fmt two_codec 0 two_events (sys_start redis_empty) = Some s \<and>
     copies two_codec (TaskId 1) (db_lists (rs_server s)) = 0 \<and>
     copies two_codec (TaskId 2) (db_lists (rs_server s)) = 0 \<and> rs_lost s = [TaskId 1]"
proof -
  let ?M = "{two_message 1 0, two_message 1 1, two_message 2 0}"
  obtain s where s: "sys_run redis_ref two_fmt two_codec 0 two_events (sys_start redis_empty) = Some s"
    "rs_submitted s = [TaskId 1, TaskId 2]" "rs_done s = [TaskId 2]" "rs_lost s = [TaskId 1]"
    using two_run by blast
  have "list_all (event_ok (key_builder_new ''kojin'') ?M) two_events"
    by (simp add: two_events_def Let_def example_redis_def)
  from sys_run_reachable [OF sys_reachable.start this s(1)]
  have "sys_reachable redis_ref two_fmt two_codec 0 (key_builder_new ''kojin'') ?M redis_empty s" .
  note conserve = redis_commands_conserve_tasks [OF redis_reference.redis_server_axioms two_apart _ this]
  from conserve [of "TaskId 1"] conserve [of "TaskId 2"] s show ?thesis by (simp add: redis_empty_def)
qed

end
