(* ===== verification/Kojin_Redis_Faults.thy ===== *)
theory Kojin_Redis_Faults
  imports Kojin_Redis_System
begin

text \<open>
  What the Redis broker does when a worker goes away in the middle of a task, and when the text of
  one message contains the identifier of another (\<open>kojin-redis/src/broker.rs\<close>, \<open>ack\<close>).
\<close>

subsection \<open>Orphans\<close>

text \<open>A task in the processing list of a worker on which no call works any more.\<close>

definition orphan :: "'v json_api \<Rightarrow> KeyBuilder \<Rightarrow> string \<Rightarrow> TaskId \<Rightarrow> (string \<Rightarrow> string list) \<Rightarrow>
    'v client list \<Rightarrow> bool" where
  "orphan J K w i L cs \<longleftrightarrow> 0 < of_task J i (L (key_processing K w)) \<and> tally holding i cs = 0"

lemma tally_0: "tally g i cs = 0 \<longleftrightarrow> (\<forall>c\<in>set cs. g (cl_call c) \<noteq> Some i)"
  by (simp add: tally_def filter_empty_conv)

lemma orphan_move:
  assumes ok: "sys_ok J K M L s" and k: "k < length (rs_clients s)"
    and orphan: "orphan J K w i L (rs_clients s)"
    and move: "move J K M v L (cl_call (rs_clients s ! k)) dn L' c'"
  shows "orphan J K w i L' ((rs_clients s)[k := (rs_clients s ! k)\<lparr>cl_call := c'\<rparr>])"
proof -
  have free: "holding (cl_call (rs_clients s ! k)) \<noteq> Some i" using orphan k by (simp add: orphan_def tally_0)
  have pos: "0 < of_task J i (L (key_processing K w))" using orphan by (simp add: orphan_def)
  from move have "0 < of_task J i (L' (key_processing K w)) \<and> holding c' \<noteq> Some i"
  proof (cases rule: move.cases)
    case (take q xs s' j)
    have "finite_lists L" using ok by (simp add: sys_ok_def lists_ok_def)
    from two_lists_le_copies [OF this, of "key_queue K q" "key_processing K w" J i] pos copies_le_1 [OF ok, of i]
    have "of_task J i (L (key_queue K q)) = 0" by simp
    with take pos show ?thesis by auto
  next
    case (remove item j)
    with free pos of_task_remove1 [OF remove(2), of J i] show ?thesis by auto
  qed (use free pos in auto)
  then show ?thesis
    using orphan tally_update [OF k, of holding i "(rs_clients s ! k)\<lparr>cl_call := c'\<rparr>"]
    by (simp add: orphan_def)
qed

context redis_server
begin

lemma orphan_step:
  assumes apart: "messages_apart J f M" and ok: "sys_ok J K M (db_lists (view (rs_server s))) s"
    and orphan: "orphan J K w i (db_lists (view (rs_server s))) (rs_clients s)"
    and ev: "event_ok K M ev" and step: "sys_step A f J t ev s = Some s'"
  shows "orphan J K w i (db_lists (view (rs_server s'))) (rs_clients s')"
proof (cases ev)
  case (Command k)
  from command_move [OF apart ok step [unfolded Command]] obtain c' where k: "k < length (rs_clients s)"
    and s': "s' = s\<lparr>rs_server := rs_server s', rs_clients := (rs_clients s)[k := (rs_clients s ! k)\<lparr>cl_call := c'\<rparr>],
      rs_done := rs_done s @ acking (cl_call (rs_clients s ! k))\<rparr>"
    and move: "move J K M (rb_worker_id (cl_broker (rs_clients s ! k))) (db_lists (view (rs_server s)))
      (cl_call (rs_clients s ! k)) (acking (cl_call (rs_clients s ! k))) (db_lists (view (rs_server s'))) c'" .
  have "rs_clients s' = (rs_clients s)[k := (rs_clients s ! k)\<lparr>cl_call := c'\<rparr>]" by (subst s') simp
  with orphan_move [OF ok k orphan move] show ?thesis by simp
next
  case (Settle k out)
  then obtain m where k: "k < length (rs_clients s)" "cl_call (rs_clients s ! k) = Returned (Inr (Some m))"
    and out: "outcome_for (msg_id m) out" and s': "rs_server s' = rs_server s"
      "rs_clients s' = (rs_clients s)[k := (rs_clients s ! k)\<lparr>cl_call := outcome_call (msg_id m) out\<rparr>]"
    using step by (auto split: if_splits call.splits sum.splits option.splits)
  have "move J K M v L (cl_call (rs_clients s ! k)) [] L (outcome_call (msg_id m) out)" for v L
    using k(2) out by (intro move.quiet; cases out) simp_all
  from orphan_move [OF ok k(1) orphan this] show ?thesis by (simp add: s')
next
  case (Drop k)
  then have "set (rs_clients s') \<subseteq> set (rs_clients s)" "rs_server s' = rs_server s"
    using step by (auto simp: remove_nth_def split: if_splits dest: in_set_takeD in_set_dropD)
  with orphan show ?thesis by (auto simp: orphan_def tally_0)
qed (use step orphan in \<open>auto simp: orphan_def tally_0 split: if_splits\<close>)

lemma orphan_run:
  "sys_ok J K M (db_lists (view (rs_server s))) s \<Longrightarrow>
   orphan J K w i (db_lists (view (rs_server s))) (rs_clients s) \<Longrightarrow>
   messages_apart J f M \<Longrightarrow> list_all (event_ok K M) evs \<Longrightarrow> sys_run A f J t evs s = Some s' \<Longrightarrow>
   orphan J K w i (db_lists (view (rs_server s'))) (rs_clients s')"
  by (induction evs arbitrary: s) (auto simp: bind_eq_Some_conv dest: sys_ok_step orphan_step)

end

lemma sys_run_append:
  "sys_run A f J t (evs @ evs') s = Option.bind (sys_run A f J t evs s) (sys_run A f J t evs')"
proof (induction evs arbitrary: s)
  case (Cons ev evs)
  then show ?case by (cases "sys_step A f J t ev s") simp_all
qed simp

text \<open>C28: a task whose worker goes away while it works on it is never recovered. Once a task is in the
  processing list of a worker and no call works on it, whatever producers and workers do
  later, it stays in that list, is handed to no call and is not acknowledged: the broker has
  nothing that looks at the processing lists of other workers.\<close>

theorem redis_orphan_never_recovered:
  assumes "redis_server A view" and "messages_apart J f M" and "db_lists (view d) = (\<lambda>_. [])"
    and "sys_reachable A f J t K M d s"
    and "0 < of_task J i (db_lists (view (rs_server s)) (key_processing K w))"
    and "tally holding i (rs_clients s) = 0"
    and "list_all (event_ok K M) evs" and "sys_run A f J t evs s = Some s'"
  shows "of_task J i (db_lists (view (rs_server s')) (key_processing K w)) = 1 \<and>
    tally holding i (rs_clients s') = 0 \<and> i \<notin> set (rs_done s')"
proof -
  let ?L = "db_lists (view (rs_server s'))"
  note ok = redis_server.reachable_ok [OF assms(1-4)]
  have ok': "sys_ok J K M ?L s'"
    by (rule redis_server.reachable_ok [OF assms(1-3) sys_run_reachable [OF assms(4,7,8)]])
  have "orphan J K w i ?L (rs_clients s')"
    using redis_server.orphan_run [OF assms(1) ok _ assms(2,7,8)] assms(5,6) by (simp add: orphan_def)
  then have pos: "0 < of_task J i (?L (key_processing K w))" "tally holding i (rs_clients s') = 0"
    by (simp_all add: orphan_def)
  have "finite_lists ?L" using ok' by (simp add: sys_ok_def lists_ok_def)
  note le = of_task_le_copies [OF this, of J i "key_processing K w"]
  have "count_list (rs_done s') i = 0"
    using le pos(1) sys_ok_accounted [OF ok', of i] by (cases "i \<in> set (rs_submitted s')") simp_all
  with le pos copies_le_1 [OF ok', of i] show ?thesis by (auto simp: count_list_0_iff)
qed

text \<open>The worker that has taken the first task is dropped; the other one polls in vain.\<close>

definition orphan_events :: "unit redis_event list" where
  "orphan_events =
     [Submit example_redis (two_message 1 0), Command 0, Command 0, Take example_redis [''q''],
      Command 1, Command 1, Drop 1]"

definition later_events :: "unit redis_event list" where
  "later_events = [Take (example_redis\<lparr>rb_worker_id := ''v''\<rparr>) [''q''], Command 1, Command 1, Command 1]"

lemma orphan_run_ends:
  "case sys_run redis_ref two_fmt two_codec 0 orphan_events (sys_start redis_empty) of
     None \<Rightarrow> False
   | Some s \<Rightarrow>
       0 < of_task two_codec (TaskId 1) (db_lists (rs_server s) (key_processing (key_builder_new ''kojin'') ''w'')) \<and>
       tally holding (TaskId 1) (rs_clients s) = 0 \<and> sys_run redis_ref two_fmt two_codec 0 later_events s \<noteq> None"
  by (simp add: orphan_events_def later_events_def run_simps of_task_def text_id_def tally_def)

theorem redis_orphan_never_recovered_witness:
  "\<exists>s. sys_run redis_ref two_fmt two_codec 0 (orphan_events @ later_events) (sys_start redis_empty) = Some s \<and>
     TaskId 1 \<notin> set (rs_done s) \<and> tally holding (TaskId 1) (rs_clients s) = 0"
proof -
  let ?M = "{two_message 1 0, two_message 1 1, two_message 2 0}" and ?K = "key_builder_new ''kojin''"
  obtain s s' where s: "sys_run redis_ref two_fmt two_codec 0 orphan_events (sys_start redis_empty) = Some s"
    "0 < of_task two_codec (TaskId 1) (db_lists (rs_server s) (key_processing ?K ''w''))"
    "tally holding (TaskId 1) (rs_clients s) = 0"
    and s': "sys_run redis_ref two_fmt two_codec 0 later_events s = Some s'" using orphan_run_ends by (auto split: option.splits)
  have ev: "list_all (event_ok ?K ?M) orphan_events" "list_all (event_ok ?K ?M) later_events"
    by (simp_all add: orphan_events_def later_events_def example_redis_def)
  from redis_orphan_never_recovered [OF redis_reference.redis_server_axioms two_apart _
      sys_run_reachable [OF sys_reachable.start ev(1) s(1)] s(2,3) ev(2) s'] s(1) s'
  show ?thesis by (simp add: redis_empty_def sys_run_append)
qed

subsection \<open>Identifiers in other texts\<close>

text \<open>C29: \<open>ack\<close> may remove the entry of another task. If the text of a message mentions the identifier
  of an earlier one of the same worker, in its payload or as its parent, then acknowledging the earlier
  task removes the entry of the later one, and acknowledging the later one finds nothing. Both
  calls report success; the finished task stays in the processing list and the entry of the task
  still at work is gone.\<close>

theorem redis_ack_removes_other_task:
  assumes "redis_server A view" and "view d = redis_empty"
    and "dedup_key (mfields m) = None" and "dedup_key (mfields n) = None" and "msg_queue n = msg_queue m"
    and "encodes J s m" and "encodes J s' n" and "s \<noteq> s'"
    and "str_contains (taskid_display f (msg_id m)) s'" and "\<not> str_contains (taskid_display f (msg_id n)) s"
    and "d2 = snd (rb_enqueue A J b n (snd (rb_enqueue A J b m d)))"
    and "d3 = snd (rb_dequeue A J b [msg_queue m] t d2)" and "d4 = snd (rb_dequeue A J b [msg_queue m] t d3)"
    and "d5 = snd (rb_ack A f b (msg_id m) d4)" and "p = key_processing (rb_keys b) (rb_worker_id b)"
  shows "fst (rb_dequeue A J b [msg_queue m] t d2) = Inr (Some m) \<and>
    fst (rb_dequeue A J b [msg_queue m] t d3) = Inr (Some n) \<and> db_lists (view d4) p = [s', s] \<and>
    fst (rb_ack A f b (msg_id m) d4) = Inr () \<and> db_lists (view d5) p = [s] \<and>
    fst (rb_ack A f b (msg_id n) d5) = Inr () \<and> db_lists (view (snd (rb_ack A f b (msg_id n) d5))) p = [s]"
proof -
  note S = assms(1)
  let ?q = "key_queue (rb_keys b) (msg_queue m)"
  have js: "js_message_to J m = Inr s" "js_message_from J s = Inr m" "js_message_to J n = Inr s'" "js_message_from J s' = Inr n"
    using assms(6,7) by (simp_all add: encodes_def)
  have "db_lists (view d2) ?q = [s'] @ [s]" "db_lists (view d2) p = []"
    by (simp_all add: assms(2,5,11,15) redis_empty_def redis_server.rb_enqueue_plain(2) [OF S assms(3) js(1)]
        redis_server.rb_enqueue_plain(2) [OF S assms(4) js(3)])
  note first = this redis_server.rb_dequeue_head [OF S this(1) js(2), of t]
  then have "db_lists (view d3) ?q = [] @ [s']" "db_lists (view d3) p = [s]" by (simp_all add: assms(12,15))
  note second = this redis_server.rb_dequeue_head [OF S this(1) js(4), of t]
  then have d4: "db_lists (view d4) p = [s', s]" by (simp add: assms(13,15))
  note ack = redis_server.rb_ack_view [OF S, of f b]
  have d5: "db_lists (view d5) p = [s]" using d4 assms(8,9) by (simp add: assms(14,15) ack(2))
  then have "db_lists (view (snd (rb_ack A f b (msg_id n) d5))) p = [s]"
    using assms(10) by (simp add: assms(15) ack(2))
  with first second d4 d5 ack(1) show ?thesis by simp
qed

text \<open>The second text names the first task.\<close>

definition child_codec :: "unit json_api" where
  "child_codec =
     \<lparr>js_message_to = (\<lambda>m. Inr (if msg_id m = TaskId 1 then ''a'' else ''ba'')),
      js_message_from = (\<lambda>s. Inr (two_message (if length s = 1 then 1 else 2) 0)),
      js_value_to = (\<lambda>v. Inr []), js_value_from = (\<lambda>s. Inr ()), js_lua_queue = (\<lambda>s. [])\<rparr>"

theorem redis_ack_removes_other_task_witness:
  "let J = child_codec; m = two_message 1 0; n = two_message 2 0;
       d2 = snd (rb_enqueue redis_ref J example_redis n (snd (rb_enqueue redis_ref J example_redis m redis_empty)));
       d4 = snd (rb_dequeue redis_ref J example_redis [''q''] 0 (snd (rb_dequeue redis_ref J example_redis [''q''] 0 d2)));
       d5 = snd (rb_ack redis_ref two_fmt example_redis (TaskId 1) d4);
       p = key_processing (key_builder_new ''kojin'') ''w''
   in db_lists d4 p = [''ba'', ''a''] \<and> db_lists d5 p = [''a'']"
proof -
  let ?m = "two_message 1 0" and ?n = "two_message 2 0"
  have enc: "encodes child_codec ''a'' ?m" "encodes child_codec ''ba'' ?n"
    by (simp_all add: encodes_def child_codec_def)
  have id: "str_contains (taskid_display two_fmt (msg_id ?m)) ''ba''" "\<not> str_contains (taskid_display two_fmt (msg_id ?n)) ''a''"
    by (simp_all add: taskid_display_def two_fmt_def starts_with_def)
  from redis_ack_removes_other_task [OF redis_reference.redis_server_axioms refl _ _ _ enc _ id refl refl refl refl refl,
      of example_redis 0]
  show ?thesis by (simp add: Let_def example_redis_def)
qed

end
