(* ===== verification/Kojin_Tests_Core.thy ===== *)
theory Kojin_Tests_Core
  imports Kojin_Canvas Kojin_Cron Kojin_Wire_Ref
begin

text \<open>
  The unit tests of \<open>kojin-core\<close> on the model. Each definition is one test function of the crate: a
  program over the state it works on, in which every awaited and unwrapped call is a step and
  every assertion a check; the lemma after it says that the test passes. They show that the
  definitions compute what the authors of the code expect_that of it. JSON values are documents
  of \<open>Kojin_Wire\<close>, their text is the notation of \<open>Kojin_Wire_Ref\<close>; identifiers drawn by \<open>new\<close> are
  fixed numbers.
\<close>

definition assert_that :: "bool \<Rightarrow> 's \<Rightarrow> unit TaskResult \<times> 's" where
  "assert_that b s = (if b then Inr () else Inl (Other ''assertion failed''), s)"

definition expect_that :: "('a \<Rightarrow> bool) \<Rightarrow> ('s \<Rightarrow> 'a TaskResult \<times> 's) \<Rightarrow> ('s \<Rightarrow> unit TaskResult \<times> 's) \<Rightarrow>
    's \<Rightarrow> unit TaskResult \<times> 's" where
  "expect_that P call rest = try_then call (\<lambda>a. try_then (assert_that (P a)) (\<lambda>_. rest))"

definition done_ok :: "'s \<Rightarrow> unit TaskResult \<times> 's" where
  "done_ok s = (Inr (), s)"

definition passes :: "('s \<Rightarrow> unit TaskResult \<times> 's) \<Rightarrow> 's \<Rightarrow> bool" where
  "passes test s \<longleftrightarrow> fst (test s) = Inr ()"

named_theorems test_simps

declare assert_that_def [test_simps] expect_that_def [test_simps] done_ok_def [test_simps] passes_def [test_simps]
  try_then_def [test_simps] Let_def [test_simps]

subsection \<open>Backoff, queue weights, context (backoff.rs, queue_weight.rs, context.rs)\<close>

definition fixed_backoff :: bool where
  "fixed_backoff =
     (let strategy = Fixed 5
      in delay_for strategy 0 = duration_from_secs 5 \<and> delay_for strategy 1 = duration_from_secs 5 \<and>
         delay_for strategy 10 = duration_from_secs 5)"

definition exponential_backoff :: bool where
  "exponential_backoff =
     (let strategy = Exponential 1 60
      in delay_for strategy 0 = duration_from_secs 1 \<and> delay_for strategy 1 = duration_from_secs 2 \<and>
         delay_for strategy 2 = duration_from_secs 4 \<and> delay_for strategy 3 = duration_from_secs 8 \<and>
         delay_for strategy 10 = duration_from_secs 60)"

definition exponential_backoff_overflow :: bool where
  "exponential_backoff_overflow = (delay_for (Exponential 1 300) 100 = duration_from_secs 300)"

definition backoff_serde_roundtrip :: bool where
  "backoff_serde_roundtrip =
     (let strategy = Exponential 2 120
      in case ref_parse (ref_print (backoff_doc strategy)) of
           Inl e \<Rightarrow> False
         | Inr d \<Rightarrow>
             (case backoff_of_doc (\<lambda>_. None) d of
                None \<Rightarrow> False
              | Some deserialized \<Rightarrow> delay_for strategy 3 = delay_for deserialized 3))"

definition weighted_order :: bool where
  "weighted_order =
     (let order = build_weighted_order [weighted_queue_new ''high'' High, weighted_queue_new ''low'' Low]
      in length (filter (\<lambda>q. q = ''high'') order) = 6 \<and> length (filter (\<lambda>q. q = ''low'') order) = 1)"

datatype type_id = U32 | Str | Boolean
datatype any_value = AnyU32 u32 | AnyStr string

definition context_insert_and_retrieve :: bool where
  "context_insert_and_retrieve =
     (let ctx = context_insert Str (AnyStr ''hello'') (context_insert U32 (AnyU32 42) context_new)
      in context_data U32 ctx = Some (AnyU32 42) \<and> context_data Str ctx = Some (AnyStr ''hello'') \<and>
         context_data Boolean ctx = None)"

definition context_contains_test :: bool where
  "context_contains_test =
     (let ctx = context_insert U32 (AnyU32 42) context_new
      in context_contains U32 ctx \<and> \<not> context_contains Str ctx)"

definition context_overwrite :: bool where
  "context_overwrite =
     (context_data U32 (context_insert U32 (AnyU32 2) (context_insert U32 (AnyU32 1) context_new)) = Some (AnyU32 2))"

lemma backoff_tests: fixed_backoff exponential_backoff exponential_backoff_overflow backoff_serde_roundtrip
  by (simp_all only: fixed_backoff_def exponential_backoff_def exponential_backoff_overflow_def
      backoff_serde_roundtrip_def delay_for_exponential ref_parse_print backoff_roundtrip Let_def sum.case option.case)
     (simp_all add: exponential_spec_def duration_from_secs_def)

lemma weighted_order_passes: weighted_order
  by code_simp

lemma context_tests: context_insert_and_retrieve context_contains_test context_overwrite
  by (simp_all add: context_insert_and_retrieve_def context_contains_test_def context_overwrite_def
      context_insert_def context_new_def context_data_def context_contains_def downcast_ref_def)

subsection \<open>Identifiers, messages, signatures (task_id.rs, message.rs, signature.rs)\<close>

abbreviation new_message :: "uuid \<Rightarrow> string \<Rightarrow> string \<Rightarrow> json \<Rightarrow> json TaskMessage" where
  "new_message u name q v \<equiv> message_new u 0 name q v"

abbreviation wire_text :: "json TaskMessage \<Rightarrow> string" where
  "wire_text m \<equiv> ref_print (message_doc ref_formats m)"

definition read_text :: "string \<Rightarrow> json TaskMessage option" where
  "read_text s = (case ref_parse s of Inl e \<Rightarrow> None | Inr d \<Rightarrow> message_of_doc ref_formats d)"

definition task_id_serde_roundtrip :: bool where
  "task_id_serde_roundtrip =
     (let i = taskid_new 7
      in case ref_parse (ref_print (taskid_doc ref_formats i)) of
           Inl e \<Rightarrow> False | Inr d \<Rightarrow> taskid_of_doc ref_formats d = Some i)"

definition task_message_serde_roundtrip :: bool where
  "task_message_serde_roundtrip =
     (let msg = with_header ''trace_id'' ''abc123'' (with_max_retries 5
            (new_message 1 ''send_email'' ''default'' (JObj [(''to'', JStr ''a@b.com'')])))
      in case read_text (wire_text msg) of
           None \<Rightarrow> False
         | Some m \<Rightarrow>
             msg_id msg = msg_id m \<and> task_name (mfields msg) = task_name (mfields m) \<and> msg_queue msg = msg_queue m \<and>
             max_retries (mfields msg) = max_retries (mfields m) \<and>
             headers (mfields msg) ''trace_id'' = Some ''abc123'')"

definition task_message_defaults :: bool where
  "task_message_defaults =
     (let msg = mfields (new_message 1 ''test'' ''default'' JNull)
      in state msg = Pending \<and> retries msg = 0 \<and> max_retries msg = 3 \<and> eta msg = None \<and> headers msg = Map.empty \<and>
         parent_id msg = None \<and> correlation_id msg = None \<and> group_id msg = None \<and> group_total msg = None \<and>
         chord_callback (new_message 1 ''test'' ''default'' JNull) = None \<and> priority msg = None \<and> dedup_key msg = None)"

definition backward_compat_deserialization :: bool where
  "backward_compat_deserialization =
     (let old_json = JObj
        [(''id'', JStr ''89ab''), (''task_name'', JStr ''send_email''), (''queue'', JStr ''default''),
         (''payload'', JObj [(''to'', JStr ''a@b.com'')]), (''state'', JStr ''pending''), (''retries'', JInt 0),
         (''max_retries'', JInt 3), (''created_at'', JStr ''0''), (''updated_at'', JStr ''0''), (''eta'', JNull),
         (''headers'', JObj [])]
      in case message_of_doc ref_formats old_json of
           None \<Rightarrow> False
         | Some msg \<Rightarrow>
             task_name (mfields msg) = ''send_email'' \<and> parent_id (mfields msg) = None \<and>
             correlation_id (mfields msg) = None \<and> group_id (mfields msg) = None \<and> group_total (mfields msg) = None \<and>
             chord_callback msg = None \<and> priority (mfields msg) = None \<and> dedup_key (mfields msg) = None)"

definition priority_and_dedup_roundtrip :: bool where
  "priority_and_dedup_roundtrip =
     (let msg = with_dedup_key ''my-key'' (with_priority 5 (new_message 1 ''task'' ''default'' (JObj [(''x'', JInt 1)])))
      in case read_text (wire_text msg) of
           None \<Rightarrow> False
         | Some m \<Rightarrow> priority (mfields m) = Some 5 \<and> dedup_key (mfields m) = Some ''my-key'')"

definition priority_clamped_to_9 :: bool where
  "priority_clamped_to_9 = (priority (mfields (with_priority 20 (new_message 1 ''task'' ''default'' JNull))) = Some 9)"

definition workflow_metadata_roundtrip :: bool where
  "workflow_metadata_roundtrip =
     (let callback = new_message 2 ''callback'' ''default'' (JObj []);
          msg = with_chord_callback callback (with_group ''group-1'' 5 (with_correlation_id ''corr-123''
            (with_parent_id (taskid_new 3) (new_message 1 ''task'' ''default'' (JObj [])))))
      in case read_text (wire_text msg) of
           None \<Rightarrow> False
         | Some m \<Rightarrow>
             parent_id (mfields msg) = parent_id (mfields m) \<and>
             correlation_id (mfields msg) = correlation_id (mfields m) \<and>
             group_id (mfields msg) = group_id (mfields m) \<and> group_total (mfields msg) = group_total (mfields m) \<and>
             map_option (\<lambda>c. task_name (mfields c)) (chord_callback m) = Some ''callback'')"

definition signature_to_message :: bool where
  "signature_to_message =
     (let sig = sig_with_header ''trace'' ''t1'' (sig_with_max_retries 5
            (signature_new ''add'' ''math'' (JObj [(''a'', JInt 1), (''b'', JInt 2)])));
          msg = mfields (into_message 1 0 sig)
      in task_name msg = ''add'' \<and> queue msg = ''math'' \<and> max_retries msg = 5 \<and> headers msg ''trace'' = Some ''t1'')"

definition pipe_operator_creates_chain :: bool where
  "pipe_operator_creates_chain =
     (let s1 = signature_new ''a'' ''q'' (JObj []); s2 = signature_new ''b'' ''q'' (JObj [])
      in case sig_bitor s1 s2 of Chain _ \<Rightarrow> True | _ \<Rightarrow> False)"

lemma read_wire_text: "sendable ref_formats m \<Longrightarrow> read_text (wire_text m) = Some m"
  by (simp add: read_text_def ref_parse_print message_roundtrip [OF ref_formats_ok] del: ref_print.simps)

lemma part_ok_ref: "part_ok ref_formats v h \<longleftrightarrow> finite (dom h)"
  by (simp add: part_ok_def ref_formats_def)

lemma message_serde_tests: task_message_serde_roundtrip priority_and_dedup_roundtrip workflow_metadata_roundtrip
  by (simp_all add: task_message_serde_roundtrip_def priority_and_dedup_roundtrip_def workflow_metadata_roundtrip_def
      read_wire_text part_ok_ref message_defs update_fields_def Let_def del: ref_print.simps message_doc.simps)

lemma message_tests: task_message_defaults priority_clamped_to_9 signature_to_message pipe_operator_creates_chain
  by (simp_all add: task_message_defaults_def priority_clamped_to_9_def signature_to_message_def
      pipe_operator_creates_chain_def sig_bitor_def into_message_fields sig_with_header_def
      sig_with_max_retries_def signature_new_def message_defs Let_def)

lemma task_id_serde_roundtrip_passes: task_id_serde_roundtrip
  by (simp add: task_id_serde_roundtrip_def ref_parse_print taskid_roundtrip [OF ref_formats_ok] Let_def
      del: ref_print.simps)

lemma backward_compat_passes: backward_compat_deserialization
  by (simp add: backward_compat_deserialization_def Let_def message_of_doc.simps fields_of_def required_def
      optional_def message_schema_def taskid_of_doc_def time_of_doc_def state_of_name_def ref_formats_def
      ref_uuid_from_def)

subsection \<open>The in-memory broker (memory_broker.rs)\<close>

abbreviation test_queues :: "string list" where
  "test_queues \<equiv> [''default'']"

abbreviation test_timeout :: Duration where
  "test_timeout \<equiv> duration_from_secs 1"

text \<open>\<open>dequeue(..).await.unwrap().unwrap()\<close>.\<close>

definition dequeued_then :: "Duration \<Rightarrow> (json TaskMessage \<Rightarrow> json MemoryBroker \<Rightarrow> unit TaskResult \<times> json MemoryBroker) \<Rightarrow>
    json MemoryBroker \<Rightarrow> unit TaskResult \<times> json MemoryBroker" where
  "dequeued_then timeout rest =
     try_then (mb_dequeue test_queues timeout) (\<lambda>out.
       case out of None \<Rightarrow> assert_that False | Some m \<Rightarrow> rest m)"

definition enqueue_dequeue_fifo :: bool where
  "enqueue_dequeue_fifo = passes
     (try_then (mb_enqueue (new_message 1 ''task1'' ''default'' (JInt 1))) (\<lambda>_.
      try_then (mb_enqueue (new_message 2 ''task2'' ''default'' (JInt 2))) (\<lambda>_.
      dequeued_then test_timeout (\<lambda>out1. dequeued_then test_timeout (\<lambda>out2.
      assert_that (task_name (mfields out1) = ''task1'' \<and> task_name (mfields out2) = ''task2'')))))) memory_broker_new"

definition dequeue_timeout_returns_none :: bool where
  "dequeue_timeout_returns_none = passes
     (expect_that (\<lambda>r. r = None) (mb_dequeue test_queues (duration_from_millis 50)) done_ok)
     (memory_broker_new :: json MemoryBroker)"

definition processing_has :: "TaskId \<Rightarrow> json MemoryBroker \<Rightarrow> bool TaskResult \<times> json MemoryBroker" where
  "processing_has i s = (Inr (mb_processing s i \<noteq> None), s)"

definition ack_removes_from_processing :: bool where
  "ack_removes_from_processing = passes
     (let msg = new_message 1 ''task1'' ''default'' (JInt 1)
      in try_then (mb_enqueue msg) (\<lambda>_. dequeued_then test_timeout (\<lambda>_.
         expect_that (\<lambda>b. b) (processing_has (msg_id msg)) (
         try_then (mb_ack (msg_id msg)) (\<lambda>_.
         expect_that (\<lambda>b. \<not> b) (processing_has (msg_id msg)) done_ok))))) memory_broker_new"

definition nack_requeues :: bool where
  "nack_requeues = passes
     (try_then (mb_enqueue (new_message 1 ''task1'' ''default'' (JInt 1))) (\<lambda>_. dequeued_then test_timeout (\<lambda>out.
      try_then (mb_nack out) (\<lambda>_.
      expect_that (\<lambda>n. n = 1) (mb_queue_len ''default'') done_ok)))) memory_broker_new"

definition dead_letter_test :: bool where
  "dead_letter_test = passes
     (try_then (mb_enqueue (new_message 1 ''task1'' ''default'' (JInt 1))) (\<lambda>_. dequeued_then test_timeout (\<lambda>out.
      try_then (mb_dead_letter out) (\<lambda>_.
      expect_that (\<lambda>n. n = 0) (mb_queue_len ''default'') (
      expect_that (\<lambda>n. n = 1) (mb_dlq_len ''default'') done_ok))))) memory_broker_new"

definition queue_len_test :: bool where
  "queue_len_test = passes
     (expect_that (\<lambda>n. n = 0) (mb_queue_len ''default'') (
      try_then (mb_enqueue (new_message 1 ''t'' ''default'' (JInt 1))) (\<lambda>_.
      try_then (mb_enqueue (new_message 2 ''t'' ''default'' (JInt 2))) (\<lambda>_.
      expect_that (\<lambda>n. n = 2) (mb_queue_len ''default'') done_ok)))) memory_broker_new"

definition list_queues_returns_known_queues :: bool where
  "list_queues_returns_known_queues = passes
     (try_then (mb_enqueue (new_message 1 ''t'' ''emails'' (JInt 1))) (\<lambda>_.
      try_then (mb_enqueue (new_message 2 ''t'' ''notifications'' (JInt 2))) (\<lambda>_.
      expect_that (\<lambda>queues. queues = [''emails'', ''notifications''])
        (mb_list_queues (\<lambda>P. filter P [''default'', ''emails'', ''notifications''])) done_ok))) memory_broker_new"

fun dead_letter_all :: "int list \<Rightarrow> json MemoryBroker \<Rightarrow> unit TaskResult \<times> json MemoryBroker" where
  "dead_letter_all [] = done_ok"
| "dead_letter_all (i # is) =
     try_then (mb_enqueue (new_message (of_int i) ''task'' ''default'' (JInt i))) (\<lambda>_. dequeued_then test_timeout (\<lambda>out.
     try_then (mb_dead_letter out) (\<lambda>_. dead_letter_all is)))"

definition dlq_messages_pagination :: bool where
  "dlq_messages_pagination = passes
     (try_then (dead_letter_all [0, 1, 2, 3, 4]) (\<lambda>_.
      expect_that (\<lambda>page1. length page1 = 3) (mb_dlq_messages ''default'' 0 3) (
      expect_that (\<lambda>page2. length page2 = 2) (mb_dlq_messages ''default'' 3 3) done_ok))) memory_broker_new"

definition dlq_messages_empty :: bool where
  "dlq_messages_empty = passes
     (expect_that (\<lambda>ms. ms = []) (mb_dlq_messages ''nonexistent'' 0 10) done_ok) (memory_broker_new :: json MemoryBroker)"

lemma memory_broker_tests:
  enqueue_dequeue_fifo dequeue_timeout_returns_none ack_removes_from_processing nack_requeues dead_letter_test
  queue_len_test list_queues_returns_known_queues dlq_messages_empty
  by (simp_all add: enqueue_dequeue_fifo_def dequeue_timeout_returns_none_def ack_removes_from_processing_def
      nack_requeues_def dead_letter_test_def queue_len_test_def list_queues_returns_known_queues_def dlq_messages_empty_def
      test_simps dequeued_then_def mb_dequeue_def mb_dequeue_under_def dequeue_loop.simps try_pop_def mb_enqueue_def
      mb_ack_def mb_nack_def mb_dead_letter_def mb_queue_len_def mb_dlq_len_def mb_list_queues_def
      mb_dlq_messages_def map_len_def push_back_def memory_broker_new_def processing_has_def message_new_def
      saturating_duration_since_def duration_from_millis_def)

lemma dlq_messages_pagination_passes: dlq_messages_pagination
  by (simp add: dlq_messages_pagination_def test_simps dequeued_then_def mb_dequeue_def mb_dequeue_under_def
      dequeue_loop.simps try_pop_def mb_enqueue_def mb_dead_letter_def mb_dlq_messages_def push_back_def
      memory_broker_new_def message_new_def)

subsection \<open>The in-memory result backend (memory_result_backend.rs)\<close>

abbreviation test_fmt :: "uuid \<Rightarrow> string" where
  "test_fmt \<equiv> wf_uuid ref_formats"

definition store_and_get :: bool where
  "store_and_get = passes
     (let i = taskid_new 1; value = JObj [(''result'', JInt 42)]
      in try_then (mr_store test_fmt i value) (\<lambda>_.
         expect_that (\<lambda>got. got = Some value) (mr_get test_fmt i) done_ok)) memory_result_backend_new"

definition get_missing :: bool where
  "get_missing = passes
     (expect_that (\<lambda>got. got = None) (mr_get test_fmt (taskid_new 1)) done_ok) (memory_result_backend_new :: json MemoryResultBackend)"

definition delete_result :: bool where
  "delete_result = passes
     (let i = taskid_new 1
      in try_then (mr_store test_fmt i (JInt 1)) (\<lambda>_. try_then (mr_delete test_fmt i) (\<lambda>_.
         expect_that (\<lambda>got. got = None) (mr_get test_fmt i) done_ok))) memory_result_backend_new"

text \<open>The spawned task stores the result while the second poll sleeps.\<close>

definition wait_for_result :: bool where
  "wait_for_result =
     (let i = taskid_new 1;
          env = (\<lambda>n. (0, if n = 1 then (\<lambda>s. snd (mr_store test_fmt i (JStr ''done'') s)) else (\<lambda>s. s)))
      in map_option fst (mr_wait test_fmt env 0 i (duration_from_secs 2) memory_result_backend_new) = Some (Inr (JStr ''done'')))"

definition wait_timeout :: bool where
  "wait_timeout =
     (let i = taskid_new 1; env = (\<lambda>n. (0, \<lambda>s. s))
      in case mr_wait test_fmt env 0 i (duration_from_millis 100) (memory_result_backend_new :: json MemoryResultBackend) of
           Some (Inl (Timeout _), _) \<Rightarrow> True | _ \<Rightarrow> False)"

definition group_lifecycle :: bool where
  "group_lifecycle = passes
     (try_then (mr_init_group ''g1'' 3) (\<lambda>_.
      expect_that (\<lambda>c1. c1 = 1) (mr_complete_group_member ''g1'' (taskid_new 1) (JInt 1)) (
      expect_that (\<lambda>c2. c2 = 2) (mr_complete_group_member ''g1'' (taskid_new 2) (JInt 2)) (
      expect_that (\<lambda>c3. c3 = 3) (mr_complete_group_member ''g1'' (taskid_new 3) (JInt 3)) (
      expect_that (\<lambda>results. length results = 3) (mr_get_group_results ''g1'') done_ok))))) memory_result_backend_new"

lemma result_backend_tests: store_and_get get_missing delete_result group_lifecycle
  by (simp_all add: store_and_get_def get_missing_def delete_result_def group_lifecycle_def test_simps
      mr_store_def mr_get_def mr_delete_def mr_init_group_def mr_complete_group_member_def mr_get_group_results_def
      memory_result_backend_new_def)

lemma wait_tests: wait_for_result wait_timeout
  by (simp_all add: wait_for_result_def wait_timeout_def Let_def mr_wait_def wait_for_def wait_loop.simps mr_get_def
      mr_store_def memory_result_backend_new_def duration_from_millis_def duration_from_secs_def nanos_per_sec_def
      taskid_new_def taskid_display_def)

subsection \<open>Dispatch (registry.rs, codec.rs)\<close>

text \<open>\<open>AddTask\<close>, as its derived serde implementations read it.\<close>

fun i32_of_doc :: "json \<Rightarrow> 32 word option" where
  "i32_of_doc (JInt i) = (if - (2 ^ 31) \<le> i \<and> i < 2 ^ 31 then Some (word_of_int i) else None)"
| "i32_of_doc _ = None"

definition add_of_doc :: "json \<Rightarrow> string + 32 word \<times> 32 word" where
  "add_of_doc d =
     (case slots [(''a'', False), (''b'', False)] d of
        None \<Rightarrow> Inl ''invalid type''
      | Some f \<Rightarrow>
          (case (required i32_of_doc (f ''a''), required i32_of_doc (f ''b'')) of
             (Some a, Some b) \<Rightarrow> Inr (a, b) | _ \<Rightarrow> Inl ''missing field''))"

definition add_task :: "(32 word \<times> 32 word, 32 word, json, (type_id, any_value) TaskContext, unit) Task" where
  "add_task =
     \<lparr>t_NAME = ''add'', t_QUEUE = task_default_QUEUE, t_MAX_RETRIES = task_default_MAX_RETRIES,
      t_backoff = task_default_backoff, t_run = (\<lambda>(a, b) ctx x. (Inr (a + b), x)), t_from_value = add_of_doc,
      t_to_value = (\<lambda>(a, b). Inr (JObj [(''a'', JInt (sint a)), (''b'', JInt (sint b))])),
      t_output_to_value = (\<lambda>n. Inr (JInt (sint n)))\<rparr>"

definition register_and_dispatch :: bool where
  "register_and_dispatch =
     (let registry = register add_task registry_new
      in registry_contains ''add'' registry \<and> \<not> registry_contains ''unknown'' registry \<and>
         fst (dispatch registry ''add'' (JObj [(''a'', JInt 3), (''b'', JInt 4)]) context_new ()) = Inr (JInt 7))"

definition dispatch_not_found :: bool where
  "dispatch_not_found =
     (case fst (dispatch (registry_new :: (json, (type_id, any_value) TaskContext, unit) TaskRegistry) ''unknown'' JNull
         context_new ()) of
        Inl (TaskNotFound _) \<Rightarrow> True | _ \<Rightarrow> False)"

definition ctx_task :: "(unit, string, json, (type_id, any_value) TaskContext, unit) Task" where
  "ctx_task =
     \<lparr>t_NAME = ''ctx_task'', t_QUEUE = task_default_QUEUE, t_MAX_RETRIES = task_default_MAX_RETRIES,
      t_backoff = task_default_backoff,
      t_run = (\<lambda>_ ctx x. (Inr ((case context_data Str ctx of Some (AnyStr p) \<Rightarrow> p | _ \<Rightarrow> []) @ ''done''), x)),
      t_from_value = (\<lambda>d. if d = JNull then Inr () else Inl ''invalid type''), t_to_value = (\<lambda>_. Inr JNull),
      t_output_to_value = (\<lambda>s. Inr (JStr s))\<rparr>"

definition dispatch_with_context :: bool where
  "dispatch_with_context =
     (fst (dispatch (register ctx_task registry_new) ''ctx_task'' JNull
        (context_insert Str (AnyStr ''prefix:'') context_new) ()) = Inr (JStr ''prefix:done''))"

lemma registry_tests: register_and_dispatch dispatch_not_found dispatch_with_context
  by (simp_all add: register_and_dispatch_def dispatch_not_found_def dispatch_with_context_def register_def
      registry_new_def registry_contains_def registry_get_def dispatch_def task_handler_def add_task_def ctx_task_def
      add_of_doc_def required_def context_data_def context_insert_def context_new_def downcast_ref_def Let_def)

subsection \<open>Middleware (middleware/dedup.rs, middleware/metrics.rs)\<close>

abbreviation keyed_message :: "uuid \<Rightarrow> string \<Rightarrow> json TaskMessage" where
  "keyed_message u k \<equiv> with_dedup_key k (new_message u ''task'' ''q'' (JObj []))"

abbreviation dedup_one_minute :: DeduplicationMiddleware where
  "dedup_one_minute \<equiv> dedup_new (duration_from_secs 60)"

definition allows_first_message :: bool where
  "allows_first_message = passes (dedup_before 0 (keyed_message 1 ''unique-key'')) dedup_one_minute"

definition rejects_duplicate_within_ttl :: bool where
  "rejects_duplicate_within_ttl =
     (case fst (try_then (dedup_before 0 (keyed_message 1 ''same-key'')) (\<lambda>_. dedup_before 5 (keyed_message 2 ''same-key'')) dedup_one_minute) of
        Inl (Duplicate _) \<Rightarrow> True | _ \<Rightarrow> False)"

definition allows_without_dedup_key :: bool where
  "allows_without_dedup_key = passes
     (let msg = new_message 1 ''task'' ''q'' (JObj [])
      in try_then (dedup_before 0 msg) (\<lambda>_. dedup_before 5 msg)) dedup_one_minute"

definition cleanup_removes_expired :: bool where
  "cleanup_removes_expired = passes
     (let later = duration_from_millis 10
      in try_then (dedup_before 0 (keyed_message 1 ''expire-me'')) (\<lambda>_ s.
           dedup_before later (keyed_message 1 ''expire-me'') (dedup_cleanup later s))) (dedup_new (duration_from_millis 1))"

definition metrics_increments :: bool where
  "metrics_increments =
     (let msg = new_message 1 ''test'' ''default'' (JObj []);
          s1 = snd (metrics_before 0 msg metrics_new); s2 = snd (metrics_before 0 msg s1);
          s3 = snd (metrics_after 0 msg (JStr ''ok'') s2); s4 = snd (metrics_on_error 0 msg (TaskFailed ''err'') s3)
      in tasks_started s4 = 2 \<and> tasks_succeeded s4 = 1 \<and> tasks_failed s4 = 1)"

lemma middleware_tests: allows_first_message rejects_duplicate_within_ttl allows_without_dedup_key
    cleanup_removes_expired metrics_increments
  by (simp_all add: allows_first_message_def rejects_duplicate_within_ttl_def allows_without_dedup_key_def
      cleanup_removes_expired_def metrics_increments_def test_simps dedup_before_def dedup_cleanup_def dedup_new_def
      with_dedup_key_def message_new_def saturating_duration_since_def duration_from_millis_def duration_from_secs_def
      nanos_per_sec_def metrics_before_def metrics_after_def metrics_on_error_def metrics_new_def)

end
