(* ===== verification/Kojin_Tests_Flow.thy ===== *)
theory Kojin_Tests_Flow
  imports Kojin_Tests_Core Kojin_Worker_Loop
begin

text \<open>
  The tests of \<open>kojin-core\<close> in which a canvas is submitted or a worker runs (\<open>canvas.rs\<close>, \<open>worker.rs\<close>).
  As in \<open>Kojin_Tests_Core\<close> each definition is one test function and a lemma says that it passes. A test
  that runs a worker is given the events of \<open>Worker::run\<close> during it: the messages that are taken,
  the awaited calls of their tasks, and the cancellation at the end; the run must exist and
  end with nothing running, and the assertions of the test hold of its last state.
\<close>

subsection \<open>Canvases (canvas.rs)\<close>

definition test_sig :: "string \<Rightarrow> json Signature" where
  "test_sig name = signature_new name ''default'' (JObj [])"

definition test_env :: "(json MemoryBroker, json MemoryResultBackend, json) submit_env" where
  "test_env =
     \<lparr>se_broker = memory_broker (\<lambda>_. []), se_backend = memory_result_backend test_fmt,
      se_serde = wire_serde ref_formats, se_now_v7 = of_nat, se_now = (\<lambda>_. 0), se_uuid_fmt = test_fmt\<rparr>"

definition test_submission :: "(json MemoryBroker, json MemoryResultBackend) submission" where
  "test_submission =
     \<lparr>sub_broker = memory_broker_new, sub_backend = memory_result_backend_new, sub_drawn = 0, sub_task_ids = []\<rparr>"

text \<open>\<open>canvas.apply(&broker, &backend).await.unwrap()\<close>, then the rest of the test on the broker.\<close>

definition applied :: "json Canvas \<Rightarrow> (WorkflowHandle \<Rightarrow> json MemoryBroker \<Rightarrow> unit TaskResult \<times> json MemoryBroker) \<Rightarrow> bool"
where
  "applied canvas rest =
     (case canvas_apply test_env canvas test_submission of
        None \<Rightarrow> False
      | Some (Inl e, s) \<Rightarrow> False
      | Some (Inr handle, s) \<Rightarrow> passes (rest handle) (sub_broker s))"

definition chain_macro_test :: bool where
  "chain_macro_test =
     (case chain_macro [test_sig ''a'', test_sig ''b'', test_sig ''c''] of
        Chain steps \<Rightarrow> length steps = 3 | _ \<Rightarrow> False)"

definition group_macro_test :: bool where
  "group_macro_test =
     (case group_macro [test_sig ''a'', test_sig ''b''] of Group members \<Rightarrow> length members = 2 | _ \<Rightarrow> False)"

definition chord_constructor :: bool where
  "chord_constructor =
     (case chord [test_sig ''a'', test_sig ''b''] (test_sig ''callback'') of
        Chord members callback \<Rightarrow> length members = 2 \<and> (case callback of Single _ \<Rightarrow> True | _ \<Rightarrow> False)
      | _ \<Rightarrow> False)"

definition apply_single_test :: bool where
  "apply_single_test = applied (Single (test_sig ''task_a'')) (\<lambda>handle.
     try_then (assert_that (length (wh_task_ids handle) = 1)) (\<lambda>_.
     expect_that (\<lambda>n. n = 1) (mb_queue_len ''default'') done_ok))"

definition apply_chain_test :: bool where
  "apply_chain_test = applied (chain_macro [test_sig ''a'', test_sig ''b'', test_sig ''c'']) (\<lambda>handle.
     try_then (assert_that (length (wh_task_ids handle) = 1)) (\<lambda>_.
     expect_that (\<lambda>n. n = 1) (mb_queue_len ''default'') (
     dequeued_then (duration_from_millis 100) (\<lambda>msg.
       case headers (mfields msg) ''kojin.chain_next'' of
         None \<Rightarrow> assert_that False
       | Some text \<Rightarrow>
           (case sigs_from_str (wire_serde ref_formats) text of
              Inl e \<Rightarrow> assert_that False
            | Inr remaining \<Rightarrow> assert_that (length remaining = 2 \<and> sig_task_name (remaining ! 0) = ''b'' \<and>
                sig_task_name (remaining ! 1) = ''c''))))))"

definition apply_group_test :: bool where
  "apply_group_test = applied (group_macro [test_sig ''a'', test_sig ''b'', test_sig ''c'']) (\<lambda>handle.
     try_then (assert_that (length (wh_task_ids handle) = 3)) (\<lambda>_.
     expect_that (\<lambda>n. n = 3) (mb_queue_len ''default'') done_ok))"

definition apply_chord_test :: bool where
  "apply_chord_test = applied (chord [test_sig ''a'', test_sig ''b''] (test_sig ''callback'')) (\<lambda>handle.
     try_then (assert_that (length (wh_task_ids handle) = 2)) (\<lambda>_.
     expect_that (\<lambda>n. n = 2) (mb_queue_len ''default'') (
     dequeued_then (duration_from_millis 100) (\<lambda>msg.
       assert_that (map_option (\<lambda>c. task_name (mfields c)) (chord_callback msg) = Some ''callback'')))))"

text \<open>Texts of signatures are written and read back, but never looked into.\<close>

definition sigs_text :: "json Signature list \<Rightarrow> string" where
  "sigs_text ss = ref_print (JArr (map (signature_doc ref_formats) ss))"

lemma sigs_text_written: "sigs_to_str (wire_serde ref_formats) ss = Inr (sigs_text ss)"
  by (simp add: wire_serde_def sigs_text_def ref_formats_def del: ref_print.simps)

lemma sigs_text_read:
  assumes "list_all (\<lambda>s. finite (dom (sig_headers s))) ss"
  shows "sigs_from_str (wire_serde ref_formats) (sigs_text ss) = Inr ss"
proof -
  have "\<forall>s\<in>set ss. signature_of_doc ref_formats (signature_doc ref_formats s) = Some s"
    using assms by (auto simp: list_all_iff part_ok_ref intro!: signature_roundtrip [OF ref_formats_ok])
  from read_all_map [OF this] show ?thesis
    by (simp add: wire_serde_def sigs_text_def doc_from_def ref_parse_print ref_formats_def del: ref_print.simps)
qed

lemma test_sig_sel [simp]: "sig_headers (test_sig n) = Map.empty" "sig_task_name (test_sig n) = n" "sig_queue (test_sig n) = ''default''"
  by (simp_all add: test_sig_def signature_new_def)

lemma canvas_constructor_tests: chain_macro_test group_macro_test chord_constructor
  by (simp_all add: chain_macro_test_def group_macro_test_def chord_constructor_def chain_macro_def group_macro_def
      chord_def)

lemma test_env_sel [simp]:
  "se_broker test_env = memory_broker (\<lambda>_. [])" "se_backend test_env = memory_result_backend test_fmt"
  "se_serde test_env = wire_serde ref_formats"
  by (simp_all add: test_env_def)

lemma test_submission_sel [simp]:
  "sub_broker test_submission = memory_broker_new" "sub_backend test_submission = memory_result_backend_new"
  by (simp_all add: test_submission_def)

lemmas broker_run = mb_dequeue_def mb_dequeue_under_def dequeue_loop.simps try_pop_def mb_enqueue_def mb_ack_def
  mb_dead_letter_def mb_queue_len_def mb_dlq_len_def map_len_def push_back_def memory_broker_new_def

lemmas submit_run = applied_def canvas_apply_def draw_group_id_def draw_message_def submit_message_def chain_head_def
  init_group_sub_def group_member_def chain_macro_def group_macro_def chord_def broker_simps backend_simps mr_init_group_def
  memory_result_backend_new_def sigs_text_written sigs_text_read

lemma canvas_apply_tests: apply_single_test apply_chain_test apply_group_test apply_chord_test
  by (simp_all add: apply_single_test_def apply_chain_test_def apply_group_test_def apply_chord_test_def submit_run
      broker_run dequeued_then_def test_simps message_simps)

subsection \<open>Workers (worker.rs)\<close>

type_synonym test_task_context = "(type_id, any_value) TaskContext"

text \<open>The counter that the tasks of a test share is the application state.\<close>

definition unit_task :: "string \<Rightarrow> (u32 \<Rightarrow> 'o TaskResult \<times> u32) \<Rightarrow> ('o \<Rightarrow> json) \<Rightarrow>
    (unit, 'o, json, test_task_context, u32) Task" where
  "unit_task name body out =
     \<lparr>t_NAME = name, t_QUEUE = task_default_QUEUE, t_MAX_RETRIES = 0, t_backoff = task_default_backoff,
      t_run = (\<lambda>_ ctx. body), t_from_value = (\<lambda>d. if d = JNull then Inr () else Inl ''invalid type''),
      t_to_value = (\<lambda>_. Inr JNull), t_output_to_value = Inr \<circ> out\<rparr>"

definition count_task :: "(unit, unit, json, test_task_context, u32) Task" where
  "count_task = unit_task ''count'' (\<lambda>n. (Inr (), n + 1)) (\<lambda>_. JNull)"

definition fail_task :: "(unit, unit, json, test_task_context, u32) Task" where
  "fail_task = unit_task ''fail_task'' (\<lambda>n. (Inl (TaskFailed ''intentional failure''), n)) (\<lambda>_. JNull)"

definition chain_count_task :: "(unit, u32, json, test_task_context, u32) Task" where
  "chain_count_task = unit_task ''chain_count'' (\<lambda>n. (Inr (n + 1), n + 1)) (\<lambda>n. JInt (uint n))"

definition worker_add_task :: "(32 word \<times> 32 word, 32 word, json, test_task_context, u32) Task" where
  "worker_add_task =
     \<lparr>t_NAME = ''add'', t_QUEUE = task_default_QUEUE, t_MAX_RETRIES = 0, t_backoff = task_default_backoff,
      t_run = (\<lambda>(a, b) ctx n. (Inr (a + b), n)), t_from_value = add_of_doc,
      t_to_value = (\<lambda>(a, b). Inr (JObj [(''a'', JInt (sint a)), (''b'', JInt (sint b))])),
      t_output_to_value = (\<lambda>n. Inr (JInt (sint n)))\<rparr>"

type_synonym tested_worker = "(json MemoryBroker, json MemoryResultBackend, unit, u32, json, test_task_context) Worker"
type_synonym test_world = "(json MemoryBroker, json MemoryResultBackend, unit, u32) world"
type_synonym test_event = "(json MemoryBroker, json MemoryResultBackend, u32) run_event"

definition worker_test_config :: "nat \<Rightarrow> u64 \<Rightarrow> WorkerConfig" where
  "worker_test_config permits secs =
     \<lparr>concurrency = permits, wc_queues = [''default''], shutdown_timeout = duration_from_secs secs,
      dequeue_timeout = duration_from_millis 100\<rparr>"

definition test_worker :: "(json, test_task_context, u32) TaskRegistry \<Rightarrow> WorkerConfig \<Rightarrow> tested_worker" where
  "test_worker registry =
     worker_new (wire_serde ref_formats) (\<lambda>k. of_nat (100 + k)) (memory_broker (\<lambda>_. [])) registry context_new"

definition stored_world :: "json TaskMessage list \<Rightarrow> test_world" where
  "stored_world ms =
     \<lparr>w_broker = fold (\<lambda>m b. snd (mb_enqueue m b)) ms memory_broker_new, w_backend = memory_result_backend_new,
      w_mw = (), w_app = 0, w_now = 0, w_clock = 0, w_drawn = 0\<rparr>"

text \<open>The events of a poll, of a task that runs alone to its end, and of the end of a test.\<close>

abbreviation take_one :: "test_event list" where
  "take_one \<equiv> [CheckToken, Acquire, Dequeue]"

abbreviation run_alone :: "test_event list" where
  "run_alone \<equiv> [Resume 0, Resume 0, Resume 0, Resume 0, Resume 0, Resume 0]"

abbreviation stop_worker :: "test_event list" where
  "stop_worker \<equiv> [Cancel, CheckToken, DrainCheck]"

definition worker_ran :: "tested_worker \<Rightarrow> test_event list \<Rightarrow> test_world \<Rightarrow> (test_world \<Rightarrow> bool) \<Rightarrow> bool" where
  "worker_ran W evs w P =
     (case run_steps W evs (run_init W w) of
        None \<Rightarrow> False
      | Some s \<Rightarrow> rs_phase s = Stopped \<and> rs_running s = [] \<and> P (rs_world s))"

text \<open>Three tasks under two permits, the first two interleaved.\<close>

definition worker_processes_tasks :: bool where
  "worker_processes_tasks = worker_ran
     (test_worker (register count_task registry_new) (worker_test_config 2 5))
     (take_one @ take_one @ [Resume 0, Resume 1, Resume 1, Resume 0, Resume 1, Resume 0] @
      take_one @ [Resume 0, Resume 0, Resume 0] @ take_one @ stop_worker)
     (stored_world [new_message 1 ''count'' ''default'' JNull, new_message 2 ''count'' ''default'' JNull,
        new_message 3 ''count'' ''default'' JNull])
     (\<lambda>w. w_app w - 0 = 3)"

definition worker_dead_letters_after_max_retries :: bool where
  "worker_dead_letters_after_max_retries = worker_ran
     (test_worker (register fail_task registry_new) (worker_test_config 1 5))
     (take_one @ [Resume 0, Resume 0, Resume 0] @ take_one @ stop_worker)
     (stored_world [with_max_retries 0 (new_message 1 ''fail_task'' ''default'' JNull)])
     (\<lambda>w. fst (mb_dlq_len ''default'' (w_broker w)) = Inr 1)"

definition worker_graceful_shutdown :: bool where
  "worker_graceful_shutdown = worker_ran
     (test_worker registry_new (worker_test_config 1 1)) stop_worker (stored_world [])
     (\<lambda>w. w_clock w \<le> duration_from_secs 3)"

definition worker_stores_results :: bool where
  "worker_stores_results =
     (let msg = new_message 1 ''add'' ''default'' (JObj [(''a'', JInt 3), (''b'', JInt 4)])
      in worker_ran
        (with_result_backend (memory_result_backend test_fmt)
           (test_worker (register worker_add_task registry_new) (worker_test_config 1 5)))
        (take_one @ run_alone @ take_one @ stop_worker) (stored_world [msg])
        (\<lambda>w. fst (mr_get test_fmt (msg_id msg) (w_backend w)) = Inr (Some (JInt 7))))"

definition worker_chain_continuation :: bool where
  "worker_chain_continuation =
     (let sig = signature_new ''chain_count'' ''default'' JNull;
          msg = with_header ''kojin.chain_next'' (sigs_text [sig, sig])
            (with_max_retries 0 (new_message 1 ''chain_count'' ''default'' JNull))
      in worker_ran
        (with_result_backend (memory_result_backend test_fmt)
           (test_worker (register chain_count_task registry_new) (worker_test_config 1 5)))
        (take_one @ run_alone @ take_one @ run_alone @ take_one @ run_alone @
         take_one @ stop_worker) (stored_world [msg])
        (\<lambda>w. w_app w - 0 = 3))"

lemma test_worker_sel [simp]:
  "wk_broker (test_worker reg cfg) = memory_broker (\<lambda>_. [])" "wk_registry (test_worker reg cfg) = reg"
  "wk_middlewares (test_worker reg cfg) = []" "wk_config (test_worker reg cfg) = cfg"
  "wk_result_backend (test_worker reg cfg) = None" "wk_serde (test_worker reg cfg) = wire_serde ref_formats"
  by (simp_all add: test_worker_def worker_new_def)

lemma worker_test_config_sel [simp]:
  "concurrency (worker_test_config n t) = n" "wc_queues (worker_test_config n t) = [''default'']"
  by (simp_all add: worker_test_config_def)

lemma with_result_backend_sel [simp]:
  "wk_broker (with_result_backend R W) = wk_broker W" "wk_registry (with_result_backend R W) = wk_registry W"
  "wk_middlewares (with_result_backend R W) = wk_middlewares W" "wk_config (with_result_backend R W) = wk_config W"
  "wk_result_backend (with_result_backend R W) = Some R" "wk_serde (with_result_backend R W) = wk_serde W"
  "wk_context (with_result_backend R W) = wk_context W"
  by (simp_all add: with_result_backend_def)

lemmas test_tasks = count_task_def fail_task_def chain_count_task_def unit_task_def worker_add_task_def add_of_doc_def

lemma test_dispatch:
  "dispatch (register count_task registry_new) ''count'' JNull ctx n = (Inr JNull, n + 1)"
  "dispatch (register fail_task registry_new) ''fail_task'' JNull ctx n = (Inl (TaskFailed ''intentional failure''), n)"
  "dispatch (register chain_count_task registry_new) ''chain_count'' JNull ctx n = (Inr (JInt (uint (n + 1))), n + 1)"
  "dispatch (register worker_add_task registry_new) ''add'' (JObj [(''a'', JInt 3), (''b'', JInt 4)]) ctx n =
     (Inr (JInt 7), n)"
  by (simp_all add: dispatch_register task_handler_def test_tasks required_def)

lemmas worker_run = worker_ran_def run_init_def stored_world_def dequeue_step_def release_permit_def start_drain_def
  drain_check_def resume_task_def end_task_def remove_nth_def before_step_def after_step_def error_step_def
  group_step_def on_broker_def on_backend_def broker_simps backend_simps broker_run mark_dead_def test_dispatch

lemma worker_processes_passes: worker_processes_tasks
  by (simp add: worker_processes_tasks_def worker_run message_simps)

lemma worker_dead_letters_passes: worker_dead_letters_after_max_retries
  by (simp add: worker_dead_letters_after_max_retries_def worker_run message_simps)

lemma worker_graceful_shutdown_passes: worker_graceful_shutdown
  by (simp add: worker_graceful_shutdown_def worker_run)

lemmas backend_run = mr_store_def mr_get_def memory_result_backend_new_def continue_chain_def next_chain_message_def

lemma worker_stores_passes: worker_stores_results
  by (simp add: worker_stores_results_def worker_run backend_run message_simps)

lemma value_text_written: "value_to_str (wire_serde ref_formats) v = Inr (ref_print v)"
  by (simp add: wire_serde_def ref_formats_def del: ref_print.simps)

lemma worker_chain_passes: worker_chain_continuation
  by (simp add: worker_chain_continuation_def worker_run backend_run message_simps value_text_written
      sigs_text_written sigs_text_read signature_new_def del: ref_print.simps)

end
