(* ===== verification/Kojin_Tests_Redis.thy ===== *)
theory Kojin_Tests_Redis
  imports Kojin_Tests_Core Kojin_Wire_Redis
begin

text \<open>
  The tests of \<open>kojin-redis\<close> on the model (\<open>broker.rs\<close>, \<open>result_backend.rs\<close>, \<open>keys.rs\<close>), written as in
  \<open>Kojin_Tests_Core\<close>. The container of the tests is the reference server \<open>redis_ref\<close>, empty at the start;
  messages are stored as the texts of their wire format.
\<close>

abbreviation test_json :: "json json_api" where
  "test_json \<equiv> wire_json ref_formats ref_lua_queue"

abbreviation test_config :: RedisConfig where
  "test_config \<equiv> rc_with_prefix ''test'' (redis_config_new ''redis://127.0.0.1:6379'')"

definition setup_broker :: "(RedisBroker \<Rightarrow> redis_db \<Rightarrow> unit TaskResult \<times> redis_db) \<Rightarrow> redis_db \<Rightarrow> unit TaskResult \<times> redis_db"
where
  "setup_broker rest = try_then (redis_broker_new redis_ref test_fmt 42 test_config) rest"

definition setup_backend :: "(RedisResultBackend \<Rightarrow> redis_db \<Rightarrow> unit TaskResult \<times> redis_db) \<Rightarrow> redis_db \<Rightarrow>
    unit TaskResult \<times> redis_db" where
  "setup_backend rest = try_then (redis_result_backend_new redis_ref test_config) rest"

definition redis_dequeued :: "RedisBroker \<Rightarrow> (json TaskMessage \<Rightarrow> redis_db \<Rightarrow> unit TaskResult \<times> redis_db) \<Rightarrow> redis_db \<Rightarrow>
    unit TaskResult \<times> redis_db" where
  "redis_dequeued b rest =
     try_then (rb_dequeue redis_ref test_json b test_queues test_timeout) (\<lambda>out.
       case out of None \<Rightarrow> assert_that False | Some m \<Rightarrow> rest m)"

subsection \<open>The broker (broker.rs)\<close>

definition redis_enqueue_dequeue :: bool where
  "redis_enqueue_dequeue = passes (setup_broker (\<lambda>broker.
     try_then (rb_enqueue redis_ref test_json broker (new_message 1 ''test_task'' ''default'' (JObj [(''key'', JStr ''value'')]))) (\<lambda>_.
     redis_dequeued broker (\<lambda>dequeued. assert_that (task_name (mfields dequeued) = ''test_task''))))) redis_empty"

definition redis_ack_and_nack :: bool where
  "redis_ack_and_nack = passes (setup_broker (\<lambda>broker.
     try_then (rb_enqueue redis_ref test_json broker (new_message 1 ''test_task'' ''default'' (JObj []))) (\<lambda>_.
     redis_dequeued broker (\<lambda>dequeued.
     try_then (rb_ack redis_ref test_fmt broker (msg_id dequeued)) (\<lambda>_.
     expect_that (\<lambda>n. n = 0) (rb_queue_len redis_ref broker ''default'') done_ok))))) redis_empty"

definition redis_dead_letter_queue :: bool where
  "redis_dead_letter_queue = passes (setup_broker (\<lambda>broker.
     try_then (rb_enqueue redis_ref test_json broker (new_message 1 ''test_task'' ''default'' (JObj []))) (\<lambda>_.
     redis_dequeued broker (\<lambda>dequeued.
     try_then (rb_dead_letter redis_ref test_fmt test_json broker dequeued) (\<lambda>_.
     expect_that (\<lambda>n. n = 1) (map_err Broker (rd_llen redis_ref (key_dlq (rb_keys broker) ''default''))) done_ok)))))
     redis_empty"

definition redis_queue_len_tracking :: bool where
  "redis_queue_len_tracking = passes (setup_broker (\<lambda>broker.
     expect_that (\<lambda>n. n = 0) (rb_queue_len redis_ref broker ''default'') (
     try_then (rb_enqueue redis_ref test_json broker (new_message 1 ''t'' ''default'' (JInt 1))) (\<lambda>_.
     try_then (rb_enqueue redis_ref test_json broker (new_message 2 ''t'' ''default'' (JInt 2))) (\<lambda>_.
     expect_that (\<lambda>n. n = 2) (rb_queue_len redis_ref broker ''default'') done_ok))))) redis_empty"

definition redis_dlq_len_via_trait :: bool where
  "redis_dlq_len_via_trait = passes (setup_broker (\<lambda>broker.
     try_then (rb_enqueue redis_ref test_json broker (new_message 1 ''test_task'' ''default'' (JObj []))) (\<lambda>_.
     redis_dequeued broker (\<lambda>dequeued.
     try_then (rb_dead_letter redis_ref test_fmt test_json broker dequeued) (\<lambda>_.
     expect_that (\<lambda>n. n = 1) (rb_dlq_len redis_ref broker ''default'') done_ok))))) redis_empty"

fun redis_dead_letter_all :: "RedisBroker \<Rightarrow> (uuid \<times> string) list \<Rightarrow> redis_db \<Rightarrow> unit TaskResult \<times> redis_db" where
  "redis_dead_letter_all broker [] = done_ok"
| "redis_dead_letter_all broker ((u, name) # names) =
     try_then (rb_enqueue redis_ref test_json broker (new_message u name ''default'' (JObj []))) (\<lambda>_.
     redis_dequeued broker (\<lambda>dequeued.
     try_then (rb_dead_letter redis_ref test_fmt test_json broker dequeued) (\<lambda>_. redis_dead_letter_all broker names)))"

definition redis_dlq_messages_returns_content :: bool where
  "redis_dlq_messages_returns_content = passes (setup_broker (\<lambda>broker.
     try_then (redis_dead_letter_all broker [(1, ''task_a''), (2, ''task_b'')]) (\<lambda>_.
     expect_that (\<lambda>messages. length messages = 2 \<and> (let names = map (\<lambda>m. task_name (mfields m)) messages
         in ''task_a'' \<in> set names \<and> ''task_b'' \<in> set names))
       (rb_dlq_messages redis_ref test_json broker ''default'' 0 10) done_ok))) redis_empty"

definition redis_schedule_and_poll :: bool where
  "redis_schedule_and_poll =
     (let now = 100 * int nanos_per_sec; past = now - int (duration_from_secs 10)
      in passes (setup_broker (\<lambda>broker.
        try_then (rb_schedule redis_ref test_json broker (new_message 1 ''scheduled_task'' ''default'' (JObj [])) past) (\<lambda>_.
        expect_that (\<lambda>n. n = 1) (rb_poll_scheduled redis_ref test_json broker (timestamp now)) (
        expect_that (\<lambda>n. n = 1) (rb_queue_len redis_ref broker ''default'') done_ok)))) redis_empty)"

text \<open>The text of a message is stored and read, but never looked into.\<close>

definition message_text :: "json TaskMessage \<Rightarrow> string" where
  "message_text m = wire_text m"

lemma message_text_written: "js_message_to test_json m = Inr (message_text m)"
  by (simp add: wire_json_def message_text_def ref_formats_def)

lemma new_message_sel:
  "msg_id (new_message u name q v) = TaskId u" "msg_queue (new_message u name q v) = q"
  "task_name (mfields (new_message u name q v)) = name" "dedup_key (mfields (new_message u name q v)) = None"
  by (simp_all add: message_new_def taskid_new_def)

lemma new_message_wire_ok: "depth v < 127 \<Longrightarrow> wire_ok ref_formats (new_message u name q v)"
  unfolding wire_ok_eq by (simp add: message_new_def ref_formats_def part_ok_def depth_message_doc del: message_doc.simps)

lemma message_text_read:
  assumes "depth v < 127"
  shows "js_message_from test_json (message_text (new_message u name q v)) = Inr (new_message u name q v)"
    "str_contains (test_fmt u) (message_text (new_message u name q v))"
    "js_lua_queue test_json (message_text (new_message u name q v)) = q"
  using wire_encodes [OF ref_formats_ok ref_texts_ok new_message_wire_ok [OF assms, of u name q]]
    wire_contains_id [OF ref_texts_ok, of "new_message u name q v"]
    wire_lua_queue [OF ref_texts_ok new_message_wire_ok [OF assms, of u name q]]
  by (simp_all add: encodes_def message_text_def taskid_display_def new_message_sel wire_json_def ref_formats_def
      del: message_doc.simps ref_print.simps)

lemmas redis_run = setup_broker_def redis_broker_new_def redis_config_new_def redis_config_default_def
  rc_with_prefix_def key_builder_new_def redis_ref_def redis_empty_def redis_dequeued_def rb_enqueue_def rb_push_def
  rb_dequeue_def rb_ack_def rb_dead_letter_def rb_queue_len_def rb_dlq_len_def rb_dlq_messages_def
  map_err_def pure_call_def taskid_display_def test_simps message_text_written message_text_read new_message_sel

lemma redis_broker_tests: redis_enqueue_dequeue redis_ack_and_nack redis_dead_letter_queue redis_queue_len_tracking
    redis_dlq_len_via_trait
  by (simp_all add: redis_enqueue_dequeue_def redis_ack_and_nack_def redis_dead_letter_queue_def
      redis_queue_len_tracking_def redis_dlq_len_via_trait_def redis_run)

lemma redis_dlq_messages_passes: redis_dlq_messages_returns_content
  by (simp add: redis_dlq_messages_returns_content_def redis_run lrange_def)

lemma redis_schedule_and_poll_passes: redis_schedule_and_poll
  by (simp add: redis_schedule_and_poll_def rb_schedule_def rb_poll_scheduled_def poll_scheduled_script_def timestamp_def
      zadd_def key_scheduled_def key_queue_def str_remove.simps starts_with_def redis_run duration_from_secs_def
      nanos_per_sec_def)

subsection \<open>The result backend and the keys (result_backend.rs, keys.rs)\<close>

definition redis_store_and_get :: bool where
  "redis_store_and_get = passes (setup_backend (\<lambda>backend.
     let i = taskid_new 1; value = JObj [(''result'', JInt 42)]
     in try_then (rr_store redis_ref test_fmt test_json backend i value) (\<lambda>_.
        expect_that (\<lambda>got. got = Some value) (rr_get redis_ref test_fmt test_json backend i) done_ok))) redis_empty"

definition redis_get_missing :: bool where
  "redis_get_missing = passes (setup_backend (\<lambda>backend.
     expect_that (\<lambda>got. got = None) (rr_get redis_ref test_fmt test_json backend (taskid_new 1)) done_ok)) redis_empty"

definition redis_delete_result :: bool where
  "redis_delete_result = passes (setup_backend (\<lambda>backend.
     let i = taskid_new 1
     in try_then (rr_store redis_ref test_fmt test_json backend i (JInt 1)) (\<lambda>_.
        try_then (rr_delete redis_ref test_fmt backend i) (\<lambda>_.
        expect_that (\<lambda>got. got = None) (rr_get redis_ref test_fmt test_json backend i) done_ok)))) redis_empty"

definition redis_group_completion :: bool where
  "redis_group_completion = passes (setup_backend (\<lambda>backend.
     try_then (rr_init_group redis_ref backend ''g1'' 3) (\<lambda>_.
     expect_that (\<lambda>c1. c1 = 1) (rr_complete_group_member redis_ref test_json backend ''g1'' (taskid_new 1) (JInt 1)) (
     expect_that (\<lambda>c2. c2 = 2) (rr_complete_group_member redis_ref test_json backend ''g1'' (taskid_new 2) (JInt 2)) (
     expect_that (\<lambda>c3. c3 = 3) (rr_complete_group_member redis_ref test_json backend ''g1'' (taskid_new 3) (JInt 3)) (
     expect_that (\<lambda>results. length results = 3) (rr_get_group_results redis_ref test_json backend ''g1'') done_ok))))))
     redis_empty"

definition key_naming :: bool where
  "key_naming =
     (let kb = key_builder_new ''kojin''
      in key_queue kb ''default'' = ''kojin:queue:default'' \<and> key_processing kb ''w1'' = ''kojin:processing:w1'' \<and>
         key_scheduled kb = ''kojin:scheduled'' \<and> key_dlq kb ''default'' = ''kojin:dlq:default'' \<and>
         key_message kb ''abc'' = ''kojin:msg:abc'' \<and> key_result kb ''abc'' = ''kojin:result:abc'' \<and>
         key_group_total kb ''g1'' = ''kojin:group:g1:total'' \<and>
         key_group_completed kb ''g1'' = ''kojin:group:g1:completed'' \<and>
         key_group_results kb ''g1'' = ''kojin:group:g1:results'' \<and> key_dedup kb ''my-key'' = ''kojin:dedup:my-key'')"

lemma value_text:
  "js_value_to test_json v = Inr (ref_print v)" "js_value_from test_json (ref_print v) = Inr v"
  by (simp_all add: wire_json_def ref_formats_def doc_from_def ref_parse_print del: ref_print.simps)

lemma redis_backend_tests: redis_store_and_get redis_get_missing redis_delete_result redis_group_completion
  by (simp_all add: redis_store_and_get_def redis_get_missing_def redis_delete_result_def redis_group_completion_def
      setup_backend_def redis_result_backend_new_def rr_store_def rr_get_def rr_delete_def rr_init_group_def
      rr_complete_group_member_def rr_get_group_results_def group_complete_script_def ttl_secs_def expire_ok_def
      duration_from_secs_def nanos_per_sec_def value_text redis_run del: ref_print.simps)

lemma key_naming_passes: key_naming
  by (simp add: key_naming_def key_builder_new_def key_defs)

end
