(* ===== verification/Kojin_Tests_Crates.thy ===== *)
theory Kojin_Tests_Crates
  imports Kojin_Tests_Core Kojin_Dashboard_Http Kojin_Agent_Wire Kojin_Sqs Kojin_Amqp Kojin_Macros
begin

text \<open>
  The unit tests of the other crates on the model, written as in \<open>Kojin_Tests_Core\<close>: the dashboard
  (\<open>routes.rs\<close>), the agent tasks (\<open>runner.rs\<close>, \<open>task.rs\<close>, \<open>helpers.rs\<close>, \<open>sdd.rs\<close>, \<open>concurrency.rs\<close>),
  the configurations and names of the SQS and RabbitMQ brokers, and the attribute macro.
  The tests of these two brokers that start a server, and those of PostgreSQL, are not among them.
\<close>

subsection \<open>The dashboard (routes.rs)\<close>

type_synonym test_dashboard = "(json MemoryBroker, json MemoryResultBackend, json) DashboardState"

abbreviation dashboard_broker :: "(json MemoryBroker, json) Broker" where
  "dashboard_broker \<equiv> memory_broker (\<lambda>P. filter P [''default''])"

text \<open>A request has no query; the body is \<open>null\<close> when it is no document.\<close>

definition get_json :: "test_dashboard \<Rightarrow> string list \<Rightarrow> json MemoryBroker \<Rightarrow> json MemoryResultBackend \<Rightarrow> nat \<times> json" where
  "get_json d segs b r =
     (let resp = fst (serve ref_formats (\<lambda>_. Inr (None, None)) d segs [] (b, r))
      in (status resp, case content resp of Document doc \<Rightarrow> doc | _ \<Rightarrow> JNull))"

text \<open>\<open>json["key"]\<close> and \<open>as_array\<close>.\<close>

fun json_index :: "json \<Rightarrow> string \<Rightarrow> json" where
  "json_index (JObj kvs) k = (case map_of kvs k of None \<Rightarrow> JNull | Some v \<Rightarrow> v)"
| "json_index _ k = JNull"

fun as_array :: "json \<Rightarrow> json list option" where
  "as_array (JArr ds) = Some ds"
| "as_array _ = None"

definition dash_list_queues_empty :: bool where
  "dash_list_queues_empty =
     (get_json (dashboard_state_new dashboard_broker) [''api'', ''queues''] memory_broker_new memory_result_backend_new
      = (200, JArr []))"

definition dash_list_queues_with_data :: bool where
  "dash_list_queues_with_data = passes
     (try_then (mb_enqueue (new_message 1 ''t'' ''default'' (JInt 1))) (\<lambda>_ broker.
        let (code, body) = get_json (dashboard_state_new dashboard_broker) [''api'', ''queues''] broker memory_result_backend_new
        in assert_that (code = 200 \<and> (case as_array body of None \<Rightarrow> False
             | Some arr \<Rightarrow> length arr = 1 \<and> json_index (arr ! 0) ''name'' = JStr ''default'' \<and>
                 json_index (arr ! 0) ''length'' = JInt 1)) broker)) memory_broker_new"

definition dash_get_queue_detail :: bool where
  "dash_get_queue_detail = passes
     (try_then (mb_enqueue (new_message 1 ''t'' ''default'' (JInt 1))) (\<lambda>_.
      try_then (mb_enqueue (new_message 2 ''t'' ''default'' (JInt 2))) (\<lambda>_ broker.
        let (code, body) = get_json (dashboard_state_new dashboard_broker) [''api'', ''queues'', ''default''] broker
              memory_result_backend_new
        in assert_that (code = 200 \<and> json_index body ''name'' = JStr ''default'' \<and> json_index body ''length'' = JInt 2 \<and>
             json_index body ''dlq_length'' = JInt 0) broker))) memory_broker_new"

definition dash_get_dlq_messages :: bool where
  "dash_get_dlq_messages = passes
     (try_then (mb_enqueue (new_message 1 ''failing_task'' ''default'' (JObj []))) (\<lambda>_. dequeued_then test_timeout (\<lambda>out.
      try_then (mb_dead_letter out) (\<lambda>_ broker.
        let (code, body) = get_json (dashboard_state_new dashboard_broker) [''api'', ''queues'', ''default'', ''dlq''] broker
              memory_result_backend_new
        in assert_that (code = 200 \<and> (case as_array body of None \<Rightarrow> False
             | Some arr \<Rightarrow> length arr = 1 \<and> json_index (arr ! 0) ''task_name'' = JStr ''failing_task'')) broker))))
     memory_broker_new"

definition dash_get_metrics_with_middleware :: bool where
  "dash_get_metrics_with_middleware =
     (let msg = new_message 1 ''test'' ''default'' (JObj []);
          metrics = snd (metrics_after 0 msg (JStr ''ok'') (snd (metrics_before 0 msg metrics_new)));
          (code, body) = get_json (ds_with_metrics metrics (dashboard_state_new dashboard_broker)) [''api'', ''metrics'']
            memory_broker_new memory_result_backend_new
      in code = 200 \<and> json_index body ''tasks_started'' = JInt 1 \<and> json_index body ''tasks_succeeded'' = JInt 1 \<and>
         json_index body ''tasks_failed'' = JInt 0)"

definition dash_get_metrics_without_middleware :: bool where
  "dash_get_metrics_without_middleware =
     (fst (get_json (dashboard_state_new dashboard_broker) [''api'', ''metrics''] memory_broker_new memory_result_backend_new) = 404)"

definition dash_get_task_result_found :: bool where
  "dash_get_task_result_found = passes
     (let i = taskid_new 1
      in try_then (mr_store test_fmt i (JObj [(''answer'', JInt 42)])) (\<lambda>_ backend.
           let (code, body) = get_json (ds_with_result_backend (memory_result_backend test_fmt) (dashboard_state_new dashboard_broker))
                 [''api'', ''tasks'', test_fmt (as_uuid i)] memory_broker_new backend
           in assert_that (code = 200 \<and> json_index body ''answer'' = JInt 42) backend)) memory_result_backend_new"

definition dash_get_task_result_not_found :: bool where
  "dash_get_task_result_not_found =
     (fst (get_json (ds_with_result_backend (memory_result_backend test_fmt) (dashboard_state_new dashboard_broker))
        [''api'', ''tasks'', test_fmt 5] memory_broker_new memory_result_backend_new) = 404)"

definition dash_get_task_result_no_backend :: bool where
  "dash_get_task_result_no_backend =
     (fst (get_json (dashboard_state_new dashboard_broker) [''api'', ''tasks'', test_fmt 5] memory_broker_new
        memory_result_backend_new) = 404)"

lemmas dashboard_run = get_json_def serve_def dashboard_state_new_def ds_with_metrics_def ds_with_result_backend_def
  list_queues_def get_queue_def get_dlq_def get_metrics_def queue_info_doc_def metrics_response_doc_def unwrap_or_def
  pagination_def default_limit_def broker_simps backend_simps test_simps mb_dequeue_def mb_dequeue_under_def
  dequeue_loop.simps try_pop_def mb_enqueue_def mb_dead_letter_def mb_queue_len_def mb_dlq_len_def mb_list_queues_def
  mb_dlq_messages_def map_len_def push_back_def memory_broker_new_def

lemma dashboard_queue_tests: dash_list_queues_empty dash_list_queues_with_data dash_get_queue_detail
  by (simp_all add: dash_list_queues_empty_def dash_list_queues_with_data_def dash_get_queue_detail_def dashboard_run
      message_new_def)

lemma dashboard_dlq_test: dash_get_dlq_messages
  by (simp add: dash_get_dlq_messages_def dashboard_run dequeued_then_def message_new_def message_entries_def)

lemma dashboard_metrics_tests: dash_get_metrics_with_middleware dash_get_metrics_without_middleware
  by (simp_all add: dash_get_metrics_with_middleware_def dash_get_metrics_without_middleware_def dashboard_run
      metrics_before_def metrics_after_def metrics_new_def word_doc_def)

lemma test_fmt_from: "wf_uuid_from ref_formats (test_fmt u) = Some u"
  using ref_formats_ok by (simp add: formats_ok_def)

lemma test_fmt_segment: "dashboard_router [''api'', ''tasks'', test_fmt 1] = Some (GetTaskResult (test_fmt 1))"
    "dashboard_router [''api'', ''tasks'', test_fmt 5] = Some (GetTaskResult (test_fmt 5))"
  by (simp_all add: ref_formats_def to_hex.simps)

lemmas result_run = get_json_def serve_def dashboard_state_new_def ds_with_result_backend_def get_task_result_def
  test_fmt_from test_fmt_segment backend_simps mr_get_def mr_store_def memory_result_backend_new_def test_simps
  taskid_from_uuid_def taskid_new_def taskid_display_def

lemma dashboard_result_tests: dash_get_task_result_found dash_get_task_result_not_found dash_get_task_result_no_backend
  by (simp_all add: dash_get_task_result_found_def dash_get_task_result_not_found_def dash_get_task_result_no_backend_def
      result_run del: dashboard_router.simps)
     (simp add: ref_formats_def)

subsection \<open>Agent tasks (runner.rs, task.rs, helpers.rs)\<close>

text \<open>Amounts of money are whole cents in the documents of these tests; the runner of a test is in
  the context under its own type identifier.\<close>

abbreviation test_claude_task :: "(int ClaudeCodeTask, int RunOutput, json, (unit, (int, nat) ClaudeRunner) TaskContext, nat) Task"
where
  "test_claude_task \<equiv> wire_claude_task ref_formats cent_formats () (\<lambda>r. r)"

definition run_args_default_test :: bool where
  "run_args_default_test =
     (let args = (run_args_default :: int RunArgs) in ra_model args = None \<and> ra_max_turns args = None \<and> ra_cwd args = None)"

definition run_args_serialization_roundtrip :: bool where
  "run_args_serialization_roundtrip =
     (let args = (run_args_default :: int RunArgs)\<lparr>ra_model := Some ''opus'', ra_max_turns := Some 5,
            ra_allowed_tools := Some [''Read'', ''Edit'']\<rparr>
      in case run_args_doc cent_formats args of
           None \<Rightarrow> False
         | Some doc \<Rightarrow>
             (case ref_parse (ref_print doc) of
                Inl e \<Rightarrow> False
              | Inr d \<Rightarrow>
                  (case run_args_of_doc cent_formats d of
                     None \<Rightarrow> False
                   | Some deserialized \<Rightarrow> ra_model deserialized = Some ''opus'' \<and> ra_max_turns deserialized = Some 5)))"

definition claude_task_name :: bool where
  "claude_task_name =
     (t_NAME test_claude_task = ''claude_code'' \<and> t_QUEUE test_claude_task = ''agents'' \<and> t_MAX_RETRIES test_claude_task = 1)"

definition claude_serialization_roundtrip :: bool where
  "claude_serialization_roundtrip =
     (let task = claude_task_with_args ''Review this code''
            ((run_args_default :: int RunArgs)\<lparr>ra_model := Some ''sonnet'', ra_max_turns := Some 3\<rparr>)
      in case t_to_value test_claude_task task of
           Inl e \<Rightarrow> False
         | Inr v \<Rightarrow>
             (case t_from_value test_claude_task v of
                Inl e \<Rightarrow> False
              | Inr deserialized \<Rightarrow> cc_prompt deserialized = ''Review this code'' \<and>
                  ra_model (cc_args deserialized) = Some ''sonnet''))"

definition signature_produces_correct_task_name :: bool where
  "signature_produces_correct_task_name =
     (case task_signature test_claude_task (claude_task_new ''test prompt'') of
        None \<Rightarrow> False
      | Some sig \<Rightarrow> sig_task_name sig = ''claude_code'' \<and> sig_queue sig = ''agents'')"

definition claude_sig_produces_valid_signature :: bool where
  "claude_sig_produces_valid_signature =
     (case claude_sig test_claude_task ''test prompt'' run_args_default of
        None \<Rightarrow> False
      | Some sig \<Rightarrow> sig_task_name sig = ''claude_code'' \<and> sig_queue sig = ''agents'')"

lemmas claude_run = wire_claude_task_def claude_code_task_def task_signature_def claude_task_new_def
  claude_task_with_args_def claude_task_doc_def run_args_doc_def run_args_entries_def run_args_default_def doc_to_value_def
  cent_formats_def sig_with_max_retries_def signature_new_def claude_sig_def

lemma claude_tests: run_args_default_test claude_task_name signature_produces_correct_task_name
    claude_sig_produces_valid_signature
  by (simp_all add: run_args_default_test_def claude_task_name_def signature_produces_correct_task_name_def
      claude_sig_produces_valid_signature_def claude_run)

lemma run_args_roundtrip_passes: run_args_serialization_roundtrip
  by (simp add: run_args_serialization_roundtrip_def ref_parse_print run_args_doc_def run_args_default_def
      run_args_entries_def run_args_of_doc_def run_args_schema_def optional_def option_doc_def word_doc_def
      del: ref_print.simps)

lemma claude_roundtrip_passes: claude_serialization_roundtrip
  by (simp add: claude_serialization_roundtrip_def claude_run doc_from_value_def claude_task_of_doc_def required_def
      run_args_of_doc_def run_args_schema_def optional_def option_doc_def word_doc_def ref_formats_def)

subsection \<open>Generate, test, fix (sdd.rs)\<close>

abbreviation test_sdd_task :: "(int, nat) process_api \<Rightarrow>
    (int SddTask, int SddOutput, json, (unit, (int, nat) ClaudeRunner) TaskContext, nat) Task" where
  "test_sdd_task A \<equiv> wire_sdd_task ref_formats cent_formats A () (\<lambda>r. r)"

text \<open>The runner of the tests answers with a fixed text. The test command fails \<open>fails\<close> times: the world
  counts how often it was run.\<close>

definition mock_runner :: "string \<Rightarrow> (int, nat) ClaudeRunner" where
  "mock_runner text prompt args n =
     (Inr \<lparr>ro_result = text, ro_session_id = None, ro_cost_usd = None, ro_duration_ms = None, ro_num_turns = None\<rparr>, n)"

definition test_processes :: "nat \<Rightarrow> (int, nat) process_api" where
  "test_processes fails =
     \<lparr>os_output = (\<lambda>c n. (Inr \<lparr>po_success = fails \<le> n, po_status = [], po_stdout = [], po_stderr = []\<rparr>, Suc n)),
      utf8_lossy = (\<lambda>bytes. []), raw_from_slice = (\<lambda>bytes. Inl []), show_f64 = int_text\<rparr>"

definition sdd_builder_defaults :: bool where
  "sdd_builder_defaults =
     (let task = (sdd_task_new ''my spec'' :: int SddTask)
      in sdd_spec task = ''my spec'' \<and> sdd_test_command task = [''cargo'', ''test''] \<and> sdd_max_fix_attempts task = 3 \<and>
         sdd_cwd task = None)"

definition sdd_builder_methods :: bool where
  "sdd_builder_methods =
     (let task = sdd_with_args (ra_with_model ''opus'' run_args_default) (sdd_with_max_fix_attempts 5
            (sdd_with_cwd ''/tmp/repo'' (sdd_with_test_command [''pytest'', ''-x''] (sdd_task_new ''spec'' :: int SddTask))))
      in sdd_test_command task = [''pytest'', ''-x''] \<and> sdd_cwd task = Some ''/tmp/repo'' \<and> sdd_max_fix_attempts task = 5 \<and>
         ra_model (sdd_args task) = Some ''opus'')"

definition sdd_serialization_roundtrip :: bool where
  "sdd_serialization_roundtrip =
     (let task = sdd_with_max_fix_attempts 2 (sdd_with_test_command [''npm'', ''test''] (sdd_task_new ''implement fibonacci''))
      in case t_to_value (test_sdd_task (test_processes 0)) task of
           Inl e \<Rightarrow> False
         | Inr v \<Rightarrow>
             (case t_from_value (test_sdd_task (test_processes 0)) v of
                Inl e \<Rightarrow> False
              | Inr deserialized \<Rightarrow> sdd_spec deserialized = ''implement fibonacci'' \<and>
                  sdd_test_command deserialized = [''npm'', ''test''] \<and> sdd_max_fix_attempts deserialized = 2))"

definition sdd_task_constants :: bool where
  "sdd_task_constants =
     (let T = test_sdd_task (test_processes 0) in t_NAME T = ''sdd'' \<and> t_QUEUE T = ''agents'' \<and> t_MAX_RETRIES T = 0)"

definition sdd_sig_produces_valid_signature :: bool where
  "sdd_sig_produces_valid_signature =
     (case sdd_sig (test_sdd_task (test_processes 0)) ''test spec'' [''cargo'', ''test''] run_args_default of
        None \<Rightarrow> False
      | Some sig \<Rightarrow> sig_task_name sig = ''sdd'' \<and> sig_queue sig = ''agents'')"

definition sdd_signature_from_task :: bool where
  "sdd_signature_from_task =
     (case task_signature (test_sdd_task (test_processes 0)) (sdd_task_new ''my spec'') of
        None \<Rightarrow> False | Some sig \<Rightarrow> sig_task_name sig = ''sdd'')"

definition verify_pass_on_first_try :: bool where
  "verify_pass_on_first_try =
     (let ctx = context_insert () (mock_runner ''done'') context_new;
          task = sdd_with_max_fix_attempts 3 (sdd_with_test_command [''true''] (sdd_task_new ''test spec''))
      in case fst (sdd_run (test_processes 0) () (\<lambda>r. r) task ctx 0) of
           Inl e \<Rightarrow> False
         | Inr output \<Rightarrow> so_passed output \<and> so_attempts output = 1 \<and> so_fix_outputs output = [])"

definition verify_fails_then_passes :: bool where
  "verify_fails_then_passes =
     (let ctx = context_insert () (mock_runner ''fixed'') context_new;
          task = sdd_with_max_fix_attempts 3 (sdd_with_test_command [''sh'', ''-c'', 
            ''if [ -f '/tmp/kojin_sdd_test_marker' ]; then exit 0; else touch '/tmp/kojin_sdd_test_marker' && exit 1; fi'']
            (sdd_task_new ''test spec''))
      in case fst (sdd_run (test_processes 1) () (\<lambda>r. r) task ctx 0) of
           Inl e \<Rightarrow> False
         | Inr output \<Rightarrow> so_passed output \<and> so_attempts output = 2 \<and> length (so_fix_outputs output) = 1)"

lemmas sdd_build = sdd_task_new_def sdd_with_test_command_def sdd_with_cwd_def sdd_with_max_fix_attempts_def
  sdd_with_args_def run_args_default_def

lemma sdd_builder_tests: sdd_builder_defaults sdd_builder_methods sdd_task_constants sdd_sig_produces_valid_signature
    sdd_signature_from_task
  by (simp_all add: sdd_builder_defaults_def sdd_builder_methods_def sdd_task_constants_def
      sdd_sig_produces_valid_signature_def sdd_signature_from_task_def sdd_sig_def sdd_build ra_with_model_def
      wire_sdd_task_def sdd_task_def task_signature_def sdd_task_doc_def run_args_doc_def doc_to_value_def
      sig_with_max_retries_def signature_new_def)

lemma sdd_roundtrip_passes: sdd_serialization_roundtrip
  by (simp add: sdd_serialization_roundtrip_def sdd_build wire_sdd_task_def sdd_task_def sdd_task_doc_def run_args_doc_def
      run_args_entries_def doc_to_value_def doc_from_value_def sdd_task_of_doc_def required_def run_args_of_doc_def
      run_args_schema_def optional_def option_doc_def word_doc_def ref_formats_def)

lemma sdd_run_tests: verify_pass_on_first_try verify_fails_then_passes
  by (simp_all add: verify_pass_on_first_try_def verify_fails_then_passes_def sdd_run_def sdd_loop.simps
      run_test_command_def test_processes_def mock_runner_def context_data_def context_insert_def context_new_def
      downcast_ref_def sdd_build case_nat_numeral Let_def)

subsection \<open>The concurrency limit (concurrency.rs)\<close>

fun sem_run :: "'c sem_event list \<Rightarrow> 'c sem_state \<Rightarrow> 'c sem_state option" where
  "sem_run [] s = Some s"
| "sem_run (ev # evs) s = (case sem_step ev s of None \<Rightarrow> None | Some s' \<Rightarrow> sem_run evs s')"

definition available_permits_test :: bool where
  "available_permits_test =
     (available_permits (sem_new (semaphore_runner_new (mock_runner ''ok'') 3) :: nat sem_state) = 3)"

text \<open>Five calls of a runner with two permits: each gets a permit, runs and gives it back.\<close>

definition limits_concurrency :: bool where
  "limits_concurrency =
     (let runner = semaphore_runner_new (mock_runner ''ok'') 2;
          evs = [Arrive 0, Arrive 1, Arrive 2, Arrive 3, Arrive 4, Grant, Grant, Leave 1, Grant, Leave 0, Grant, Leave 0,
            Grant, Leave 1, Leave 0]
      in length (filter (\<lambda>ev. ev = Grant) evs) = 5 \<and>
         (case sem_run evs (sem_new runner :: nat sem_state) of
            None \<Rightarrow> False
          | Some s \<Rightarrow> sem_waiting s = [] \<and> sem_inside s = [] \<and> sem_available s = 2))"

lemma concurrency_tests: available_permits_test limits_concurrency
  by (simp_all add: available_permits_test_def limits_concurrency_def available_permits_def sem_new_def
      semaphore_runner_new_def remove_nth_def Let_def)

subsection \<open>Configurations and names of brokers (kojin-sqs, kojin-amqp)\<close>

definition sqs_extract_queue_name :: bool where
  "sqs_extract_queue_name \<longleftrightarrow>
     queue_name_from_url ''http://localhost:4566/000000000000/my-queue'' = ''my-queue'' \<and>
     queue_name_from_url ''http://localhost:4566/000000000000/my-queue.fifo'' = ''my-queue''"

definition sqs_extract_queue_name_bare :: bool where
  "sqs_extract_queue_name_bare \<longleftrightarrow> queue_name_from_url ''my-queue'' = ''my-queue''"

definition sqs_extract_queue_name_trailing_fifo :: bool where
  "sqs_extract_queue_name_trailing_fifo \<longleftrightarrow> queue_name_from_url ''my-queue.fifo'' = ''my-queue''"

definition is_fifo_standard :: bool where
  "is_fifo_standard \<longleftrightarrow> \<not> is_fifo ''http://localhost:4566/000000000000/my-queue''"

definition is_fifo_fifo_queue :: bool where
  "is_fifo_fifo_queue \<longleftrightarrow> is_fifo ''http://localhost:4566/000000000000/my-queue.fifo''"

definition sqs_config_defaults :: bool where
  "sqs_config_defaults =
     (let cfg = sqs_config_new [''http://localhost/queue'']
      in sc_queue_urls cfg = [''http://localhost/queue''] \<and> sc_dlq_url cfg = None \<and> sc_visibility_timeout cfg = 30 \<and>
         sc_wait_time_seconds cfg = 20)"

definition sqs_builder_chain :: bool where
  "sqs_builder_chain =
     (let cfg = sc_with_wait_time_seconds 5 (sc_with_visibility_timeout 45 (sc_with_dlq_url ''http://localhost/dlq''
            (sqs_config_new [''http://localhost/q''])))
      in sc_dlq_url cfg = Some ''http://localhost/dlq'' \<and> sc_visibility_timeout cfg = 45 \<and> sc_wait_time_seconds cfg = 5)"

definition amqp_config_defaults :: bool where
  "amqp_config_defaults =
     (let cfg = amqp_config_new ''amqp://localhost''
      in ac_url cfg = ''amqp://localhost'' \<and> ac_exchange cfg = ''kojin.direct'' \<and> ac_dlx_exchange cfg = ''kojin.dlx'' \<and>
         ac_delayed_exchange cfg = ''kojin.delayed'' \<and> ac_prefetch_count cfg = 10 \<and> ac_max_priority cfg = 0)"

definition amqp_max_priority_clamps_to_10 :: bool where
  "amqp_max_priority_clamps_to_10 \<longleftrightarrow> ac_max_priority (ac_with_max_priority 255 (amqp_config_new ''amqp://localhost'')) = 10"

definition amqp_max_priority_normal :: bool where
  "amqp_max_priority_normal \<longleftrightarrow> ac_max_priority (ac_with_max_priority 5 (amqp_config_new ''amqp://localhost'')) = 5"

lemma sqs_name_tests: sqs_extract_queue_name sqs_extract_queue_name_bare sqs_extract_queue_name_trailing_fifo
    is_fifo_standard is_fifo_fifo_queue
  by code_simp+

lemma config_tests: sqs_config_defaults sqs_builder_chain amqp_config_defaults amqp_max_priority_clamps_to_10
    amqp_max_priority_normal
  by (simp_all add: sqs_config_defaults_def sqs_builder_chain_def amqp_config_defaults_def
      amqp_max_priority_clamps_to_10_def amqp_max_priority_normal_def sqs_config_new_def sc_with_wait_time_seconds_def
      sc_with_visibility_timeout_def sc_with_dlq_url_def amqp_config_new_def ac_with_max_priority_def min_def)

subsection \<open>The attribute macro (codegen.rs, task\_attr.rs)\<close>

definition pascal_case_tests :: bool where
  "pascal_case_tests \<longleftrightarrow>
     to_pascal_case ''my_task'' = ''MyTask'' \<and> to_pascal_case ''task'' = ''Task'' \<and>
     to_pascal_case ''my_long_task_name'' = ''MyLongTaskName'' \<and> to_pascal_case [] = []"

definition parse_empty :: bool where
  "parse_empty \<longleftrightarrow> task_attr_parse token_input [] = Some (Inr \<lparr>ta_queue = None, ta_max_retries = None\<rparr>)"

definition parse_queue_only :: bool where
  "parse_queue_only \<longleftrightarrow>
     task_attr_parse token_input [TIdent ''queue'', TEq, TStr ''emails''] =
       Some (Inr \<lparr>ta_queue = Some ''emails'', ta_max_retries = None\<rparr>)"

definition parse_max_retries_only :: bool where
  "parse_max_retries_only \<longleftrightarrow>
     task_attr_parse token_input [TIdent ''max_retries'', TEq, TInt ''5''] =
       Some (Inr \<lparr>ta_queue = None, ta_max_retries = Some 5\<rparr>)"

definition parse_both :: bool where
  "parse_both \<longleftrightarrow>
     task_attr_parse token_input [TIdent ''queue'', TEq, TStr ''q'', TComma, TIdent ''max_retries'', TEq, TInt ''10''] =
       Some (Inr \<lparr>ta_queue = Some ''q'', ta_max_retries = Some 10\<rparr>)"

definition parse_unknown_key_errors :: bool where
  "parse_unknown_key_errors =
     (case task_attr_parse token_input [TIdent ''unknown'', TEq, TStr ''x''] of
        Some (Inl err) \<Rightarrow> str_contains ''unknown attribute'' err | _ \<Rightarrow> False)"

lemma pascal_case_tests_pass: pascal_case_tests
  by code_simp

lemma parse_tests: parse_empty parse_queue_only parse_max_retries_only parse_both parse_unknown_key_errors
  by (simp_all add: parse_empty_def parse_queue_only_def parse_max_retries_only_def parse_both_def
      parse_unknown_key_errors_def task_attr_parse_def parse_attrs.simps parse_pair_def parse_value_def task_attr_default_def
      base10_parse_def digit_value_def token_input_def read_punct_def read_expr_def starts_with_def Let_def)

end
