(* ===== verification/Spec2Isabelle.thy ===== *)
theory Spec2Isabelle
  imports Kojin_Builder Kojin_Canvas Kojin_Worker_Loop Kojin_Redelivery Kojin_Postgres Kojin_Agent_Wire Kojin_Wire_Types Kojin_Wire_Redis
    Kojin_Dashboard_Http Kojin_Macros Kojin_Redis_Faults Kojin_Tests_Flow
    Kojin_Tests_Redis Kojin_Tests_Crates
begin

text \<open>
  A verification of kojin, an asynchronous distributed task queue written in Rust.

  \<^bold>\<open>The program.\<close> A producer makes a \<open>TaskMessage\<close> (directly, from a \<open>Signature\<close> or by applying a
  \<open>Canvas\<close>: a chain, a group or a chord) and enqueues it with a \<open>Broker\<close>. A \<open>Worker\<close> dequeues
  messages, holds one semaphore permit per running task, passes each message through its
  \<open>Middleware\<close>s, dispatches it to a handler of its \<open>TaskRegistry\<close>, and then acknowledges,
  retries or dead-letters it; after a success it stores the result in a \<open>ResultBackend\<close>, counts
  group members, fires chord callbacks and sends the next message of a chain. A cron scheduler
  enqueues periodic tasks. Brokers exist in memory and over Redis, RabbitMQ and SQS, result
  backends in memory and over Redis and PostgreSQL. Two more crates sit on top: tasks that run
  an agent process, and a read-only HTTP dashboard.

  \<^bold>\<open>The theories.\<close> In the order in which they build on each other; paths are under \<open>src/\<close>.
  \<^item> \<open>Kojin_Prelude\<close>: machine types, durations, \<open>checked_shl\<close>, \<open>saturating_mul\<close>, shared lemmas and
    the collections of rewrite rules.
  \<^item> \<open>Kojin_Types\<close>: \<open>kojin-core/src/\<close> \<open>error.rs\<close>, \<open>state.rs\<close>, \<open>task_id.rs\<close>, \<open>backoff.rs\<close>,
    \<open>queue_weight.rs\<close>, \<open>context.rs\<close>; results of fallible calls are sums with the error on the left.
  \<^item> \<open>Kojin_Message\<close>: \<open>message.rs\<close> and \<open>signature.rs\<close> with the FNV-1a content key at 64 bits.
  \<^item> \<open>Kojin_Broker\<close>: the trait of \<open>broker.rs\<close> as a record of operations on an explicit state, an
    abstract broker (queues, messages in flight, dead letters) and three contracts as locales:
    \<open>task_broker\<close> (every operation acts as the abstract broker's), \<open>single_task_broker\<close> (the part
    of it that a broker holding one task at a time must meet, a \<open>sublocale\<close> of the former, which
    Redis also meets) and \<open>immediate_broker\<close> for a broker without delayed delivery.
  \<^item> \<open>Kojin_Memory_Broker\<close>: \<open>memory_broker.rs\<close>. It interprets \<open>immediate_broker\<close>; its histories are
    an inductive relation over which the conservation of tasks is an invariant; the blocking
    \<open>dequeue\<close> is modelled with what other tasks do while it waits.
  \<^item> \<open>Kojin_Result_Backend\<close>: \<open>result_backend.rs\<close>, \<open>memory_result_backend.rs\<close>; the locale
    \<open>group_store\<close> is what the worker relies on to complete groups.
  \<^item> \<open>Kojin_Registry\<close>: \<open>task.rs\<close>, \<open>registry.rs\<close>, \<open>codec.rs\<close>.
  \<^item> \<open>Kojin_Middleware\<close>: \<open>middleware/\<close> (tracing, metrics, deduplication, OpenTelemetry, rate limit).
  \<^item> \<open>Kojin_Worker\<close>: \<open>worker.rs\<close>, one task from the dequeue to its last effect
    (\<open>execute_task\<close>, \<open>handle_failure\<close>); \<open>Kojin_Worker_Correct\<close>: what rounds of the worker do on
    any broker that meets the contract; \<open>Kojin_Task_Steps\<close>: the same code of a task cut at its
    await points; \<open>Kojin_Worker_Loop\<close>: \<open>Worker::run\<close>, the loop with its permits, the spawned tasks
    (one awaited call at a time), panics, cancellation, the drain phase and the exit of the
    process, as a transition system in which all of these interleave, and the cancellation on
    a signal (\<open>shutdown.rs\<close>).
  \<^item> \<open>Kojin_Canvas\<close>: \<open>canvas.rs\<close>; the locale \<open>workflow\<close> joins a broker and a group store.
  \<^item> \<open>Kojin_Cron\<close>: \<open>cron.rs\<close>. \<open>Kojin_Builder\<close>: \<open>kojin/src/builder.rs\<close>.
  \<^item> \<open>Kojin_Redis_Server\<close>, \<open>Kojin_Redis\<close>: the commands the \<open>kojin-redis\<close> crate sends, the documented
    behaviour of the server as the locale \<open>redis_server\<close> with a reference server that
    interprets it, and \<open>config.rs\<close>, \<open>keys.rs\<close>, \<open>scripts.rs\<close>, \<open>broker.rs\<close>, \<open>result_backend.rs\<close>.
    \<open>Kojin_Redis_Worker\<close>: the Redis broker meets \<open>single_task_broker\<close>, so that the worker's theorems
    on retries and chains hold of it, and its result backend meets \<open>group_counter\<close>, the locale of
    \<open>Kojin_Worker_Loop\<close> under which a group's total is told once. \<open>Kojin_Redis_Steps\<close>: the calls of the Redis
    broker cut into single commands; \<open>Kojin_Redis_System\<close>: producers and workers that share a server,
    their commands in any order, calls dropped anywhere; \<open>Kojin_Redis_Faults\<close>: tasks whose worker
    went away, and acknowledgements that hit another task.
  \<^item> \<open>Kojin_Wire\<close>: the JSON documents that the serde attributes of \<open>message.rs\<close>, \<open>signature.rs\<close>,
    \<open>state.rs\<close>, \<open>task_id.rs\<close> and \<open>backoff.rs\<close> describe, written and read. Texts of UUIDs and times, the
    order of a \<open>HashMap\<close> and the conversions between texts, values and documents are the record
    \<open>wire_formats\<close> with its promises \<open>formats_ok\<close> and \<open>texts_ok\<close>, which \<open>Kojin_Wire_Ref\<close> keeps with an
    executable notation. \<open>Kojin_Wire_Types\<close>: the type of a message document; \<open>Kojin_Wire_Redis\<close>: messages
    in this format on Redis; \<open>Kojin_Agent_Wire\<close>: the same for the types of \<open>kojin-agent\<close>.
  \<^item> \<open>Kojin_Postgres\<close>: \<open>kojin-postgres/src/result_backend.rs\<close>, one definition per SQL statement over
    an explicit database.
  \<^item> \<open>Kojin_Sqs\<close>, \<open>Kojin_Amqp\<close>: the \<open>kojin-sqs\<close> and \<open>kojin-amqp\<close> brokers over the client libraries'
    calls as parameters; \<open>Kojin_Redelivery\<close>: both together with a worker, over reference servers
    with visibility timeouts and requeueing.
  \<^item> \<open>Kojin_Agent\<close>: the \<open>kojin-agent\<close> crate (runner, semaphore, tasks, the gen-test-fix loop);
    \<open>Kojin_Dashboard\<close>, \<open>Kojin_Dashboard_Http\<close>: the handlers, the routing table and the responses of
    \<open>kojin-dashboard\<close>;
    \<open>Kojin_Macros\<close>: the attribute macro of \<open>kojin-macros\<close>, its argument parser over the locale
    \<open>syn_tokens\<close> and the meaning of the code it generates.
  \<^item> \<open>Kojin_Tests_Core\<close>, \<open>Kojin_Tests_Flow\<close>, \<open>Kojin_Tests_Redis\<close>, \<open>Kojin_Tests_Crates\<close>: unit tests of the
    repository as programs over these definitions, each with a lemma that it passes: the model
    computes what the authors expect of the code.
  This theory holds the properties that span components.

  \<^bold>\<open>Conventions.\<close> A struct is a record, an enum a datatype, a trait object a record of functions. An
  operation takes the state it changes and returns it with its result, a sum or an option.
  Counters that the source keeps in \<open>u32\<close> or \<open>u64\<close> are words of that size; durations and instants
  are natural numbers of nanoseconds, points of UTC integers of nanoseconds. JSON values are a
  type parameter; the codecs are parameters that \<open>Kojin_Wire\<close> instantiates; the UUID generator, the
  clock, cron schedules, the AWS, AMQP and Redis clients are parameters of the definitions, and what a property needs of them is a hypothesis
  that a witness discharges on a concrete instance. \<open>world\<close> collects what one worker acts on:
  broker, result backend, middleware state, application state, clocks, drawn UUIDs. \<open>HashMap\<close>
  iteration order is a parameter (\<open>enum\<close>).

  \<^bold>\<open>What is shown.\<close> Retries: a failing task runs once more than its retries, with the exact backoff
  delays, and ends in the dead-letter queue. Workflows: a chain runs every task in order, a
  chord fires its callback exactly when its last member has run, group counters tell exactly
  the last member. The in-memory broker: refinement of the abstract broker, order, conservation
  of tasks, linearizability of the blocking \<open>dequeue\<close>, and that queue weights play no part. The
  worker loop: permits are conserved, no task is lost but in the situations named (a dropped
  \<open>dequeue\<close>, an exit after an early acknowledgement), a group's total is told to one member
  however its members interleave, shutdown takes no task and ends; the await-by-await execution of
  a task agrees with the one in one piece. Cron: while polls are at most a second apart, each enqueues
  exactly the entries due since the one before. Redis as a shared server: however the single commands
  of producers and workers interleave and wherever calls are dropped, a submitted task is in exactly
  one place, and is lost only by a call dropped before its push; a task left in the processing
  list of a worker that went away is never recovered; an acknowledgement can remove another
  task. Redis, PostgreSQL, SQS,
  RabbitMQ: order, groups, delays and queue names, and the situations in which messages are
  lost, repeated or never dead-lettered; retries, chains and scheduled tasks on Redis in the
  wire format. The wire format: messages read back as written, also across versions, and are
  read exactly from documents of their type; agent tasks reach the worker unchanged. Waiting for
  a result returns on every backend. The responses of the dashboard are the state of the broker and
  the backend. Deduplication windows,
  hash keys, dispatch, and the attribute macro: its arguments are read back as written and the
  task it generates runs the annotated function.

  \<^bold>\<open>Bounds.\<close> No fuel is used but by the parser of \<open>Kojin_Wire_Ref\<close>, for which the length of the text is
  enough. The polling loops of \<open>wait\<close> are partial functions to \<open>option\<close> and are
  proved to return; the blocking \<open>dequeue\<close> recurses over the finite list of wake-ups of the wait;
  the drain loop is a sequence of steps that is proved bounded. Sizes below \<open>2 ^ 32\<close> are
  hypotheses where the source stores them in a \<open>u32\<close>.

  \<^bold>\<open>Not modelled.\<close> The parsers of the \<open>syn\<close> crate (a parameter) and identifiers outside ASCII in the
  macro, the branch of \<open>shutdown.rs\<close> for systems other than Unix, logging, the HTTP server of the dashboard, connection
  pools beyond their failure, the rate limiter's algorithm (the \<open>governor\<close> crate; its decision is a
  parameter), examples, benchmarks, the integration tests, and the unit tests that need a server other
  than Redis or belong to the cron, tracing, OpenTelemetry and rate-limit modules. A call of a
  broker, a result backend, a middleware or a handler is atomic in the model of the worker; the
  blocking \<open>dequeue\<close> of the in-memory broker and the calls of the Redis broker are also modelled
  with what happens between their steps.
\<close>

section \<open>A worker to run the examples\<close>

text \<open>
  Concrete workers for the examples below: JSON values are texts, the only task \<open>echo\<close>
  returns its payload and appends it to the application state.
\<close>

definition example_uuid :: "uuid \<Rightarrow> string" where
  "example_uuid u = to_hex (unat u)"

definition example_serde :: "string Signature list \<Rightarrow> string serde_api" where
  "example_serde all =
     \<lparr>sigs_from_str = (\<lambda>s. Inr (drop (length all - length s) all)),
      sigs_to_str = (\<lambda>xs. Inr (replicate (length xs) CHR ''s'')),
      value_to_str = Inr, values_to_str = (\<lambda>vs. Inr (concat vs))\<rparr>"

definition echo_registry :: "(string, unit, string list) TaskRegistry" where
  "echo_registry = \<lparr>handlers = [''echo'' \<mapsto> (\<lambda>p ctx x. (Inr p, x @ [p]))]\<rparr>"

definition example_worker :: "('b, string) Broker \<Rightarrow> string Signature list \<Rightarrow>
    ('b, string MemoryResultBackend, MetricsInner, string list, string, unit) Worker" where
  "example_worker B all =
     \<lparr>wk_broker = B, wk_registry = echo_registry, wk_middlewares = [metrics_mw],
      wk_context = (), wk_config = worker_config_default,
      wk_result_backend = Some (memory_result_backend example_uuid),
      wk_serde = example_serde all, wk_now_v7 = (\<lambda>k. of_nat (100 + k))\<rparr>"

definition example_world :: "'b \<Rightarrow> ('b, string MemoryResultBackend, MetricsInner, string list) world" where
  "example_world b =
     \<lparr>w_broker = b, w_backend = memory_result_backend_new, w_mw = metrics_new, w_app = [],
      w_now = 0, w_clock = 0, w_drawn = 0\<rparr>"

definition example_memory :: "(string MemoryBroker, string) Broker" where
  "example_memory = memory_broker (\<lambda>_. [])"

definition example_message :: "string \<Rightarrow> string TaskMessage" where
  "example_message name = message_new 7 0 name ''default'' ''hello''"

definition echo_sig :: "string \<Rightarrow> string Signature" where
  "echo_sig p = signature_new ''echo'' ''default'' p"

definition example_env :: "string Signature list \<Rightarrow>
    (string MemoryBroker, string MemoryResultBackend, string) submit_env" where
  "example_env all =
     \<lparr>se_broker = example_memory, se_backend = memory_result_backend example_uuid,
      se_serde = example_serde all, se_now_v7 = of_nat, se_now = int, se_uuid_fmt = example_uuid\<rparr>"

definition example_submission :: "(string MemoryBroker, string MemoryResultBackend) submission" where
  "example_submission =
     \<lparr>sub_broker = memory_broker_new, sub_backend = memory_result_backend_new, sub_drawn = 0,
      sub_task_ids = []\<rparr>"

lemmas example_defs =
  example_worker_def example_world_def example_memory_def example_message_def echo_registry_def
  echo_sig_def example_env_def example_submission_def example_serde_def worker_config_default_def

lemma example_broker_empty: "mb_abs memory_broker_new = idle (\<lambda>_. [])"
  by (simp add: mb_abs_def memory_broker_new_def idle_def stored_def fun_eq_iff)

lemma example_worker_observers: "\<forall>M\<in>set (wk_middlewares (example_worker B all)). observer M"
  by (simp add: example_worker_def builtin_observers)

lemma example_world_sel [simp]:
  "w_broker (example_world b) = b" "w_app (example_world b) = []" "w_clock (example_world b) = 0"
  "w_backend (example_world b) = memory_result_backend_new"
  by (simp_all add: example_world_def)

lemma example_worker_sel [simp]:
  "wk_broker (example_worker B all) = B" "wk_registry (example_worker B all) = echo_registry"
  "wk_context (example_worker B all) = ()" "wk_config (example_worker B all) = worker_config_default"
  "wk_result_backend (example_worker B all) = Some (memory_result_backend example_uuid)"
  "wk_serde (example_worker B all) = example_serde all"
  by (simp_all add: example_worker_def)

lemma example_env_sel [simp]:
  "se_broker (example_env all) = memory_broker (\<lambda>_. [])"
  "se_backend (example_env all) = memory_result_backend example_uuid"
  "se_serde (example_env all) = example_serde all" "se_now_v7 (example_env all) = of_nat"
  by (simp_all add: example_env_def example_memory_def)

lemma example_submission_sel [simp]:
  "sub_broker example_submission = memory_broker_new" "sub_drawn example_submission = 0"
  by (simp_all add: example_submission_def)

lemma default_queue [simp]: "wc_queues worker_config_default = [''default'']"
  by (simp add: worker_config_default_def)

abbreviation queued_world :: "string TaskMessage \<Rightarrow>
    (string MemoryBroker, string MemoryResultBackend, MetricsInner, string list) world" where
  "queued_world m \<equiv> example_world (snd (mb_enqueue m memory_broker_new))"

definition loaded_world :: "(string MemoryBroker, string MemoryResultBackend, MetricsInner, string list) world"
where
  "loaded_world = queued_world (example_message ''echo'')"

text \<open>A worker that has taken a message of the default queue.\<close>

definition spawned_state :: "string Signature list \<Rightarrow> string TaskMessage \<Rightarrow>
    (string MemoryBroker, string MemoryResultBackend, MetricsInner, string list, string) run_state" where
  "spawned_state all m = (run_init (example_worker example_memory all) (queued_world m))
     \<lparr>rs_permits := 9, rs_running := [Spawned m],
      rs_world := (queued_world m)\<lparr>w_broker := snd (try_pop [''default''] (snd (mb_enqueue m memory_broker_new)))\<rparr>\<rparr>"

lemma spawned_state_steps:
  "msg_queue m = ''default'' \<Longrightarrow>
     run_steps (example_worker example_memory all) [CheckToken, Acquire, Dequeue]
       (run_init (example_worker example_memory all) (queued_world m)) = Some (spawned_state all m)"
  by (simp add: run_init_def spawned_state_def dequeue_step_def on_broker_def
      example_memory_def memory_broker_def mb_dequeue_def mb_dequeue_under_def dequeue_loop.simps
      try_pop_def mb_enqueue_def memory_broker_new_def push_back_def example_world_def worker_config_default_def)

definition taken_state :: "(string MemoryBroker, string MemoryResultBackend, MetricsInner, string list, string) run_state"
where
  "taken_state = spawned_state [] (example_message ''echo'')"

lemma taken_state_steps:
  "run_steps (example_worker example_memory []) [CheckToken, Acquire, Dequeue]
     (run_init (example_worker example_memory []) loaded_world) = Some taken_state"
  unfolding taken_state_def loaded_world_def
  by (rule spawned_state_steps) (simp add: example_message_def message_new_def)

lemmas taken_state_reachable = run_steps_reachable [OF taken_state_steps run_reachable.init]

definition exit_events :: "('b, 'r, 'x) run_event list" where
  "exit_events = [Cancel, CheckToken, Tick (30 * nanos_per_sec), DrainCheck, Abort 0]"

text \<open>The process exits at the shutdown deadline while one task is still running.\<close>

lemma exit_drops:
  "\<lbrakk>rs_phase s = LoopTop; rs_permits s = 9; rs_running s = [st]\<rbrakk> \<Longrightarrow>
     \<exists>s'. run_steps (example_worker B all) exit_events s = Some s' \<and> rs_running s' = [] \<and>
       w_broker (rs_world s') = w_broker (rs_world s) \<and> w_app (rs_world s') = w_app (rs_world s)"
  by (simp add: exit_events_def start_drain_def drain_check_def end_task_def release_permit_def remove_nth_def
      worker_simps worker_config_default_def duration_from_secs_def)

lemma resume_single:
  "\<lbrakk>rs_running s = [st]; task_step W st (rs_world s) = (Some st', w')\<rbrakk> \<Longrightarrow>
     run_steps W (Resume 0 # evs) s = run_steps W evs (s\<lparr>rs_running := [st'], rs_world := w'\<rparr>)"
  by (simp add: resume_task_def)

lemma spawned_state_ack:
  "msg_queue m = ''default'' \<Longrightarrow>
     mb_abs (snd (mb_ack (msg_id m) (w_broker (rs_world (spawned_state all m))))) = idle (\<lambda>_. [])"
  by (simp add: spawned_state_def broker_simps try_pop_abs example_broker_empty a_enqueue_def idle_def a_ack_def)

text \<open>A worker runs the task \<open>echo\<close> up to its acknowledgement and exits.\<close>

lemma echo_then_exit:
  assumes "msg_queue m = ''default''" "eta (mfields m) = None" "task_name (mfields m) = ''echo''"
    "payload (mfields m) = p"
  shows "\<exists>s'. run_steps (example_worker example_memory all) (replicate 5 (Resume 0) @ exit_events)
      (spawned_state all m) = Some s' \<and> rs_running s' = [] \<and> w_app (rs_world s') = [p] \<and>
      mb_abs (w_broker (rs_world s')) = idle (\<lambda>_. [])"
proof -
  let ?W = "example_worker example_memory all" and ?s = "spawned_state all m" and ?m = "started m"
  let ?u = "rs_world ?s"
  let ?u1 = "?u\<lparr>w_mw := snd (metrics_before (w_clock ?u) ?m (w_mw ?u))\<rparr>"
  let ?u2 = "?u1\<lparr>w_app := [p]\<rparr>"
  let ?u3 = "?u2\<lparr>w_mw := snd (metrics_after (w_clock ?u2) ?m p (w_mw ?u2))\<rparr>"
  let ?u4 = "snd (on_broker (mb_ack (msg_id m)) ?u3)"
  have mws: "wk_middlewares (example_worker B all) = [metrics_mw]" for B by (simp add: example_worker_def)
  have steps: "task_step ?W (Spawned m) ?u = (Some (InBefore ?m 0), ?u)"
    "task_step ?W (InBefore ?m 0) ?u = (Some (InBefore ?m 1), ?u1)"
    "task_step ?W (InBefore ?m 1) ?u1 = (Some (InAfter ?m p 0), ?u2)"
    "task_step ?W (InAfter ?m p 0) ?u2 = (Some (InAfter ?m p 1), ?u3)"
    "task_step ?W (InAfter ?m p 1) ?u3 = (Some (Storing (update_fields (\<lambda>f. f\<lparr>state := Success\<rparr>) ?m) p), ?u4)"
    using assms
    by (simp_all add: before_step_def after_step_def mws metrics_mw_def metrics_before_def dispatch_def registry_get_def
        echo_registry_def spawned_state_def broker_simps example_memory_def)
  have s: "rs_running ?s = [Spawned m]" "rs_phase ?s = LoopTop" "rs_permits ?s = 9"
    by (simp_all add: spawned_state_def run_init_def)
  have five: "replicate 5 (Resume 0) = [Resume 0, Resume 0, Resume 0, Resume 0, Resume 0]"
    by (simp add: numeral_eq_Suc)
  have "run_steps ?W (replicate 5 (Resume 0) @ exit_events) ?s = run_steps ?W exit_events
      (?s\<lparr>rs_running := [Storing (update_fields (\<lambda>f. f\<lparr>state := Success\<rparr>) ?m) p], rs_world := ?u4\<rparr>)"
    using s(1) steps unfolding five by (simp add: resume_single del: run_steps.simps task_step.simps)
  moreover have "w_broker ?u4 = snd (mb_ack (msg_id m) (w_broker ?u))" "w_app ?u4 = [p]"
    by (simp_all add: worker_simps)
  ultimately show ?thesis
    using exit_drops [of "?s\<lparr>rs_running := [Storing (update_fields (\<lambda>f. f\<lparr>state := Success\<rparr>) ?m) p], rs_world := ?u4\<rparr>"
        "Storing (update_fields (\<lambda>f. f\<lparr>state := Success\<rparr>) ?m) p" example_memory all] s(2,3)
      spawned_state_ack [OF assms(1), of all]
    by auto
qed

text \<open>Two members of a group of two, both about to be counted.\<close>

definition group_member_message :: "string TaskMessage" where
  "group_member_message = with_group ''g'' 2 (example_message ''echo'')"

definition two_members :: "(string MemoryBroker, string MemoryResultBackend, MetricsInner, string list, string) run_state"
where
  "two_members = (run_init (example_worker example_memory []) (example_world memory_broker_new))
     \<lparr>rs_permits := 8, rs_running := [Grouping group_member_message ''a'', Grouping group_member_message ''b''],
      rs_world := (example_world memory_broker_new)
        \<lparr>w_backend := snd (mr_init_group ''g'' 2 memory_result_backend_new)\<rparr>\<rparr>"

definition drain_state :: "(string MemoryBroker, string MemoryResultBackend, MetricsInner, string list, string) run_state"
where
  "drain_state = start_drain (example_worker example_memory []) taken_state"

lemma drain_state_phase: "rs_phase drain_state = Draining (30 * nanos_per_sec)"
  by (simp add: drain_state_def start_drain_def taken_state_def spawned_state_def loaded_world_def
      worker_config_default_def duration_from_secs_def)

definition dedup_worker :: "(string MemoryBroker, string MemoryResultBackend, DeduplicationMiddleware,
    string list, string, unit) Worker" where
  "dedup_worker =
     \<lparr>wk_broker = example_memory,
      wk_registry = \<lparr>handlers = [''echo'' \<mapsto> (\<lambda>p ctx x. (Inl (TaskFailed p), x @ [p]))]\<rparr>,
      wk_middlewares = [dedup_mw], wk_context = (), wk_config = worker_config_default,
      wk_result_backend = None, wk_serde = example_serde [], wk_now_v7 = of_nat\<rparr>"

definition dedup_world :: "(string MemoryBroker, string MemoryResultBackend, DeduplicationMiddleware,
    string list) world" where
  "dedup_world =
     \<lparr>w_broker = snd (mb_enqueue (with_dedup_key ''k'' (example_message ''echo'')) memory_broker_new),
      w_backend = memory_result_backend_new, w_mw = dedup_new (60 * nanos_per_sec), w_app = [],
      w_now = 0, w_clock = 0, w_drawn = 0\<rparr>"

section \<open>Retries\<close>



section \<open>Workflows\<close>

text \<open>C2: a chain submitted to an idle in-memory broker is carried out: \<open>apply\<close> succeeds, and a worker
  that only observing middlewares surround then runs the tasks of the flattened chain in
  order, each exactly once and each after its predecessor succeeded (so that the application
  state is the one sequential execution gives), in as many rounds as there are tasks, and
  leaves the broker idle. The serializer has to read back what it prints for the rest of the
  chain.\<close>

theorem chain_workflow_completes:
  assumes "se_broker E = memory_broker enum" and "flatten_chain steps = sig # rest"
    and "chain_serde (se_serde E) rest"
    and "list_all (chain_step_ok (wc_queues (wk_config W))) (sig # rest)"
    and "wk_broker W = memory_broker enum" and "wk_result_backend W = Some R"
    and "\<forall>M\<in>set (wk_middlewares W). observer M" and "wk_serde W = se_serde E"
    and "mb_abs (sub_broker s) = idle d"
    and "run_sigs (wk_registry W) (wk_context W) (sig # rest) (w_app w) = Some (vs, y)"
  shows "\<exists>h s'. canvas_apply E (Chain steps) s = Some (Inr h, s') \<and>
    mb_abs (w_broker ((worker_round W ^^ length (sig # rest)) (w\<lparr>w_broker := sub_broker s'\<rparr>))) = idle d \<and>
    w_app ((worker_round W ^^ length (sig # rest)) (w\<lparr>w_broker := sub_broker s'\<rparr>)) = y"
proof -
  have ok: "chain_step_ok (wc_queues (wk_config W)) sig" using assms(4) by simp
  from memory_workflow.apply_chain [OF assms(1,2) ok assms(3), of s] obtain m s' where
    run: "canvas_apply E (Chain steps) s = Some (Inr \<lparr>wh_id = se_uuid_fmt E (se_now_v7 E (sub_drawn s)),
        wh_task_ids = [msg_id m]\<rparr>, s')"
    and m: "mb_abs (sub_broker s') = a_enqueue m (mb_abs (sub_broker s))"
      "chain_message (se_serde E) sig rest m"
    by blast
  have "mb_abs (w_broker (w\<lparr>w_broker := sub_broker s'\<rparr>)) = idle_with m d"
    using m(1) assms(9) by (simp add: a_enqueue_def idle_def queued_with_def)
  note chain = memory.single.chain_runs [OF assms(5-7) TrueI _ refl _ suffix_order.order_refl
      assms(4) _ this, unfolded assms(8), OF m(2) assms(3)]
  show ?thesis using run chain assms(10) by auto
qed

theorem chain_workflow_completes_witness:
  "\<exists>h s'. canvas_apply (example_env [echo_sig ''b'', echo_sig ''c''])
      (chain_macro [echo_sig ''a'', echo_sig ''b'', echo_sig ''c'']) example_submission
      = Some (Inr h, s') \<and>
    w_app ((worker_round (example_worker example_memory [echo_sig ''b'', echo_sig ''c'']) ^^ 3)
      ((example_world memory_broker_new)\<lparr>w_broker := sub_broker s'\<rparr>)) = [''a'', ''b'', ''c'']"
proof -
  let ?all = "[echo_sig ''b'', echo_sig ''c'']"
  have "list_all (chain_step_ok [''default'']) (echo_sig ''a'' # ?all)"
    by (simp add: chain_step_ok_def echo_sig_def signature_new_def)
  moreover have "chain_serde (example_serde ?all) ?all"
    by (simp add: example_serde_def echo_sig_def)
  moreover have "run_sigs echo_registry () (echo_sig ''a'' # ?all) []
      = Some ([''a'', ''b'', ''c''], [''a'', ''b'', ''c''])"
    by (simp add: echo_sig_def signature_new_def echo_registry_def dispatch_def registry_get_def)
  ultimately show ?thesis
    using chain_workflow_completes [of "example_env ?all" "\<lambda>_. []"
        "map Single [echo_sig ''a'', echo_sig ''b'', echo_sig ''c'']" "echo_sig ''a''" ?all
        "example_worker example_memory ?all" "memory_result_backend example_uuid"
        example_submission "\<lambda>_. []" "example_world memory_broker_new"
        "[''a'', ''b'', ''c'']" "[''a'', ''b'', ''c'']"]
      example_worker_observers [of example_memory ?all] example_broker_empty
    by (auto simp: chain_macro_def example_env_def example_memory_def example_submission_def
        eval_nat_numeral simp del: run_sigs.simps funpow.simps)
qed



section \<open>The in-memory broker\<close>

text \<open>C8: in every history of an in-memory broker in which enqueued tasks have new identifiers and only
  messages in processing are acknowledged, returned or dead-lettered, each task enqueued and
  not acknowledged is in exactly one place, once: a queue, the processing map or a
  dead-letter queue; and the broker holds nothing else.\<close>

theorem memory_broker_conserves_tasks:
  assumes "mb_history E A s"
  shows "mb_ids s = mset_set (E - A) \<and> A \<subseteq> E"
  using mb_history_inv [OF assms] by simp

theorem memory_broker_conserves_tasks_witness:
  "mb_ids (snd (mb_nack (example_message ''echo'')
       (snd (try_pop [''default''] (snd (mb_enqueue (example_message ''echo'') memory_broker_new))))))
     = {#TaskId 7#}"
proof -
  let ?m = "example_message ''echo''" and ?s = "snd (mb_enqueue (example_message ''echo'') memory_broker_new)"
  have id: "msg_id ?m = TaskId 7" by (simp add: example_message_def message_new_def taskid_new_def)
  have "mb_history {TaskId 7} {} ?s"
    using hist_enqueue [OF hist_new, of ?m] by (simp add: id)
  then have "mb_history {TaskId 7} {} (snd (try_pop [''default''] ?s))" by (rule hist_dequeue)
  moreover have "mb_processing (snd (try_pop [''default''] ?s)) (msg_id ?m) \<noteq> None"
    by (simp add: try_pop_def mb_enqueue_def memory_broker_new_def push_back_def example_message_def
        message_new_def)
  ultimately have "mb_history {TaskId 7} {} (snd (mb_nack ?m (snd (try_pop [''default''] ?s))))"
    by (rule hist_nack)
  from memory_broker_conserves_tasks [OF this] show ?thesis by simp
qed


text \<open>Messages enqueued one after the other on an empty queue of the in-memory broker are dequeued
  in the same order, each once.\<close>

lemma memory_broker_fifo:
  assumes "a_queued (mb_abs s) q = []" and "\<forall>m\<in>set ms. msg_queue m = q"
  shows "fst (dequeue_times (memory_broker enum) [q] t (length ms)
               (enqueue_all (memory_broker enum) ms s)) = map (\<lambda>m. Inr (Some m)) ms"
  using assms by (rule memory.enqueue_dequeue_fifo)

lemma memory_broker_fifo_witness:
  "fst (dequeue_times example_memory [''default''] 0 2
         (enqueue_all example_memory [example_message ''a'', example_message ''b''] memory_broker_new))
     = [Inr (Some (example_message ''a'')), Inr (Some (example_message ''b''))]"
  using memory_broker_fifo [of memory_broker_new "''default''"
      "[example_message ''a'', example_message ''b'']" "\<lambda>_. []" 0]
  by (simp add: example_memory_def example_broker_empty idle_def example_message_def message_new_def
      numeral_2_eq_2)

text \<open>C11: a blocking \<open>dequeue\<close> of the in-memory broker takes effect atomically: whatever the other tasks
  do to the broker while it waits, the message it returns is the one an instantaneous
  dequeue returns in the initial state or in a state reached during the wait, and the broker
  is left as by that dequeue.\<close>

theorem memory_dequeue_linearizable:
  assumes "mb_dequeue_under now wakes names timeout s = (Inr (Some m), s')"
  shows "\<exists>a \<in> wait_states wakes s. a_pop names a = (Some m, mb_abs s')"
  using assms dequeue_loop_linear [of names "now + timeout" now wakes s m s']
  by (simp add: mb_dequeue_under_def case_prod_beta Let_def prod_eq_iff)

theorem memory_dequeue_linearizable_witness:
  "\<exists>a \<in> wait_states [Wake (\<lambda>s. snd (mb_enqueue (example_message ''echo'') s)) 1] memory_broker_new.
     fst (a_pop [''default''] a) = Some (example_message ''echo'')"
proof -
  let ?m = "example_message ''echo''"
  have "\<exists>s'. mb_dequeue_under 0 [Wake (\<lambda>s. snd (mb_enqueue ?m s)) 1] [''default''] 5 memory_broker_new
      = (Inr (Some ?m), s')"
    by (simp add: mb_dequeue_under_def dequeue_loop.simps try_pop_def mb_enqueue_def
        memory_broker_new_def push_back_def saturating_duration_since_def example_message_def
        message_new_def)
  then obtain s' where "mb_dequeue_under 0 [Wake (\<lambda>s. snd (mb_enqueue ?m s)) 1] [''default''] 5
      memory_broker_new = (Inr (Some ?m), s')" ..
  from memory_dequeue_linearizable [OF this] show ?thesis by (metis fst_conv)
qed

section \<open>The worker loop\<close>

text \<open>C4: no task is lost by a worker on the in-memory broker: take any run of the worker loop, with any
  interleaving of dequeues, single steps of the running tasks, panics, cancellation, time and
  changes by other processes. If the broker had a task at the start (queued, handed out or
  dead-lettered), then at the end it still has it or a running task is about to schedule it
  again, unless the run acknowledged the task after its handler succeeded, or the task was
  removed from outside: by another process, a dropped call of \<open>dequeue\<close>, or the exit of the
  process between the acknowledgement and the scheduling of a task with a future eta.\<close>

theorem no_task_lost:
  assumes "wk_broker W = memory_broker enum" and "run_steps W evs s = Some s'"
    and "a_has i (mb_abs (w_broker (rs_world s)))"
  shows "kept mb_abs i s' \<or> 0 < count_events (completes W i) W evs s \<or>
    0 < count_events (removes mb_abs i) W evs s"
  using memory.run_steps_keeps [OF assms(1,2)] assms(3) by (simp add: kept_def)

theorem no_task_lost_witness:
  "kept mb_abs (TaskId 7) (the (run_steps (example_worker example_memory [])
       [Cancel, Resume 0, Panic 0 [], CheckToken] taken_state))"
proof -
  let ?W = "example_worker example_memory []" and ?evs = "[Cancel, Resume 0, Panic 0 [], CheckToken]"
  have W: "wk_broker ?W = memory_broker (\<lambda>_. [])" by (simp add: example_memory_def)
  have first: "task_step ?W (Spawned (example_message ''echo'')) w = (Some (InBefore (started (example_message ''echo'')) 0), w)"
    for w by (simp add: example_message_def message_new_def)
  have "\<exists>s'. run_steps ?W ?evs taken_state = Some s'"
    by (simp add: taken_state_def spawned_state_def run_init_def end_task_def release_permit_def resume_task_def first
        del: task_step.simps)
  then obtain s' where run: "run_steps ?W ?evs taken_state = Some s'" ..
  have "a_has (TaskId 7) (mb_abs (w_broker (rs_world taken_state)))"
    by (simp add: taken_state_def spawned_state_def loaded_world_def a_has_def mb_abs_def try_pop_def mb_enqueue_def
        memory_broker_new_def push_back_def example_message_def message_new_def taskid_new_def)
  note lost = no_task_lost [OF W run this]
  have "count_events (completes ?W (TaskId 7)) ?W ?evs taken_state = 0"
    "count_events (removes mb_abs (TaskId 7)) ?W ?evs taken_state = 0"
    by (simp_all add: completes_def removes_def taken_state_def spawned_state_def run_init_def resume_task_def first
        end_task_def release_permit_def del: task_step.simps)
  with lost run show ?thesis by simp
qed

text \<open>A cancellation can lose a task of the in-memory broker: \<open>dequeue\<close> pops the message before it
  waits for the lock of the processing map, and the worker drops the call when its token is
  cancelled. There is a run in which a queued task is dequeued by a call that is dropped at
  that point, and afterwards the broker does not have the task, nothing runs and nothing was
  completed.\<close>

lemma dropped_dequeue_loses_task:
  "\<exists>b \<in> set (mb_dequeue_dropped [''default''] (w_broker loaded_world)). \<exists>s'.
     a_has (TaskId 7) (mb_abs (w_broker loaded_world)) \<and>
     run_steps (example_worker example_memory []) [CheckToken, Acquire, Cancel, AbortDequeue b, DrainCheck]
       (run_init (example_worker example_memory []) loaded_world) = Some s' \<and>
     rs_phase s' = Stopped \<and> rs_running s' = [] \<and> \<not> a_has (TaskId 7) (mb_abs (w_broker (rs_world s')))"
proof -
  let ?b = "(w_broker loaded_world)\<lparr>mb_queues := [''default'' \<mapsto> []]\<rparr>"
  have "?b \<in> set (mb_dequeue_dropped [''default''] (w_broker loaded_world))"
    by (simp add: mb_dequeue_dropped_def loaded_world_def mb_enqueue_def memory_broker_new_def
        push_back_def example_message_def message_new_def)
  moreover have "a_has (TaskId 7) (mb_abs (w_broker loaded_world))"
    by (simp add: loaded_world_def broker_simps a_has_enqueue example_message_def message_new_def
        taskid_new_def)
  moreover have "\<not> a_has (TaskId 7) (mb_abs ?b)"
    by (auto simp: loaded_world_def a_has_def ids_in_def mb_abs_def stored_def mb_enqueue_def
        memory_broker_new_def)
  ultimately show ?thesis
    by (intro bexI [of _ ?b])
       (simp_all add: run_init_def release_permit_def start_drain_def drain_check_def
          worker_config_default_def)
qed

text \<open>The worker acknowledges too early for a process that exits at the shutdown deadline. There is a
  run in which a task with a future eta is acknowledged, the drain phase times out and the
  process exits before the task is scheduled again: no broker state has it any more. And there
  is a run in which the first task of a chain succeeds and is acknowledged, and the process
  exits before the next task is enqueued: nothing is queued, so the chain is cut.\<close>

lemma exit_after_ack_loses_task:
  "\<exists>s' s''.
     run_steps (example_worker example_memory [])
       ([CheckToken, Acquire, Dequeue] @ Resume 0 # exit_events)
       (run_init (example_worker example_memory []) (queued_world (with_eta 5 (example_message ''echo'')))) = Some s' \<and>
     a_has (TaskId 7) (mb_abs (w_broker (queued_world (with_eta 5 (example_message ''echo''))))) \<and>
     rs_running s' = [] \<and> \<not> a_has (TaskId 7) (mb_abs (w_broker (rs_world s'))) \<and> w_app (rs_world s') = [] \<and>
     run_steps (example_worker example_memory [echo_sig ''next''])
       ([CheckToken, Acquire, Dequeue] @ replicate 5 (Resume 0) @ exit_events)
       (run_init (example_worker example_memory [echo_sig ''next''])
         (queued_world (with_header ''kojin.chain_next'' ''s'' (example_message ''echo'')))) = Some s'' \<and>
     rs_running s'' = [] \<and> w_app (rs_world s'') = [''hello''] \<and> a_queued (mb_abs (w_broker (rs_world s''))) = (\<lambda>_. [])"
proof -
  let ?W = "example_worker example_memory []" and ?m = "with_eta 5 (example_message ''echo'')"
  let ?V = "example_worker example_memory [echo_sig ''next'']"
    and ?n = "with_header ''kojin.chain_next'' ''s'' (example_message ''echo'')"
  let ?s = "spawned_state [] ?m" and ?t = "spawned_state [echo_sig ''next''] ?n"
  let ?w = "snd (on_broker (mb_ack (TaskId 7)) (rs_world ?s))"
  have m: "msg_queue ?m = ''default''" "msg_id ?m = TaskId 7" "eta (mfields ?m) = Some 5" and n: "msg_queue ?n = ''default''"
    "eta (mfields ?n) = None" "task_name (mfields ?n) = ''echo''" "payload (mfields ?n) = ''hello''"
    by (simp_all add: with_eta_def with_header_def example_message_def message_new_def taskid_new_def)
  have "task_step ?W (Spawned ?m) (rs_world ?s) = (Some (Rescheduling ?m 5), ?w)"
    by (simp add: spawned_state_def m example_memory_def example_world_def broker_simps)
  then have "run_steps ?W (Resume 0 # exit_events) ?s =
      run_steps ?W exit_events (?s\<lparr>rs_running := [Rescheduling ?m 5], rs_world := ?w\<rparr>)"
    by (rule resume_single [rotated]) (simp add: spawned_state_def)
  moreover have "rs_phase ?s = LoopTop" "rs_permits ?s = 9" by (simp_all add: spawned_state_def run_init_def)
  ultimately have "\<exists>s'. run_steps ?W (Resume 0 # exit_events) ?s = Some s' \<and> rs_running s' = [] \<and>
      w_broker (rs_world s') = w_broker ?w \<and> w_app (rs_world s') = w_app ?w"
    using exit_drops [of "?s\<lparr>rs_running := [Rescheduling ?m 5], rs_world := ?w\<rparr>" "Rescheduling ?m 5"] by simp
  then obtain s' where s': "run_steps ?W (Resume 0 # exit_events) ?s = Some s'" "rs_running s' = []"
    "w_broker (rs_world s') = w_broker ?w" "w_app (rs_world s') = []"
    by (auto simp: worker_simps spawned_state_def)
  have lost: "\<not> a_has (TaskId 7) (mb_abs (w_broker (rs_world s')))"
    using spawned_state_ack [OF m(1)] by (simp add: s' worker_simps m idle_def a_has_def ids_in_def)
  obtain s'' where s'': "run_steps ?V (replicate 5 (Resume 0) @ exit_events) ?t = Some s''" "rs_running s'' = []"
    "w_app (rs_world s'') = [''hello'']" "mb_abs (w_broker (rs_world s'')) = idle (\<lambda>_. [])"
    using echo_then_exit [OF n] by blast
  have "a_has (TaskId 7) (mb_abs (w_broker (queued_world ?m)))"
    by (simp add: broker_simps a_has_enqueue m)
  with s'(1,2,4) s'' lost show ?thesis
    using run_steps_append [of ?W "[CheckToken, Acquire, Dequeue]" "Resume 0 # exit_events"]
      run_steps_append [of ?V "[CheckToken, Acquire, Dequeue]" "replicate 5 (Resume 0) @ exit_events"]
      spawned_state_steps [OF m(1)] spawned_state_steps [OF n(1)]
    by (intro exI [of _ s'] exI [of _ s'']) (simp add: idle_def exit_events_def del: run_steps.simps)
qed

text \<open>C5: chords are safe under concurrency: whatever the broker, and however the steps of the tasks of a
  group (and everything else) interleave, as long as nobody else touches the group in the
  in-memory backend: if the counter goes from \<open>c\<close> to \<open>c'\<close> in a run, then for every \<open>n\<close> with
  \<open>c < n \<le> c'\<close> exactly one member is told that \<open>n\<close> have completed, and for other \<open>n\<close> none; so at
  most one member goes on to collect the results and to enqueue the callback.\<close>

theorem group_total_told_once:
  assumes "wk_result_backend W = Some (memory_result_backend fmt)" and "run_steps W evs s = Some s'"
    and "count_events (alters_group mr_counter g) W evs s = 0"
    and "mr_counter g (w_backend (rs_world s)) = Some c" and "c + length evs < 2 ^ 32"
  shows "\<exists>c'. mr_counter g (w_backend (rs_world s')) = Some c' \<and>
    count_events (told (memory_result_backend fmt) g n) W evs s = (if c < unat n \<and> unat n \<le> c' then 1 else 0) \<and>
    count_events (fires W g n) W evs s \<le> 1"
  using memory_counter.told_once [OF assms, of n] by blast

theorem group_total_told_once_witness:
  "count_events (told (memory_result_backend example_uuid) ''g'' 2) (example_worker example_memory []) [Resume 1, Resume 0] two_members = 1 \<and>
   count_events (fires (example_worker example_memory []) ''g'' 2) (example_worker example_memory [])
     [Resume 1, Resume 0] two_members \<le> 1"
proof -
  let ?W = "example_worker example_memory []" and ?evs = "[Resume 1, Resume 0]"
  let ?m = group_member_message and ?G = "\<lambda>v. mr_complete_group_member ''g'' (msg_id group_member_message) v"
  let ?w = "rs_world two_members"
  let ?w1 = "?w\<lparr>w_backend := snd (?G ''b'' (w_backend ?w))\<rparr>"
  let ?w2 = "?w\<lparr>w_backend := snd (?G ''a'' (snd (?G ''b'' (w_backend ?w))))\<rparr>"
  have "group_id (mfields ?m) = Some ''g''" "chord_callback ?m = None"
    by (simp_all add: group_member_message_def with_group_def example_message_def message_new_def)
  then have step: "task_step ?W (Grouping ?m v) w = (Some (Chaining ?m v), w\<lparr>w_backend := snd (?G v (w_backend w))\<rparr>)"
    for v w by (simp add: group_step_def backend_simps on_backend_def case_prod_beta split: sum.split)
  have run: "run_steps ?W ?evs two_members =
      Some (two_members\<lparr>rs_running := [Chaining ?m ''a'', Chaining ?m ''b''], rs_world := ?w2\<rparr>)"
    by (simp add: two_members_def resume_task_def step del: task_step.simps)
  have alters: "count_events (alters_group mr_counter ''g'') ?W ?evs two_members = 0"
    by (simp add: alters_group_def two_members_def)
  have counts: "mr_counter ''g'' (w_backend ?w) = Some 0" "mr_counter ''g'' (w_backend ?w2) = Some 2"
    by (simp_all add: two_members_def mr_counter_def mr_init_group_def mr_complete_group_member_def)
  show ?thesis
    using group_total_told_once [OF _ run alters counts(1), of example_uuid 2] counts(2)
    by (simp add: del: count_events.simps)
qed

text \<open>C9: whatever the loop, the spawned tasks, a cancellation and the clock do, in whatever order, the
  free permits, the permit the loop holds while it dequeues and the running tasks add up to
  the configured concurrency: no more tasks than that run at once, and no ended, failed or
  panicked task keeps its permit.\<close>

theorem worker_concurrency_bounded:
  assumes "run_reachable W w s"
  shows "rs_permits s + (if rs_phase s = Dequeuing then 1 else 0) + length (rs_running s)
    = concurrency (wk_config W)"
  using run_reachable_permits [OF assms] by (simp add: permits_inv_def holds_permit_def)

theorem worker_concurrency_bounded_witness:
  "rs_permits taken_state + length [Spawned (example_message ''echo'')] = 10"
  using worker_concurrency_bounded [OF taken_state_reachable]
  by (simp add: taken_state_def spawned_state_def run_init_def worker_config_default_def)

text \<open>C16: once the loop has been left, the worker takes no task any more: whatever happens, it stays in
  its drain phase or stopped, and the tasks still running are among those that were running.\<close>

theorem shutdown_takes_no_task:
  assumes "run_steps W evs s = Some s'" and "shutting_down (rs_phase s)"
  shows "shutting_down (rs_phase s') \<and>
    mset (map stage_id (rs_running s')) \<subseteq># mset (map stage_id (rs_running s))"
  using assms by (rule shutdown_steps)

theorem shutdown_takes_no_task_witness:
  "mset (map stage_id (rs_running (the (run_steps (example_worker example_memory [])
       [DrainCheck, Resume 0, DrainWake, DrainCheck] drain_state)))) \<subseteq># {#TaskId 7#}"
proof -
  have "\<exists>s'. run_steps (example_worker example_memory [])
      [DrainCheck, Resume 0, DrainWake, DrainCheck] drain_state = Some s'"
    by (simp add: drain_state_phase drain_check_def resume_task_phase)
       (simp add: drain_state_def start_drain_def taken_state_def spawned_state_def loaded_world_def
          worker_config_default_def nanos_per_sec_def resume_task_phase)
  moreover have "map stage_id (rs_running drain_state) = [TaskId 7]"
    by (simp add: drain_state_def start_drain_def taken_state_def spawned_state_def example_message_def message_new_def
        taskid_new_def)
  ultimately show ?thesis
    using shutdown_takes_no_task [of "example_worker example_memory []"
        "[DrainCheck, Resume 0, DrainWake, DrainCheck]" drain_state] drain_state_phase
    by (auto simp del: run_steps.simps simp: shutting_down_def)
qed

text \<open>C15: the drain phase is bounded: from the moment it starts, whatever the running tasks do and
  however the events interleave, the worker polls for at most the shutdown timeout, rounded up
  to the next 100 ms; and left to itself it does stop.\<close>

theorem drain_bounded:
  assumes "run_steps W evs (start_drain W s) = Some s'"
  shows "count_list evs DrainWake * duration_from_millis 100
      < shutdown_timeout (wk_config W) + duration_from_millis 100 \<and>
    (\<exists>n s''. run_steps W (concat (replicate n [DrainCheck, DrainWake]) @ [DrainCheck]) (start_drain W s)
        = Some s'' \<and> rs_phase s'' = Stopped)"
proof -
  let ?dl = "w_clock (rs_world s) + shutdown_timeout (wk_config W)"
  have phase: "rs_phase (start_drain W s) = Draining ?dl" by (simp add: start_drain_def)
  from drain_wakes(1) [OF assms phase] show ?thesis
    using drain_alone_stops [OF phase]
    by (cases "count_list evs DrainWake") (auto simp: start_drain_def duration_from_millis_def)
qed

theorem drain_bounded_witness:
  "count_list [DrainCheck, DrainWake, DrainCheck, DrainWake] DrainWake * duration_from_millis 100
     < 30 * nanos_per_sec + duration_from_millis 100 \<and>
   (\<exists>n s''. run_steps (example_worker example_memory [])
      (concat (replicate n [DrainCheck, DrainWake]) @ [DrainCheck]) drain_state = Some s'' \<and>
      rs_phase s'' = Stopped)"
proof -
  have "\<exists>s'. run_steps (example_worker example_memory [])
      [DrainCheck, DrainWake, DrainCheck, DrainWake] drain_state = Some s'"
    by (simp add: drain_state_phase drain_check_def)
       (simp add: drain_state_def start_drain_def taken_state_def spawned_state_def loaded_world_def sleep_def
          worker_config_default_def nanos_per_sec_def duration_from_millis_def)
  then obtain s' where "run_steps (example_worker example_memory [])
      [DrainCheck, DrainWake, DrainCheck, DrainWake] (start_drain (example_worker example_memory []) taken_state)
      = Some s'"
    unfolding drain_state_def ..
  from drain_bounded [OF this] show ?thesis
    by (simp add: drain_state_def worker_config_default_def duration_from_secs_def del: run_steps.simps)
qed

text \<open>The worker leaves its drain phase only when no task is running or the shutdown deadline has
  passed.\<close>

lemma worker_stops_gracefully:
  assumes "run_reachable W w s" and "run_step W ev s = Some s'"
    and "rs_phase s' = Stopped" and "rs_phase s \<noteq> Stopped"
  shows "rs_running s' = [] \<or> (\<exists>dl. rs_phase s = Draining dl \<and> dl \<le> w_clock (rs_world s'))"
  using stop_reason [OF assms(2-4) run_reachable_permits [OF assms(1)]] .

lemma worker_stops_gracefully_example:
  "rs_running (start_drain (example_worker example_memory [])
       (run_init (example_worker example_memory []) loaded_world)\<lparr>rs_cancelled := True\<rparr>) = [] \<or> False"
proof -
  let ?W = "example_worker example_memory []"
  let ?s = "start_drain ?W ((run_init ?W loaded_world)\<lparr>rs_cancelled := True\<rparr>)"
  have "run_steps ?W [Cancel, CheckToken] (run_init ?W loaded_world) = Some ?s"
    by (simp add: run_init_def)
  from run_steps_reachable [OF this run_reachable.init] have "run_reachable ?W loaded_world ?s" .
  moreover have "run_step ?W DrainCheck ?s = Some (?s\<lparr>rs_phase := Stopped\<rparr>)"
    by (simp add: start_drain_def drain_check_def run_init_def)
  ultimately show ?thesis
    using worker_stops_gracefully [of ?W loaded_world ?s DrainCheck "?s\<lparr>rs_phase := Stopped\<rparr>"]
    by (simp add: start_drain_def loaded_world_def worker_config_default_def duration_from_secs_def
        nanos_per_sec_def)
qed

text \<open>A task with an execution time in the future is neither run nor delayed by a worker on the
  in-memory broker: the worker acknowledges it and schedules it again, which puts it straight
  back into its queue, and no time passes, so the worker keeps doing this until the time has
  come.\<close>

lemma future_task_requeued:
  assumes "wk_broker W = memory_broker enum" and "eta (mfields m) = Some t" and "w_now w < t"
    and "msg_queue m \<in> set (wc_queues (wk_config W))" and "mb_abs (w_broker w) = idle_with m d"
  shows "mb_abs (w_broker ((worker_round W ^^ n) w)) = idle_with m d \<and>
    w_app ((worker_round W ^^ n) w) = w_app w \<and> w_clock ((worker_round W ^^ n) w) = w_clock w"
  using memory.eta_rounds [OF assms] by blast

lemma future_task_requeued_example:
  "mb_abs (w_broker ((worker_round (example_worker example_memory []) ^^ 1000)
      (example_world (snd (mb_enqueue (with_eta 5 (example_message ''echo'')) memory_broker_new)))))
    = idle_with (with_eta 5 (example_message ''echo'')) (\<lambda>_. [])"
proof -
  let ?W = "example_worker example_memory []" and ?m = "with_eta 5 (example_message ''echo'')"
  let ?w = "example_world (snd (mb_enqueue ?m memory_broker_new))"
  have "mb_abs (w_broker ?w) = idle_with ?m (\<lambda>_. [])"
    by (simp add: broker_simps example_broker_empty a_enqueue_def idle_def queued_with_def)
  moreover have "w_now ?w < 5" by (simp add: example_world_def)
  ultimately show ?thesis
    using future_task_requeued [of ?W "\<lambda>_. []" ?m 5 ?w "\<lambda>_. []" 1000]
    by (simp add: example_memory_def with_eta_def example_message_def message_new_def)
qed

section \<open>Deduplication\<close>

text \<open>C17: under the deduplication middleware, a task that carries a deduplication key and fails once
  never runs again while the key is remembered: its own retries are rejected as duplicates, so
  the handler ran exactly once (the application state is the one the first run left) and the
  task ends in the dead-letter queue, although retries were left.\<close>

theorem dedup_rejects_own_retries:
  assumes "wk_broker W = memory_broker enum" and "wk_middlewares W = [dedup_mw]"
    and "retries (mfields m) < max_retries (mfields m)"
    and "msg_queue m \<in> set (wc_queues (wk_config W))" and "eta (mfields m) = None"
    and "dedup_key (mfields m) = Some k" and "\<not> key_live (w_clock w) k (w_mw w)"
    and "(\<Sum>i = unat (retries (mfields m)) ..< unat (max_retries (mfields m)). min (2 ^ i) 300)
           * nanos_per_sec < ttl (w_mw w)"
    and "dispatch (wk_registry W) (task_name (mfields m)) (payload (mfields m)) (wk_context W)
           (w_app w) = (Inl e, y)"
    and "mb_abs (w_broker w) = idle_with m d"
    and "n = unat (max_retries (mfields m)) - unat (retries (mfields m))"
  shows "w_app ((worker_round W ^^ Suc n) w) = y \<and>
    (\<exists>dead. mb_abs (w_broker ((worker_round W ^^ Suc n) w))
        = idle (d(msg_queue m := d (msg_queue m) @ [dead])) \<and> same_task m dead)"
  using memory.dedup_failing_task [OF assms(1-7) _ assms(9-11)] assms(8)
  by (simp add: backoff_total_def exponential_spec_def)

theorem dedup_rejects_own_retries_witness:
  "w_app ((worker_round dedup_worker ^^ Suc 3) dedup_world) = [''hello'']"
proof -
  let ?m = "with_dedup_key ''k'' (example_message ''echo'')"
  have m: "retries (mfields ?m) = 0" "max_retries (mfields ?m) = 3" "msg_queue ?m = ''default''"
    "eta (mfields ?m) = None" "dedup_key (mfields ?m) = Some ''k''"
    "task_name (mfields ?m) = ''echo''" "payload (mfields ?m) = ''hello''"
    by (simp_all add: with_dedup_key_def example_message_def message_new_def)
  have "(\<Sum>i = 0 ..< 3. min (2 ^ i) (300::nat)) = 7" by (simp add: eval_nat_numeral)
  then have sum: "(\<Sum>i = unat (retries (mfields ?m)) ..< unat (max_retries (mfields ?m)). min (2 ^ i) 300)
      * nanos_per_sec < ttl (w_mw dedup_world)"
    by (simp add: m dedup_world_def dedup_new_def nanos_per_sec_def)
  have abs: "mb_abs (w_broker dedup_world) = idle_with ?m (\<lambda>_. [])"
    by (simp add: dedup_world_def broker_simps example_broker_empty a_enqueue_def idle_def queued_with_def)
  have "w_app ((worker_round dedup_worker ^^ Suc 3) dedup_world) = [''hello''] \<and>
    (\<exists>dead. mb_abs (w_broker ((worker_round dedup_worker ^^ Suc 3) dedup_world))
        = idle ((\<lambda>_. [])(msg_queue ?m := (\<lambda>_. []) (msg_queue ?m) @ [dead])) \<and> same_task ?m dead)"
    by (rule dedup_rejects_own_retries [OF _ _ _ _ m(4,5) _ sum _ abs,
          where enum = "\<lambda>_. []" and e = "TaskFailed ''hello''"])
       (simp_all add: m dedup_worker_def dedup_world_def example_memory_def key_live_def dedup_new_def
          dispatch_def registry_get_def)
  then show ?thesis by (rule conjunct1)
qed

text \<open>C20: \<open>wait\<close> always returns, on every result backend: with the result or the error of the first poll
  that gives one, or, when a poll at or after the deadline is still empty, with a timeout error
  that carries the timeout given; every poll before was empty and before the deadline. This
  holds whatever other tasks and processes do to the backend between the polls, however long
  the sleeps take and whatever the Redis server answers.\<close>

theorem result_wait_returns:
  "(\<exists>n. returns_at (mr_get f i) (duration_from_millis 50) env timeout (now + timeout) now s 0 n
      (mr_wait f env now i timeout s)) \<and>
   (\<exists>n. returns_at (rr_get A f J b i) (duration_from_millis 100) env' timeout (now + timeout) now s' 0 n
      (rr_wait A f J b env' now i timeout s')) \<and>
   (\<exists>n. returns_at (pr_get f i) (duration_from_millis 100) env'' timeout (now + timeout) now s'' 0 n
      (pr_wait f env'' now i timeout s''))"
  unfolding mr_wait_def rr_wait_def pr_wait_def
  by (intro conjI wait_for_returns) (simp_all add: duration_from_millis_def)

end
